(* ===== verification/Prelude.thy ===== *)
theory Prelude
  imports Complex_Main "HOL-Library.Sublist"
begin

text \<open>
  Shared vocabulary of the development: Python exceptions and results, the rational time line,
  the string methods of the Python standard library the sources use, dictionaries as
  association lists, and the list lemmas the components share.

  Python strings are \<^typ>\<open>string\<close> (character lists); the case mappings are those of the
  ASCII range, which covers every token the sources compare against.  Python integers are
  \<^typ>\<open>int\<close>, the floats of the clock and of the scheduler are rationals: every finite float is
  one, and the sources only add, subtract and compare them.
\<close>

section \<open>Automation collections\<close>

named_theorems py_defs \<open>definitions of the Python standard-library helpers\<close>
named_theorems db_defs \<open>definitions of the database operations\<close>
named_theorems wf_intros \<open>preservation of the schema invariant\<close>

section \<open>Exceptions and results\<close>

datatype exn =
    ValueError string
  | RuntimeError string
  | KeyError string
  | PermissionError string
  | AttributeError string
  | TypeError string
  | IntegrityError string
  | OSError string
  | ExternalError string

text \<open>\<open>str\<close> of an exception.\<close>

fun exn_text :: "exn \<Rightarrow> string" where
  "exn_text (ValueError t) = t"
| "exn_text (RuntimeError t) = t"
| "exn_text (KeyError t) = t"
| "exn_text (PermissionError t) = t"
| "exn_text (AttributeError t) = t"
| "exn_text (TypeError t) = t"
| "exn_text (IntegrityError t) = t"
| "exn_text (OSError t) = t"
| "exn_text (ExternalError t) = t"

type_synonym 'a res = "exn + 'a"

definition bindR :: "'e + 'a \<Rightarrow> ('a \<Rightarrow> 'e + 'b) \<Rightarrow> 'e + 'b" where
  "bindR m f = (case m of Inl e \<Rightarrow> Inl e | Inr x \<Rightarrow> f x)"

lemma bindR_simps [simp]:
  "bindR (Inl e) f = Inl e"
  "bindR (Inr x) f = f x"
  by (simp_all add: bindR_def)

lemma bindR_eq_Inr [simp]: "bindR m f = Inr y \<longleftrightarrow> (\<exists>x. m = Inr x \<and> f x = Inr y)"
  by (cases m) auto

lemma bindR_eq_Inl: "bindR m f = Inl e \<longleftrightarrow> m = Inl e \<or> (\<exists>x. m = Inr x \<and> f x = Inl e)"
  by (cases m) auto

lemma bindR_assoc: "bindR (bindR m f) g = bindR m (\<lambda>x. bindR (f x) g)"
  by (cases m) auto

definition is_ok :: "'e + 'a \<Rightarrow> bool" where
  "is_ok m = (case m of Inl _ \<Rightarrow> False | Inr _ \<Rightarrow> True)"

lemma is_ok_simps [simp]: "is_ok (Inr x)" "\<not> is_ok (Inl e)"
  by (simp_all add: is_ok_def)

lemma is_ok_iff: "is_ok m \<longleftrightarrow> (\<exists>x. m = Inr x)"
  by (cases m) auto

section \<open>Time\<close>

type_synonym seconds = rat

section \<open>Strings\<close>

text \<open>
  Lower case on one character of the ASCII range, for \<open>str.lower\<close> and for \<open>lower()\<close> of SQLite.  Beyond
  ASCII the latter leaves a character alone, as here, and the former does not, so what depends on the
  case of such letters is outside the model.
\<close>

definition lower_char :: "char \<Rightarrow> char" where
  "lower_char c =
     (let n = (of_char c :: nat) in if 65 \<le> n \<and> n \<le> 90 then char_of (n + 32) else c)"

definition py_lower :: "string \<Rightarrow> string" where
  "py_lower s = map lower_char s"

definition upper_char :: "char \<Rightarrow> char" where
  "upper_char c =
     (let n = (of_char c :: nat) in if 97 \<le> n \<and> n \<le> 122 then char_of (n - 32) else c)"

definition py_upper :: "string \<Rightarrow> string" where
  "py_upper s = map upper_char s"

definition is_space :: "char \<Rightarrow> bool" where
  "is_space c = (let n = (of_char c :: nat) in n = 32 \<or> (9 \<le> n \<and> n \<le> 13) \<or> (28 \<le> n \<and> n \<le> 31))"

definition py_strip :: "string \<Rightarrow> string" where
  "py_strip s = rev (dropWhile is_space (rev (dropWhile is_space s)))"

definition py_lstrip_char :: "char \<Rightarrow> string \<Rightarrow> string" where
  "py_lstrip_char c s = dropWhile (\<lambda>x. x = c) s"

text \<open>\<open>any(t in name for t in tokens)\<close>.\<close>

definition any_in :: "string list \<Rightarrow> string \<Rightarrow> bool" where
  "any_in tokens name = (\<exists>t \<in> set tokens. sublist t name)"

declare py_lower_def [py_defs] py_upper_def [py_defs] py_strip_def [py_defs]
  py_lstrip_char_def [py_defs] is_space_def [py_defs] lower_char_def [py_defs]
  upper_char_def [py_defs] any_in_def [py_defs]

lemma lower_char_idem [simp]: "lower_char (lower_char c) = lower_char c"
  by (auto simp: lower_char_def Let_def)

lemma py_lower_idem [simp]: "py_lower (py_lower s) = py_lower s"
  by (simp add: py_lower_def)

lemma py_lower_Nil [simp]: "py_lower [] = []"
  by (simp add: py_lower_def)

lemma py_lower_eq_Nil [simp]: "py_lower s = [] \<longleftrightarrow> s = []"
  by (simp add: py_lower_def)

lemma dropWhile_idem [simp]: "dropWhile P (dropWhile P xs) = dropWhile P xs"
  by (induction xs) auto

lemma py_lstrip_char_idem [simp]: "py_lstrip_char c (py_lstrip_char c s) = py_lstrip_char c s"
  by (simp add: py_lstrip_char_def)

text \<open>\<open>str\<close> of an integer.\<close>

definition digit_char :: "nat \<Rightarrow> char" where
  "digit_char n = char_of (48 + n)"

fun nat_str :: "nat \<Rightarrow> string" where
  "nat_str n = (if n < 10 then [digit_char n] else nat_str (n div 10) @ [digit_char (n mod 10)])"

declare nat_str.simps [simp del]

definition int_str :: "int \<Rightarrow> string" where
  "int_str i = (if i < 0 then CHR ''-'' # nat_str (nat (- i)) else nat_str (nat i))"

section \<open>Truthiness of optional values\<close>

definition truthy_str :: "string option \<Rightarrow> bool" where
  "truthy_str v = (case v of None \<Rightarrow> False | Some s \<Rightarrow> s \<noteq> [])"

lemma truthy_str_simps [simp]:
  "\<not> truthy_str None"
  "truthy_str (Some s) \<longleftrightarrow> s \<noteq> []"
  by (simp_all add: truthy_str_def)

definition or_empty :: "string option \<Rightarrow> string" where
  "or_empty v = (case v of None \<Rightarrow> [] | Some s \<Rightarrow> s)"

lemma or_empty_simps [simp]: "or_empty None = []" "or_empty (Some s) = s"
  by (simp_all add: or_empty_def)

section \<open>Dictionaries as association lists\<close>

text \<open>
  A Python \<open>dict\<close> keeps insertion order; assigning an existing key replaces the value in place.
\<close>

fun dict_set :: "'k \<Rightarrow> 'v \<Rightarrow> ('k \<times> 'v) list \<Rightarrow> ('k \<times> 'v) list" where
  "dict_set k v [] = [(k, v)]"
| "dict_set k v ((k', v') # r) = (if k' = k then (k, v) # r else (k', v') # dict_set k v r)"

definition dict_pop :: "'k \<Rightarrow> ('k \<times> 'v) list \<Rightarrow> ('k \<times> 'v) list" where
  "dict_pop k d = filter (\<lambda>p. fst p \<noteq> k) d"

lemma map_of_dict_set [simp]: "map_of (dict_set k v d) = (map_of d)(k \<mapsto> v)"
  by (induction k v d rule: dict_set.induct) auto

lemma map_of_dict_pop [simp]: "map_of (dict_pop k d) = (map_of d)(k := None)"
  by (induction d) (auto simp: dict_pop_def)

lemma fst_set_dict_set [simp]: "fst ` set (dict_set k v d) = insert k (fst ` set d)"
  by (induction k v d rule: dict_set.induct) auto

lemma distinct_dict_set [simp]:
  "distinct (map fst (dict_set k v d)) \<longleftrightarrow> distinct (map fst d)"
proof (induction k v d rule: dict_set.induct)
  case (2 k v k' v' r)
  have "set (map fst (dict_set k v r)) = insert k (set (map fst r))"
    by (metis fst_set_dict_set set_map)
  with 2 show ?case by auto
qed simp

lemma distinct_dict_pop [simp]: "distinct (map fst d) \<Longrightarrow> distinct (map fst (dict_pop k d))"
  by (simp add: dict_pop_def distinct_map_filter)

section \<open>Lists of rows\<close>

text \<open>
  \<open>UPDATE t SET ... WHERE p\<close> rewrites the rows that satisfy the predicate in place.
\<close>

definition update_where :: "('a \<Rightarrow> bool) \<Rightarrow> ('a \<Rightarrow> 'a) \<Rightarrow> 'a list \<Rightarrow> 'a list" where
  "update_where p f rows = map (\<lambda>r. if p r then f r else r) rows"

lemma update_where_Nil [simp]: "update_where p f [] = []"
  by (simp add: update_where_def)

lemma update_where_Cons [simp]:
  "update_where p f (r # rs) = (if p r then f r else r) # update_where p f rs"
  by (simp add: update_where_def)

lemma length_update_where [simp]: "length (update_where p f rows) = length rows"
  by (simp add: update_where_def)

lemma map_update_where_key:
  "(\<And>r. p r \<Longrightarrow> k (f r) = k r) \<Longrightarrow> map k (update_where p f rows) = map k rows"
  by (induction rows) auto

lemma set_update_where:
  "set (update_where p f rows) = {r \<in> set rows. \<not> p r} \<union> f ` {r \<in> set rows. p r}"
  by (auto simp: update_where_def image_iff)

lemma filter_update_where_other:
  "(\<And>r. p r \<Longrightarrow> \<not> q r) \<Longrightarrow> (\<And>r. p r \<Longrightarrow> \<not> q (f r)) \<Longrightarrow>
     filter q (update_where p f rows) = filter q rows"
  by (induction rows) auto

lemma length_filter_update_where:
  "(\<And>r. p r \<Longrightarrow> q (f r) = q r) \<Longrightarrow> length (filter q (update_where p f rows)) = length (filter q rows)"
  by (induction rows) auto

lemma update_where_none [simp]: "(\<And>r. r \<in> set rows \<Longrightarrow> \<not> p r) \<Longrightarrow> update_where p f rows = rows"
  by (induction rows) auto

definition find_row :: "('a \<Rightarrow> bool) \<Rightarrow> 'a list \<Rightarrow> 'a option" where
  "find_row p rows = List.find p rows"

lemma find_row_Nil [simp]: "find_row p [] = None"
  by (simp add: find_row_def)

lemma find_row_Cons [simp]: "find_row p (r # rs) = (if p r then Some r else find_row p rs)"
  by (simp add: find_row_def)

lemma find_row_SomeD: "find_row p rows = Some r \<Longrightarrow> r \<in> set rows \<and> p r"
  by (induction rows) (auto split: if_splits)

lemma find_row_None_iff: "find_row p rows = None \<longleftrightarrow> (\<forall>r \<in> set rows. \<not> p r)"
  by (induction rows) auto

lemma find_row_Some_key:
  "distinct (map k rows) \<Longrightarrow> r \<in> set rows \<Longrightarrow> find_row (\<lambda>x. k x = k r) rows = Some r"
  by (induction rows) (auto simp: rev_image_eqI)

lemma find_row_append:
  "find_row p (xs @ ys) = (case find_row p xs of None \<Rightarrow> find_row p ys | Some r \<Rightarrow> Some r)"
  by (induction xs) auto

lemma find_row_update_where:
  "(\<And>r. p r \<Longrightarrow> q (f r) = q r) \<Longrightarrow>
     find_row q (update_where p f rows) =
       (case find_row q rows of None \<Rightarrow> None | Some r \<Rightarrow> Some (if p r then f r else r))"
  by (induction rows) auto

lemma distinct_map_append1:
  "distinct (map k (xs @ [x])) \<longleftrightarrow> distinct (map k xs) \<and> k x \<notin> k ` set xs"
  by auto

section \<open>Stable ordering\<close>

text \<open>\<open>ORDER BY key\<close>: a stable sort of the rows.\<close>

lemma sorted_map_sort_key: "sorted (map k (sort_key k rows))"
  by simp

lemma distinct_sort_key [simp]: "distinct (map k (sort_key f rows)) = distinct (map k rows)"
  by (metis distinct_map distinct_sort set_sort)

lemma strict_sorted_sort_key:
  "distinct (map k rows) \<Longrightarrow> sorted_wrt (<) (map k (sort_key k rows))"
  by (simp add: strict_sorted_iff)

lemma map_of_rev_last:
  "k \<in> f ` set xs \<Longrightarrow> map_of (rev (map (\<lambda>x. (f x, x)) xs)) k = Some (last (filter (\<lambda>x. f x = k) xs))"
proof (induction xs rule: rev_induct)
  case (snoc x xs)
  then show ?case by (cases "k \<in> f ` set xs") (auto simp: filter_empty_conv)
qed simp

end
