(* ===== verification/Core_Types.thy ===== *)
theory Core_Types
  imports Prelude
begin

text \<open>
  The enumerations, constants and clock of \<open>src/src/tms/core\<close>, the terminal-state check of
  \<open>jobs/state_machine.py\<close>, and the domain error and event values the other components exchange.
\<close>

section \<open>Enumerations (core/enums.py)\<close>

datatype connection_state =
  CS_DISCONNECTED | CS_CONNECTING | CS_AUTH_REQUIRED | CS_READY | CS_ERROR | CS_DISABLED

datatype operation_state =
    OS_IDLE | OS_PREPARING | OS_RUNNING | OS_WAITING_SERVER | OS_PAUSED | OS_RATE_LIMITED
  | OS_RECOVERING

datatype account_state =
    AS_DISCONNECTED | AS_CONNECTING | AS_AUTH_REQUIRED | AS_READY | AS_ERROR | AS_DISABLED
  | AS_BUSY | AS_WAITING_SERVER

datatype job_state =
    JS_READY | JS_PREPARING | JS_RUNNING | JS_WAITING_SERVER | JS_PAUSED | JS_RATE_LIMITED
  | JS_COMPLETED | JS_COMPLETED_WITH_ERRORS | JS_FAILED | JS_CANCELLED

datatype job_type = JT_SCAN | JT_TARGET_SCAN | JT_MIGRATION | JT_REMOVE | JT_IMPORT | JT_EXPORT

datatype item_state = IS_READY | IS_RETRY | IS_SUCCESS | IS_SKIPPED | IS_FAILED

datatype invite_result_code =
    RATE_LIMIT | RATE_LIMIT_INDEFINITE | PRIVACY | ALREADY_MEMBER | NOT_ELIGIBLE | PERMISSION
  | AUTH | INVALID_USER | NETWORK_TRANSIENT | SERVER_TRANSIENT | UNKNOWN

datatype target_coverage = COMPLETE | PARTIAL | UNAVAILABLE

datatype target_member_state = KNOWN_ABSENT | UNKNOWN_TARGET_STATE

section \<open>Constants (core/constants.py)\<close>

definition MIN_INVITE_INTERVAL_SECONDS :: seconds where "MIN_INVITE_INTERVAL_SECONDS = 3"
definition DEFAULT_INVITE_INTERVAL_SECONDS :: seconds where "DEFAULT_INVITE_INTERVAL_SECONDS = 5"
definition MAX_INVITE_INTERVAL_SECONDS :: seconds where "MAX_INVITE_INTERVAL_SECONDS = 10"
definition RECOVERY_INVITE_INTERVAL_SECONDS :: seconds where "RECOVERY_INVITE_INTERVAL_SECONDS = 10"
definition CANDIDATE_PREFETCH_MIN :: nat where "CANDIDATE_PREFETCH_MIN = 100"
definition CANDIDATE_PREFETCH_MAX :: nat where "CANDIDATE_PREFETCH_MAX = 500"
definition MIGRATION_DB_BATCH_SIZE :: nat where "MIGRATION_DB_BATCH_SIZE = 20"
definition MIGRATION_DB_MAX_FLUSH_SECONDS :: seconds where "MIGRATION_DB_MAX_FLUSH_SECONDS = 1"
definition RPC_WATCHDOG_SECONDS :: seconds where "RPC_WATCHDOG_SECONDS = 30"
definition TRANSIENT_RETRY_DELAYS_SECONDS :: "seconds list" where
  "TRANSIENT_RETRY_DELAYS_SECONDS = [1, 2, 4]"
definition SCAN_DB_BATCH_SIZE :: nat where "SCAN_DB_BATCH_SIZE = 250"
definition SCAN_PAGE_LIMIT :: int where "SCAN_PAGE_LIMIT = 200"
definition SCAN_PAGE_QUEUE_MAX :: nat where "SCAN_PAGE_QUEUE_MAX = 4"

lemmas interval_constants =
  MIN_INVITE_INTERVAL_SECONDS_def DEFAULT_INVITE_INTERVAL_SECONDS_def
  MAX_INVITE_INTERVAL_SECONDS_def RECOVERY_INVITE_INTERVAL_SECONDS_def

section \<open>Domain errors (core/errors.py)\<close>

record domain_error =
  de_code :: invite_result_code
  de_text :: string
  de_wait_seconds :: "int option"

text \<open>
  \<open>str(code)\<close> of the string enumeration is its value; it is the exception's text when the
  message is empty, and the \<open>last_error_code\<close> column.
\<close>

fun code_str :: "invite_result_code \<Rightarrow> string" where
  "code_str RATE_LIMIT = ''RATE_LIMIT''"
| "code_str RATE_LIMIT_INDEFINITE = ''RATE_LIMIT_INDEFINITE''"
| "code_str PRIVACY = ''PRIVACY''"
| "code_str ALREADY_MEMBER = ''ALREADY_MEMBER''"
| "code_str NOT_ELIGIBLE = ''NOT_ELIGIBLE''"
| "code_str PERMISSION = ''PERMISSION''"
| "code_str AUTH = ''AUTH''"
| "code_str INVALID_USER = ''INVALID_USER''"
| "code_str NETWORK_TRANSIENT = ''NETWORK_TRANSIENT''"
| "code_str SERVER_TRANSIENT = ''SERVER_TRANSIENT''"
| "code_str UNKNOWN = ''UNKNOWN''"

definition DomainError :: "invite_result_code \<Rightarrow> string \<Rightarrow> int option \<Rightarrow> domain_error" where
  "DomainError code message wait =
     \<lparr>de_code = code, de_text = (if message = [] then code_str code else message),
      de_wait_seconds = wait\<rparr>"

lemma DomainError_simps [simp]:
  "de_code (DomainError c m w) = c"
  "de_wait_seconds (DomainError c m w) = w"
  by (simp_all add: DomainError_def)

section \<open>Clocks (core/clock.py)\<close>

datatype clock_kind = RealClock | FakeClock

record clock =
  clk_kind :: clock_kind
  clk_now :: seconds

definition clock_monotonic :: "clock \<Rightarrow> seconds" where
  "clock_monotonic c = clk_now c"

text \<open>
  \<open>FakeClock.sleep\<close> adds exactly \<open>max(0, seconds)\<close>; \<open>RealClock.sleep\<close> awaits at least as
  long, and \<open>late\<close> is how much later than asked the sleeping task is woken.
\<close>

definition clock_sleep :: "seconds \<Rightarrow> seconds \<Rightarrow> clock \<Rightarrow> clock" where
  "clock_sleep late secs c =
     (case clk_kind c of
        FakeClock \<Rightarrow> c\<lparr>clk_now := clk_now c + max 0 secs\<rparr>
      | RealClock \<Rightarrow> c\<lparr>clk_now := clk_now c + max 0 secs + max 0 late\<rparr>)"

lemma clock_sleep_ge: "clk_now c + secs \<le> clk_now (clock_sleep late secs c)"
  by (cases "clk_kind c") (auto simp: clock_sleep_def)

lemma clock_sleep_mono: "clk_now c \<le> clk_now (clock_sleep late secs c)"
  by (cases "clk_kind c") (auto simp: clock_sleep_def)

section \<open>Terminal states (jobs/state_machine.py)\<close>

definition terminal_states :: "job_state list" where
  "terminal_states = [JS_COMPLETED, JS_COMPLETED_WITH_ERRORS, JS_FAILED, JS_CANCELLED]"

definition is_terminal :: "job_state \<Rightarrow> bool" where
  "is_terminal s = (s \<in> set terminal_states)"

lemma is_terminal_simps [simp]:
  "\<not> is_terminal JS_READY" "\<not> is_terminal JS_PREPARING" "\<not> is_terminal JS_RUNNING"
  "\<not> is_terminal JS_WAITING_SERVER" "\<not> is_terminal JS_PAUSED" "\<not> is_terminal JS_RATE_LIMITED"
  "is_terminal JS_COMPLETED" "is_terminal JS_COMPLETED_WITH_ERRORS" "is_terminal JS_FAILED"
  "is_terminal JS_CANCELLED"
  by (simp_all add: is_terminal_def terminal_states_def)

definition validate_transition :: "job_state \<Rightarrow> job_state \<Rightarrow> unit res" where
  "validate_transition old new =
     (if is_terminal old \<and> new \<noteq> old
      then Inl (ValueError ''Invalid terminal transition'') else Inr ())"

end
