(* ===== verification/Error_Policy.thy ===== *)
theory Error_Policy
  imports Core_Types
begin

text \<open>
  The central error policy: \<open>telegram/error_mapper.py\<close> maps an exception of the Telegram client
  to a \<^const>\<open>DomainError\<close>, \<open>migration/result_classifier.py\<close> maps that to what happens to the
  candidate and to the job.  Both exist twice in the repository, in the V1.2 package
  (\<open>src/src/tms\<close>) and in the V1 tree (\<open>src/telegram\<close>, \<open>src/migration\<close>); the V1 versions carry
  the suffix \<open>_v1\<close>, and the two are compared.
\<close>

section \<open>Exceptions as the mapper sees them\<close>

text \<open>
  What \<open>ErrorMapper.map\<close> reads of an exception: the name of its type, its text, the optional
  integer attributes \<open>seconds\<close> and \<open>value\<close>, and whether it is a \<open>ConnectionError\<close>,
  \<open>TimeoutError\<close> or \<open>OSError\<close>.
\<close>

record py_exc =
  ex_type :: string
  ex_text :: string
  ex_seconds :: "int option"
  ex_value :: "int option"
  ex_oserror :: bool

definition exc_wait :: "py_exc \<Rightarrow> int option" where
  "exc_wait exc = (case ex_seconds exc of Some w \<Rightarrow> Some w | None \<Rightarrow> ex_value exc)"

section \<open>ErrorMapper, V1.2\<close>

definition RATE_LIMIT_NAMES :: "string list" where
  "RATE_LIMIT_NAMES = [''floodwait'', ''floodpremiumwait'', ''slowmodewait'', ''peerflood'', ''flood'']"

definition PRIVACY_NAMES :: "string list" where
  "PRIVACY_NAMES = [''userprivacyrestricted'', ''privacy'']"

definition ALREADY_NAMES :: "string list" where
  "ALREADY_NAMES = [''useralreadyparticipant'', ''already'']"

definition NOT_ELIGIBLE_NAMES :: "string list" where
  "NOT_ELIGIBLE_NAMES =
     [''usernotmutualcontact'', ''userchannelsmuch'', ''userchannelstoomuch'', ''botgroupsblocked'',
      ''botsmuch'', ''botstoomuch'', ''userkicked'']"

definition INVALID_NAMES :: "string list" where
  "INVALID_NAMES =
     [''useridinvalid'', ''inputuserdeactivated'', ''userdeactivated'', ''peeridinvalid'', ''invalid'']"

definition PERMISSION_NAMES :: "string list" where
  "PERMISSION_NAMES =
     [''chatadminrequired'', ''adminrequired'', ''chatwriteforbidden'', ''userbannedinchannel'',
      ''forbidden'']"

definition AUTH_NAMES :: "string list" where
  "AUTH_NAMES =
     [''authkeyunregistered'', ''authkeyduplicated'', ''sessionrevoked'', ''sessionexpired'',
      ''unauthorized'', ''sessionpassword'', ''auth'']"

definition SERVER_NAMES :: "string list" where
  "SERVER_NAMES = [''servererror'', ''rpcmcgetfail'', ''timedout'']"

text \<open>The part of the cascade after the rate-limit test; it is the same text in both versions.\<close>

definition map_other :: "py_exc \<Rightarrow> domain_error" where
  "map_other exc =
     (let name = py_lower (ex_type exc); text = ex_text exc in
      if any_in PRIVACY_NAMES name then DomainError PRIVACY text None
      else if any_in ALREADY_NAMES name then DomainError ALREADY_MEMBER text None
      else if any_in NOT_ELIGIBLE_NAMES name then DomainError NOT_ELIGIBLE text None
      else if any_in PERMISSION_NAMES name then DomainError PERMISSION text None
      else if any_in AUTH_NAMES name then DomainError AUTH text None
      else if any_in INVALID_NAMES name then DomainError INVALID_USER text None
      else if ex_oserror exc then DomainError NETWORK_TRANSIENT text None
      else if any_in SERVER_NAMES name then DomainError SERVER_TRANSIENT text None
      else DomainError UNKNOWN text None)"

definition rate_limited_exc :: "py_exc \<Rightarrow> bool" where
  "rate_limited_exc exc =
     (any_in RATE_LIMIT_NAMES (py_lower (ex_type exc))
      \<or> sublist ''flood_wait'' (py_lower (ex_text exc))
      \<or> sublist ''too many requests'' (py_lower (ex_text exc)))"

definition err_map :: "py_exc \<Rightarrow> domain_error" where
  "err_map exc =
     (if rate_limited_exc exc
      then (case exc_wait exc of
              None \<Rightarrow> DomainError RATE_LIMIT_INDEFINITE (ex_text exc) None
            | Some w \<Rightarrow> if w \<le> 0 then DomainError RATE_LIMIT_INDEFINITE (ex_text exc) None
                        else DomainError RATE_LIMIT (ex_text exc) (Some (max 0 w)))
      else map_other exc)"

section \<open>ErrorMapper, V1\<close>

definition RATE_LIMIT_NAMES_v1 :: "string list" where
  "RATE_LIMIT_NAMES_v1 = [''floodwait'', ''floodpremiumwait'', ''slowmodewait'', ''peerflood'']"

definition rate_limited_exc_v1 :: "py_exc \<Rightarrow> bool" where
  "rate_limited_exc_v1 exc =
     (any_in RATE_LIMIT_NAMES_v1 (py_lower (ex_type exc))
      \<or> sublist ''flood_wait'' (py_lower (ex_text exc)))"

definition err_map_v1 :: "py_exc \<Rightarrow> domain_error" where
  "err_map_v1 exc =
     (if rate_limited_exc_v1 exc
      then (let w = max 0 (case exc_wait exc of None \<Rightarrow> 0 | Some w \<Rightarrow> w);
                w' = (if w = 0 then (if sublist ''peerflood'' (py_lower (ex_type exc)) then 60 else 1)
                      else w)
            in DomainError RATE_LIMIT (ex_text exc) (Some w'))
      else map_other exc)"

section \<open>ResultClassifier, V1.2 and V1\<close>

record classified_result =
  cr_state :: item_state
  cr_retry :: bool
  cr_pause_job :: bool
  cr_wait_seconds :: "int option"

definition ClassifiedResult :: "item_state \<Rightarrow> classified_result" where
  "ClassifiedResult s =
     \<lparr>cr_state = s, cr_retry = False, cr_pause_job = False, cr_wait_seconds = None\<rparr>"

lemma ClassifiedResult_simps [simp]:
  "cr_state (ClassifiedResult s) = s"
  "cr_retry (ClassifiedResult s) = False"
  "cr_pause_job (ClassifiedResult s) = False"
  "cr_wait_seconds (ClassifiedResult s) = None"
  by (simp_all add: ClassifiedResult_def)

definition classify :: "domain_error option \<Rightarrow> classified_result" where
  "classify error =
     (case error of
        None \<Rightarrow> ClassifiedResult IS_SUCCESS
      | Some e \<Rightarrow>
          if de_code e \<in> {ALREADY_MEMBER, PRIVACY, NOT_ELIGIBLE, INVALID_USER}
          then ClassifiedResult IS_SKIPPED
          else if de_code e \<in> {PERMISSION, AUTH, RATE_LIMIT_INDEFINITE}
          then (ClassifiedResult IS_FAILED)\<lparr>cr_pause_job := True\<rparr>
          else if de_code e = RATE_LIMIT
          then (ClassifiedResult IS_RETRY)\<lparr>cr_retry := True, cr_wait_seconds := de_wait_seconds e\<rparr>
          else if de_code e \<in> {NETWORK_TRANSIENT, SERVER_TRANSIENT}
          then (ClassifiedResult IS_RETRY)\<lparr>cr_retry := True\<rparr>
          else ClassifiedResult IS_FAILED)"

definition classify_v1 :: "domain_error option \<Rightarrow> classified_result" where
  "classify_v1 error =
     (case error of
        None \<Rightarrow> ClassifiedResult IS_SUCCESS
      | Some e \<Rightarrow>
          if de_code e = ALREADY_MEMBER then ClassifiedResult IS_SKIPPED
          else if de_code e \<in> {PRIVACY, NOT_ELIGIBLE, INVALID_USER}
          then ClassifiedResult IS_SKIPPED
          else if de_code e \<in> {PERMISSION, AUTH}
          then (ClassifiedResult IS_FAILED)\<lparr>cr_pause_job := True\<rparr>
          else if de_code e = RATE_LIMIT
          then (ClassifiedResult IS_RETRY)
                 \<lparr>cr_retry := True,
                  cr_wait_seconds := Some (case de_wait_seconds e of None \<Rightarrow> 0 | Some w \<Rightarrow> w)\<rparr>
          else if de_code e \<in> {NETWORK_TRANSIENT, SERVER_TRANSIENT}
          then (ClassifiedResult IS_RETRY)\<lparr>cr_retry := True\<rparr>
          else ClassifiedResult IS_FAILED)"

section \<open>Facts about the policy\<close>

lemma map_other_code:
  "de_code (map_other exc) \<noteq> RATE_LIMIT" "de_code (map_other exc) \<noteq> RATE_LIMIT_INDEFINITE"
  by (auto simp: map_other_def Let_def)

lemma map_other_wait [simp]: "de_wait_seconds (map_other exc) = None"
  by (auto simp: map_other_def Let_def)

lemma rate_v1_imp_rate: "rate_limited_exc_v1 exc \<Longrightarrow> rate_limited_exc exc"
  by (auto simp: rate_limited_exc_v1_def rate_limited_exc_def any_in_def
      RATE_LIMIT_NAMES_def RATE_LIMIT_NAMES_v1_def)

lemma err_map_code_iff:
  "de_code (err_map exc) = RATE_LIMIT \<longleftrightarrow>
     rate_limited_exc exc \<and> (\<exists>w. exc_wait exc = Some w \<and> 0 < w)"
  "de_code (err_map exc) = RATE_LIMIT_INDEFINITE \<longleftrightarrow>
     rate_limited_exc exc \<and> (\<forall>w. exc_wait exc = Some w \<longrightarrow> w \<le> 0)"
  by (auto simp: err_map_def map_other_code split: option.splits)

lemma err_map_wait:
  "de_code (err_map exc) = RATE_LIMIT \<Longrightarrow>
     de_wait_seconds (err_map exc) = exc_wait exc \<and> (\<exists>w > 0. exc_wait exc = Some w)"
  by (auto simp: err_map_def map_other_code split: option.splits if_splits)

text \<open>The watchdog's own exception is a transient network error.\<close>

definition watchdog_timeout :: py_exc where
  "watchdog_timeout =
     \<lparr>ex_type = ''TimeoutError'', ex_text = [], ex_seconds = None, ex_value = None,
      ex_oserror = True\<rparr>"

lemmas name_tables =
  RATE_LIMIT_NAMES_def PRIVACY_NAMES_def ALREADY_NAMES_def NOT_ELIGIBLE_NAMES_def
  INVALID_NAMES_def PERMISSION_NAMES_def AUTH_NAMES_def SERVER_NAMES_def RATE_LIMIT_NAMES_v1_def

lemma py_lower_TimeoutError: "py_lower ''TimeoutError'' = ''timeouterror''"
  by code_simp

lemma err_map_watchdog: "de_code (err_map watchdog_timeout) = NETWORK_TRANSIENT"
  by (simp add: err_map_def rate_limited_exc_def map_other_def watchdog_timeout_def
      py_lower_TimeoutError any_in_def name_tables sublist_code Let_def)

definition limited_for :: "int \<Rightarrow> domain_error \<Rightarrow> bool" where
  "limited_for w e \<longleftrightarrow>
     de_code e = RATE_LIMIT \<and> de_wait_seconds e = Some w \<and> cr_wait_seconds (classify (Some e)) = Some w \<and>
     cr_retry (classify (Some e)) \<and> \<not> cr_pause_job (classify (Some e))"

definition limited_indefinitely :: "domain_error \<Rightarrow> bool" where
  "limited_indefinitely e \<longleftrightarrow>
     de_code e = RATE_LIMIT_INDEFINITE \<and> \<not> cr_retry (classify (Some e)) \<and> cr_pause_job (classify (Some e))"

text \<open>
  C12. Whatever exception the Telegram client raises: a rate limit that carries a positive duration is
  reported as such and retried after exactly that duration; a rate limit without one is reported as
  indefinite, which pauses the job and is never retried; and no other exception is taken for a rate
  limit.
\<close>

theorem rate_limit_policy:
  "if rate_limited_exc exc
   then (case exc_wait exc of
           Some w \<Rightarrow> if 0 < w then limited_for w (err_map exc) else limited_indefinitely (err_map exc)
         | None \<Rightarrow> limited_indefinitely (err_map exc))
   else de_code (err_map exc) \<notin> {RATE_LIMIT, RATE_LIMIT_INDEFINITE}"
proof (cases "rate_limited_exc exc")
  case True
  then show ?thesis
    by (auto simp: err_map_def classify_def limited_for_def limited_indefinitely_def split: option.split)
next
  case False
  then show ?thesis using map_other_code [of exc] by (simp add: err_map_def)
qed

definition flood_wait_exc :: "int option \<Rightarrow> py_exc" where
  "flood_wait_exc w =
     \<lparr>ex_type = ''FloodWaitError'', ex_text = ''A wait is required'', ex_seconds = w, ex_value = None,
      ex_oserror = False\<rparr>"

lemma py_lower_FloodWaitError: "py_lower ''FloodWaitError'' = ''floodwaiterror''"
  by code_simp

lemma flood_wait_exc_rate [simp]:
  "rate_limited_exc (flood_wait_exc w)" "rate_limited_exc_v1 (flood_wait_exc w)"
  "exc_wait (flood_wait_exc w) = w"
  by (simp_all add: rate_limited_exc_def rate_limited_exc_v1_def flood_wait_exc_def any_in_def
      name_tables py_lower_FloodWaitError sublist_code exc_wait_def split: option.splits)

lemma flood_wait_exc_code: "de_code (err_map (flood_wait_exc (Some 17))) = RATE_LIMIT"
  by (simp add: err_map_code_iff)

theorem rate_limit_policy_witness:
  "limited_for 17 (err_map (flood_wait_exc (Some 17))) \<and> limited_indefinitely (err_map (flood_wait_exc None)) \<and>
   limited_indefinitely (err_map (flood_wait_exc (Some 0)))"
  using rate_limit_policy [of "flood_wait_exc (Some 17)"] rate_limit_policy [of "flood_wait_exc None"]
    rate_limit_policy [of "flood_wait_exc (Some 0)"]
  by simp

text \<open>
  C30. The V1 and V1.2 policies agree on every exception that neither treats as a rate limit
  without a duration: the composed decision (item state, retry, pause) is the same.  Where V1
  recognises a rate limit that carries no positive duration it retries after an invented wait,
  V1.2 pauses the job.
\<close>

theorem policy_v1_v12_agreement:
  "(\<not> rate_limited_exc exc \<longrightarrow> classify (Some (err_map exc)) = classify_v1 (Some (err_map_v1 exc))) \<and>
   (rate_limited_exc_v1 exc \<and> exc_wait exc = Some w \<and> 0 < w \<longrightarrow>
      classify (Some (err_map exc)) = classify_v1 (Some (err_map_v1 exc))) \<and>
   (rate_limited_exc_v1 exc \<and> exc_wait exc = None \<longrightarrow>
      cr_retry (classify_v1 (Some (err_map_v1 exc))) \<and>
      cr_wait_seconds (classify_v1 (Some (err_map_v1 exc))) \<in> {Some 1, Some 60} \<and>
      cr_pause_job (classify (Some (err_map exc))))"
proof (intro conjI impI)
  assume "\<not> rate_limited_exc exc"
  then have "\<not> rate_limited_exc_v1 exc" using rate_v1_imp_rate by blast
  with \<open>\<not> rate_limited_exc exc\<close>
  show "classify (Some (err_map exc)) = classify_v1 (Some (err_map_v1 exc))"
    by (auto simp: err_map_def err_map_v1_def classify_def classify_v1_def map_other_code)
next
  assume a: "rate_limited_exc_v1 exc \<and> exc_wait exc = Some w \<and> 0 < w"
  then have "rate_limited_exc exc" by (simp add: rate_v1_imp_rate)
  with a show "classify (Some (err_map exc)) = classify_v1 (Some (err_map_v1 exc))"
    by (simp add: err_map_def err_map_v1_def classify_def classify_v1_def)
next
  assume a: "rate_limited_exc_v1 exc \<and> exc_wait exc = None"
  then have r: "rate_limited_exc exc" by (simp add: rate_v1_imp_rate)
  show "cr_retry (classify_v1 (Some (err_map_v1 exc)))"
    using a by (simp add: err_map_v1_def classify_v1_def)
  show "cr_wait_seconds (classify_v1 (Some (err_map_v1 exc))) \<in> {Some 1, Some 60}"
    using a by (simp add: err_map_v1_def classify_v1_def)
  show "cr_pause_job (classify (Some (err_map exc)))"
    using a r by (simp add: err_map_def classify_def)
qed

theorem policy_v1_v12_agreement_witness:
  "classify (Some (err_map (flood_wait_exc (Some 17)))) =
     classify_v1 (Some (err_map_v1 (flood_wait_exc (Some 17)))) \<and>
   cr_pause_job (classify (Some (err_map (flood_wait_exc None)))) \<and>
   cr_retry (classify_v1 (Some (err_map_v1 (flood_wait_exc None))))"
  using policy_v1_v12_agreement [of "flood_wait_exc (Some 17)" 17]
    policy_v1_v12_agreement [of "flood_wait_exc None" 0]
  by simp

end
