(* ===== verification/Scheduler.thy ===== *)
theory Scheduler
  imports Core_Types
begin

text \<open>
  \<open>migration/scheduler.py\<close>: the invite scheduler of V1.2 (recovery ramp) and of V1 (suffix
  \<open>_v1\<close>).  The scheduler owns the clock, as in the source.  The locale \<open>pacer\<close> is the contract the
  executor relies on: sleeping for the remaining delay and then marking an attempt keeps the local
  cadence and the server gate; both schedulers are instances of it.
\<close>

section \<open>InviteScheduler, V1.2\<close>

record scheduler =
  sc_interval :: seconds
  sc_target_interval :: seconds
  sc_clock :: clock
  sc_last_attempt :: "seconds option"
  sc_server_wait_until :: seconds
  sc_recovery_steps :: "seconds list"

definition valid_interval :: "seconds \<Rightarrow> bool" where
  "valid_interval s = (MIN_INVITE_INTERVAL_SECONDS \<le> s \<and> s \<le> MAX_INVITE_INTERVAL_SECONDS)"

definition InviteScheduler :: "seconds \<Rightarrow> clock \<Rightarrow> scheduler res" where
  "InviteScheduler interval_seconds clk =
     (if \<not> valid_interval interval_seconds
      then Inl (ValueError ''Invite interval must be between 3 and 10 seconds'')
      else Inr \<lparr>sc_interval = interval_seconds, sc_target_interval = interval_seconds,
                sc_clock = clk, sc_last_attempt = None, sc_server_wait_until = 0,
                sc_recovery_steps = []\<rparr>)"

abbreviation sc_now :: "scheduler \<Rightarrow> seconds" where
  "sc_now s \<equiv> clock_monotonic (sc_clock s)"

definition apply_server_wait :: "seconds \<Rightarrow> scheduler \<Rightarrow> scheduler" where
  "apply_server_wait secs s =
     s\<lparr>sc_server_wait_until := max (sc_server_wait_until s) (sc_now s + max 0 secs),
       sc_recovery_steps := [RECOVERY_INVITE_INTERVAL_SECONDS, 8, sc_target_interval s]\<rparr>"

definition server_wait_remaining :: "scheduler \<Rightarrow> seconds" where
  "server_wait_remaining s = max 0 (sc_server_wait_until s - sc_now s)"

definition remaining_delay :: "scheduler \<Rightarrow> seconds" where
  "remaining_delay s =
     (let now = sc_now s;
          local_next = (case sc_last_attempt s of Some t \<Rightarrow> t + sc_interval s | None \<Rightarrow> now)
      in max 0 (max local_next (sc_server_wait_until s) - now))"

definition sched_sleep :: "seconds \<Rightarrow> seconds \<Rightarrow> scheduler \<Rightarrow> scheduler" where
  "sched_sleep late secs s = s\<lparr>sc_clock := clock_sleep late secs (sc_clock s)\<rparr>"

definition wait_before_next :: "seconds \<Rightarrow> scheduler \<Rightarrow> scheduler" where
  "wait_before_next late s = sched_sleep late (remaining_delay s) s"

definition mark_attempt :: "scheduler \<Rightarrow> scheduler" where
  "mark_attempt s = s\<lparr>sc_last_attempt := Some (sc_now s)\<rparr>"

definition mark_stable_candidate :: "scheduler \<Rightarrow> scheduler" where
  "mark_stable_candidate s =
     (if server_wait_remaining s > 0 \<or> sc_recovery_steps s = [] then s
      else s\<lparr>sc_interval := hd (sc_recovery_steps s),
             sc_recovery_steps := tl (sc_recovery_steps s)\<rparr>)"

definition reset_target :: "seconds \<Rightarrow> scheduler \<Rightarrow> scheduler res" where
  "reset_target secs s =
     (if \<not> valid_interval secs
      then Inl (ValueError ''Invite interval must be between 3 and 10 seconds'')
      else Inr (let s' = s\<lparr>sc_target_interval := secs\<rparr> in
                if sc_recovery_steps s' = [] then s'\<lparr>sc_interval := secs\<rparr> else s'))"

section \<open>InviteScheduler, V1\<close>

record scheduler_v1 =
  s1_interval :: seconds
  s1_clock :: clock
  s1_last_attempt :: "seconds option"
  s1_server_wait_until :: seconds

text \<open>The constants module of the V1 tree is not part of the sources: its two bounds are arguments.\<close>

definition InviteScheduler_v1 :: "seconds \<Rightarrow> seconds \<Rightarrow> seconds \<Rightarrow> clock \<Rightarrow> scheduler_v1 res" where
  "InviteScheduler_v1 lo hi interval_seconds clk =
     (if \<not> (lo \<le> interval_seconds \<and> interval_seconds \<le> hi)
      then Inl (ValueError ''Invite interval must be between 3 and 8 seconds'')
      else Inr \<lparr>s1_interval = interval_seconds, s1_clock = clk, s1_last_attempt = None,
                s1_server_wait_until = 0\<rparr>)"

definition apply_server_wait_v1 :: "seconds \<Rightarrow> scheduler_v1 \<Rightarrow> scheduler_v1" where
  "apply_server_wait_v1 secs s =
     s\<lparr>s1_server_wait_until :=
          max (s1_server_wait_until s) (clock_monotonic (s1_clock s) + max 0 secs)\<rparr>"

definition server_wait_remaining_v1 :: "scheduler_v1 \<Rightarrow> seconds" where
  "server_wait_remaining_v1 s = max 0 (s1_server_wait_until s - clock_monotonic (s1_clock s))"

definition remaining_delay_v1 :: "scheduler_v1 \<Rightarrow> seconds" where
  "remaining_delay_v1 s =
     (let now = clock_monotonic (s1_clock s);
          local_next = (case s1_last_attempt s of Some t \<Rightarrow> t + s1_interval s | None \<Rightarrow> now)
      in max 0 (max local_next (s1_server_wait_until s) - now))"

definition wait_before_next_v1 :: "seconds \<Rightarrow> scheduler_v1 \<Rightarrow> scheduler_v1" where
  "wait_before_next_v1 late s =
     s\<lparr>s1_clock := clock_sleep late (remaining_delay_v1 s) (s1_clock s)\<rparr>"

definition mark_attempt_v1 :: "scheduler_v1 \<Rightarrow> scheduler_v1" where
  "mark_attempt_v1 s = s\<lparr>s1_last_attempt := Some (clock_monotonic (s1_clock s))\<rparr>"

section \<open>The pacing contract\<close>

text \<open>
  What a client of a scheduler relies on: the remaining delay covers both the local cadence and
  the server gate, sleeping moves the clock by at least the time asked for and nothing else, and
  marking an attempt records the current time.
\<close>

locale pacer =
  fixes now :: "'s \<Rightarrow> seconds"
    and interval :: "'s \<Rightarrow> seconds"
    and last :: "'s \<Rightarrow> seconds option"
    and gate :: "'s \<Rightarrow> seconds"
    and remaining :: "'s \<Rightarrow> seconds"
    and wait :: "seconds \<Rightarrow> 's \<Rightarrow> 's"
    and mark :: "'s \<Rightarrow> 's"
  assumes remaining_gate: "gate s \<le> now s + remaining s"
    and remaining_cadence: "last s = Some t \<Longrightarrow> t + interval s \<le> now s + remaining s"
    and wait_now: "now s + remaining s \<le> now (wait late s)"
    and wait_frame: "interval (wait late s) = interval s" "last (wait late s) = last s"
      "gate (wait late s) = gate s"
    and mark_last: "last (mark s) = Some (now s)"
    and mark_frame: "now (mark s) = now s" "interval (mark s) = interval s" "gate (mark s) = gate s"
begin

lemma attempt_after_gate: "last (mark (wait late s)) = Some t \<Longrightarrow> gate s \<le> t"
  using remaining_gate [of s] wait_now [of s late] by (simp add: mark_last)

lemma attempt_after_cadence:
  "last s = Some t \<Longrightarrow> last (mark (wait late s)) = Some t' \<Longrightarrow> t + interval s \<le> t'"
  using remaining_cadence [of s t] wait_now [of s late] by (simp add: mark_last)

text \<open>The times of a run of attempts, each preceded by its wait.\<close>

fun attempt_times :: "seconds list \<Rightarrow> 's \<Rightarrow> seconds list" where
  "attempt_times [] s = []"
| "attempt_times (late # ls) s = now (wait late s) # attempt_times ls (mark (wait late s))"

lemma attempt_times_ge:
  "last s = Some t0 \<Longrightarrow> 0 \<le> interval s \<Longrightarrow> t \<in> set (attempt_times ls s) \<Longrightarrow> t0 + interval s \<le> t"
proof (induction ls arbitrary: s t0)
  case (Cons late ls)
  let ?s' = "mark (wait late s)"
  have l: "last ?s' = Some (now (wait late s))" by (simp add: mark_last)
  have i: "interval ?s' = interval s" by (simp add: mark_frame wait_frame)
  have first: "t0 + interval s \<le> now (wait late s)"
    using attempt_after_cadence [OF Cons.prems(1)] l by blast
  show ?case
  proof (cases "t = now (wait late s)")
    case True
    with first show ?thesis by simp
  next
    case False
    with Cons.prems(3) have "t \<in> set (attempt_times ls ?s')" by simp
    then have "now (wait late s) + interval s \<le> t"
      using Cons.IH [OF l] Cons.prems(2) i by simp
    with first Cons.prems(2) show ?thesis by linarith
  qed
qed simp

lemma attempt_times_spaced:
  "0 \<le> interval s \<Longrightarrow> sorted_wrt (\<lambda>a b. a + interval s \<le> b) (attempt_times ls s)"
proof (induction ls arbitrary: s)
  case (Cons late ls)
  let ?s' = "mark (wait late s)"
  have l: "last ?s' = Some (now (wait late s))" by (simp add: mark_last)
  have i: "interval ?s' = interval s" by (simp add: mark_frame wait_frame)
  have "\<forall>t \<in> set (attempt_times ls ?s'). now (wait late s) + interval s \<le> t"
    using attempt_times_ge [OF l] Cons.prems i by simp
  moreover have "sorted_wrt (\<lambda>a b. a + interval s \<le> b) (attempt_times ls ?s')"
    using Cons.IH [of ?s'] Cons.prems i by simp
  ultimately show ?case by simp
qed simp

lemma attempt_times_after_gate: "t \<in> set (attempt_times ls s) \<Longrightarrow> gate s \<le> t"
proof (induction ls arbitrary: s)
  case (Cons late ls)
  then show ?case
    using attempt_after_gate [of late s] Cons.IH [of "mark (wait late s)"]
    by (auto simp: mark_last mark_frame wait_frame)
qed simp

end

lemma remaining_delay_bounds:
  "0 \<le> remaining_delay s"
  "sc_server_wait_until s \<le> sc_now s + remaining_delay s"
  "sc_last_attempt s = Some t \<Longrightarrow> t + sc_interval s \<le> sc_now s + remaining_delay s"
  by (auto simp: remaining_delay_def Let_def split: option.splits)

lemma remaining_delay_v1_bounds:
  "s1_server_wait_until s \<le> clock_monotonic (s1_clock s) + remaining_delay_v1 s"
  "s1_last_attempt s = Some t \<Longrightarrow>
     t + s1_interval s \<le> clock_monotonic (s1_clock s) + remaining_delay_v1 s"
  by (auto simp: remaining_delay_v1_def Let_def split: option.splits)

interpretation v12_pacer: pacer sc_now sc_interval sc_last_attempt sc_server_wait_until
  remaining_delay wait_before_next mark_attempt
  by unfold_locales
    (auto simp: remaining_delay_bounds [unfolded clock_monotonic_def] wait_before_next_def sched_sleep_def mark_attempt_def
      clock_monotonic_def clock_sleep_ge)

interpretation v1_pacer: pacer "\<lambda>s. clock_monotonic (s1_clock s)" s1_interval s1_last_attempt
  s1_server_wait_until remaining_delay_v1 wait_before_next_v1 mark_attempt_v1
  by unfold_locales
    (auto simp: remaining_delay_v1_bounds [unfolded clock_monotonic_def] wait_before_next_v1_def mark_attempt_v1_def
      clock_monotonic_def clock_sleep_ge)

section \<open>Every reachable scheduler\<close>

inductive sched_step :: "scheduler \<Rightarrow> scheduler \<Rightarrow> bool" where
  server_wait: "sched_step s (apply_server_wait secs s)"
| sleep: "sched_step s (sched_sleep late secs s)"
| attempt: "sched_step s (mark_attempt s)"
| stable: "sched_step s (mark_stable_candidate s)"
| retarget: "reset_target secs s = Inr s' \<Longrightarrow> sched_step s s'"

inductive sched_reachable :: "scheduler \<Rightarrow> bool" where
  create: "InviteScheduler secs clk = Inr s \<Longrightarrow> sched_reachable s"
| step: "sched_reachable s \<Longrightarrow> sched_step s s' \<Longrightarrow> sched_reachable s'"

definition sched_inv :: "scheduler \<Rightarrow> bool" where
  "sched_inv s =
     (valid_interval (sc_interval s) \<and> valid_interval (sc_target_interval s) \<and>
      list_all valid_interval (sc_recovery_steps s) \<and> length (sc_recovery_steps s) \<le> 3)"

lemma valid_interval_consts [simp]:
  "valid_interval RECOVERY_INVITE_INTERVAL_SECONDS" "valid_interval 8"
  by (simp_all add: valid_interval_def interval_constants)

lemma sched_step_inv: "sched_step s s' \<Longrightarrow> sched_inv s \<Longrightarrow> sched_inv s'"
proof (induction rule: sched_step.induct)
  case (stable s)
  then show ?case
    by (cases "sc_recovery_steps s") (auto simp: sched_inv_def mark_stable_candidate_def)
next
  case (retarget secs s s')
  then show ?case
    by (auto simp: sched_inv_def reset_target_def Let_def split: if_splits)
qed (auto simp: sched_inv_def apply_server_wait_def sched_sleep_def mark_attempt_def)

lemma sched_reachable_inv: "sched_reachable s \<Longrightarrow> sched_inv s"
proof (induction rule: sched_reachable.induct)
  case (create secs clk s)
  then show ?case by (auto simp: InviteScheduler_def sched_inv_def split: if_splits)
next
  case (step s s')
  then show ?case by (blast intro: sched_step_inv)
qed

text \<open>
  C31. In every state a scheduler can reach, the cadence it applies and the one it returns to stay
  between three and ten seconds, whatever the server waits, the recovery steps and the user's
  changes of the target.
\<close>

theorem scheduler_interval_bounds:
  assumes "sched_reachable s"
  shows "3 \<le> sc_interval s \<and> sc_interval s \<le> 10 \<and> 3 \<le> sc_target_interval s \<and>
         sc_target_interval s \<le> 10"
  using sched_reachable_inv [OF assms]
  by (simp add: sched_inv_def valid_interval_def interval_constants)

definition demo_clock :: clock where
  "demo_clock = \<lparr>clk_kind = FakeClock, clk_now = 0\<rparr>"

definition demo_scheduler :: scheduler where
  "demo_scheduler =
     \<lparr>sc_interval = 5, sc_target_interval = 5, sc_clock = demo_clock, sc_last_attempt = None,
      sc_server_wait_until = 0, sc_recovery_steps = []\<rparr>"

lemma demo_scheduler_created: "InviteScheduler 5 demo_clock = Inr demo_scheduler"
  by (simp add: InviteScheduler_def demo_scheduler_def valid_interval_def interval_constants)

theorem scheduler_interval_bounds_witness:
  "3 \<le> sc_interval (mark_stable_candidate (apply_server_wait 0 demo_scheduler)) \<and>
   sc_interval (mark_stable_candidate (apply_server_wait 0 demo_scheduler)) = 10"
proof -
  have "sched_reachable (mark_stable_candidate (apply_server_wait 0 demo_scheduler))"
    by (intro sched_reachable.step [OF _ sched_step.stable] sched_reachable.step [OF _ sched_step.server_wait]
        sched_reachable.create [OF demo_scheduler_created])
  from scheduler_interval_bounds [OF this] show ?thesis
    by (simp add: mark_stable_candidate_def apply_server_wait_def demo_scheduler_def demo_clock_def
        server_wait_remaining_def clock_monotonic_def interval_constants)
qed

text \<open>The attempt times of the V1.2 scheduler: a wait, then the mark, for each candidate.\<close>

fun sched_attempts :: "seconds list \<Rightarrow> scheduler \<Rightarrow> seconds list" where
  "sched_attempts [] s = []"
| "sched_attempts (late # lates) s =
     sc_now (wait_before_next late s) # sched_attempts lates (mark_attempt (wait_before_next late s))"

lemma sched_attempts_pacer: "sched_attempts lates s = v12_pacer.attempt_times lates s"
  by (induction lates s rule: sched_attempts.induct) auto

text \<open>
  An attempt made after \<open>wait_before_next\<close> is never earlier than the server's deadline and
  never earlier than one interval after the previous attempt, and a run of such attempts is spaced
  by the interval throughout.
\<close>

theorem attempts_respect_cadence_and_gate:
  assumes "0 \<le> sc_interval s"
  shows "sorted_wrt (\<lambda>a b. a + sc_interval s \<le> b) (sched_attempts lates s) \<and>
         (\<forall>t \<in> set (sched_attempts lates s).
            sc_server_wait_until s \<le> t \<and>
            (\<forall>t0. sc_last_attempt s = Some t0 \<longrightarrow> t0 + sc_interval s \<le> t))"
  using v12_pacer.attempt_times_spaced [OF assms] v12_pacer.attempt_times_after_gate
    v12_pacer.attempt_times_ge [OF _ assms]
  by (simp add: sched_attempts_pacer)

theorem attempts_respect_cadence_and_gate_witness:
  "sched_attempts [0, 0, 0] (apply_server_wait 7 demo_scheduler) = [7, 12, 17] \<and>
   sorted_wrt (\<lambda>a b. a + 5 \<le> b) (sched_attempts [0, 0, 0] (apply_server_wait 7 demo_scheduler))"
  using attempts_respect_cadence_and_gate [of "apply_server_wait 7 demo_scheduler" "[0, 0, 0]"]
  by (simp add: wait_before_next_def sched_sleep_def remaining_delay_def mark_attempt_def
      apply_server_wait_def demo_scheduler_def demo_clock_def clock_monotonic_def clock_sleep_def)

section \<open>Recovery\<close>

lemma mark_stable_pop:
  "server_wait_remaining s = 0 \<Longrightarrow> sc_recovery_steps s = i # is \<Longrightarrow>
     mark_stable_candidate s = s\<lparr>sc_interval := i, sc_recovery_steps := is\<rparr>"
  by (simp add: mark_stable_candidate_def)

lemma server_wait_remaining_frame [simp]:
  "server_wait_remaining (s\<lparr>sc_interval := i\<rparr>) = server_wait_remaining s"
  "server_wait_remaining (s\<lparr>sc_recovery_steps := r\<rparr>) = server_wait_remaining s"
  by (simp_all add: server_wait_remaining_def)

lemma mark_stable_done [simp]:
  "sc_recovery_steps s = [] \<Longrightarrow> mark_stable_candidate s = s"
  by (simp add: mark_stable_candidate_def)

text \<open>
  After a server wait has passed, the cadence recovers along the ramp ten seconds, eight
  seconds, user target, one step per stable candidate, and stays at the target from the third
  stable candidate on.
\<close>

theorem recovery_ramp:
  assumes "server_wait_remaining s = 0"
    and "sc_recovery_steps s = sc_recovery_steps (apply_server_wait w s0)"
    and "sc_target_interval s = sc_target_interval s0"
  shows "sc_interval (mark_stable_candidate s) = 10 \<and>
         sc_interval ((mark_stable_candidate ^^ 2) s) = 8 \<and>
         sc_interval ((mark_stable_candidate ^^ (n + 3)) s) = sc_target_interval s"
proof -
  have r: "sc_recovery_steps s = [10, 8, sc_target_interval s]"
    using assms by (simp add: apply_server_wait_def interval_constants)
  have one: "mark_stable_candidate s = s\<lparr>sc_interval := 10, sc_recovery_steps := [8, sc_target_interval s]\<rparr>"
    using mark_stable_pop [OF assms(1) r] .
  have two: "mark_stable_candidate (mark_stable_candidate s) =
      s\<lparr>sc_interval := 8, sc_recovery_steps := [sc_target_interval s]\<rparr>"
    unfolding one using assms(1) by (subst mark_stable_pop) auto
  have three: "mark_stable_candidate (mark_stable_candidate (mark_stable_candidate s)) =
      s\<lparr>sc_interval := sc_target_interval s, sc_recovery_steps := []\<rparr>"
    unfolding two using assms(1) by (subst mark_stable_pop) auto
  have stay: "(mark_stable_candidate ^^ n) t = t" if "sc_recovery_steps t = []" for t
    using that by (induction n) auto
  have "(mark_stable_candidate ^^ (n + 3)) s =
      (mark_stable_candidate ^^ n) ((mark_stable_candidate ^^ 3) s)"
    by (simp add: funpow_add)
  also have "\<dots> = s\<lparr>sc_interval := sc_target_interval s, sc_recovery_steps := []\<rparr>"
    by (simp add: numeral_3_eq_3 three stay)
  finally have "sc_interval ((mark_stable_candidate ^^ (n + 3)) s) = sc_target_interval s"
    by simp
  moreover have "sc_interval ((mark_stable_candidate ^^ 2) s) = 8"
    by (simp add: numeral_2_eq_2 two)
  ultimately show ?thesis by (simp add: one)
qed

theorem recovery_ramp_witness:
  "sc_interval ((mark_stable_candidate ^^ 2) (sched_sleep 0 17 (apply_server_wait 17 demo_scheduler))) = 8 \<and>
   sc_interval ((mark_stable_candidate ^^ 3) (sched_sleep 0 17 (apply_server_wait 17 demo_scheduler))) = 5"
  using recovery_ramp [of "sched_sleep 0 17 (apply_server_wait 17 demo_scheduler)" 17 demo_scheduler 0]
  by (simp add: server_wait_remaining_def sched_sleep_def apply_server_wait_def demo_scheduler_def
      demo_clock_def clock_monotonic_def clock_sleep_def)

section \<open>V1 and V1.2\<close>

text \<open>The V1 view of a V1.2 scheduler: the recovery ramp forgotten.\<close>

definition sched_abs :: "scheduler \<Rightarrow> scheduler_v1" where
  "sched_abs s =
     \<lparr>s1_interval = sc_interval s, s1_clock = sc_clock s, s1_last_attempt = sc_last_attempt s,
      s1_server_wait_until = sc_server_wait_until s\<rparr>"

text \<open>
  The V1.2 scheduler refines the V1 scheduler: every operation both have commutes with the forgetful
  abstraction, and the delays they report are equal.
\<close>

lemma scheduler_refines_v1:
  "sched_abs (apply_server_wait secs s) = apply_server_wait_v1 secs (sched_abs s)"
  "sched_abs (wait_before_next late s) = wait_before_next_v1 late (sched_abs s)"
  "sched_abs (mark_attempt s) = mark_attempt_v1 (sched_abs s)"
  "remaining_delay s = remaining_delay_v1 (sched_abs s)"
  "server_wait_remaining s = server_wait_remaining_v1 (sched_abs s)"
  by (simp_all add: sched_abs_def apply_server_wait_def apply_server_wait_v1_def wait_before_next_def
      wait_before_next_v1_def sched_sleep_def mark_attempt_def mark_attempt_v1_def
      remaining_delay_def remaining_delay_v1_def server_wait_remaining_def
      server_wait_remaining_v1_def Let_def split: option.splits)

end
