(* ===== verification/Storage.thy ===== *)
theory Storage
  imports Core_Types
begin

text \<open>
  The SQLite database of \<open>storage/schema.sql\<close> as the repositories see it: one record field per
  table, rows in rowid order, the AUTOINCREMENT counters, and the constraints of the schema (with
  \<open>PRAGMA foreign_keys=ON\<close>, \<open>storage/pragmas.py\<close>) as checks of the statements that can violate
  them.  A write operation is a function from the database to an error or a result with the new
  database: the error leaves the database as it was, which is what the rollback of the writer does.

  The invariant \<open>db_wf\<close> says that every key is unique and every reference resolves; each statement
  below that can succeed keeps it.  The columns \<open>created_at\<close>, \<open>updated_at\<close>, \<open>collected_at\<close>,
  \<open>cached_at\<close>, \<open>first_seen_at\<close>, \<open>last_seen_at\<close> and \<open>last_known_member_count\<close> are left out:
  the program writes them and never reads them.
\<close>

section \<open>Column types\<close>

text \<open>
  Texts of the \<open>waiting_until\<close> column, by how \<open>datetime.fromisoformat\<close> reads them: an aware UTC
  instant or a naive one (in microseconds), or a text that is no ISO date.  Their order is the one
  of the texts: \<open>isoformat\<close> of UTC instants sorts by time, the naive text of an instant is a
  prefix of the aware one, and the texts that are no dates, which the program never writes, are taken
  together as one value above all dates.
\<close>

datatype iso_text = IsoUtc int | IsoNaive int | NotIso

fun iso_key :: "iso_text \<Rightarrow> int option" where
  "iso_key (IsoUtc t) = Some (2 * t + 1)"
| "iso_key (IsoNaive t) = Some (2 * t)"
| "iso_key NotIso = None"

lemma iso_key_inj: "iso_key a = iso_key b \<Longrightarrow> a = b"
  by (cases a; cases b) (auto; presburger)+

instantiation iso_text :: linorder
begin

definition less_eq_iso_text :: "iso_text \<Rightarrow> iso_text \<Rightarrow> bool" where
  "less_eq_iso_text a b =
     (case iso_key b of None \<Rightarrow> True | Some y \<Rightarrow> (case iso_key a of None \<Rightarrow> False | Some x \<Rightarrow> x \<le> y))"

definition less_iso_text :: "iso_text \<Rightarrow> iso_text \<Rightarrow> bool" where
  "less_iso_text a b = (a \<le> b \<and> \<not> b \<le> a)"

instance
proof
  fix a b c :: iso_text
  show "(a < b) = (a \<le> b \<and> \<not> b \<le> a)" by (simp add: less_iso_text_def)
  show "a \<le> a" by (auto simp: less_eq_iso_text_def split: option.splits)
  show "a \<le> b \<Longrightarrow> b \<le> c \<Longrightarrow> a \<le> c"
    by (auto simp: less_eq_iso_text_def split: option.splits)
  show "a \<le> b \<Longrightarrow> b \<le> a \<Longrightarrow> a = b"
    by (rule iso_key_inj) (auto simp: less_eq_iso_text_def split: option.splits)
  show "a \<le> b \<or> b \<le> a"
    by (auto simp: less_eq_iso_text_def split: option.splits)
qed

end

lemma iso_text_le [simp]: "IsoUtc a \<le> IsoUtc b \<longleftrightarrow> a \<le> b"
  by (simp add: less_eq_iso_text_def)

text \<open>JSON values of a checkpoint, and the text of the \<open>checkpoint_json\<close> column.\<close>

datatype json = JInt int | JStr string | JBool bool

type_synonym checkpoint = "(string \<times> json) list"

datatype ckpt_text = CkptJson checkpoint | CkptBad string

section \<open>Rows (storage/schema.sql)\<close>

record account_row =
  a_id :: int
  a_phone :: string
  a_telegram_user_id :: "int option"
  a_username :: "string option"
  a_display_name :: "string option"
  a_session_path :: string
  a_status :: account_state
  a_enabled :: bool
  a_last_connected_at :: "string option"
  a_last_error :: "string option"
  a_connection_state :: connection_state
  a_operation_state :: operation_state

record peer_row =
  p_account_id :: int
  p_peer_id :: int
  p_peer_type :: string
  p_access_hash :: "int option"
  p_username :: "string option"
  p_title :: "string option"

record group_row =
  g_id :: int
  g_telegram_peer_id :: int
  g_type :: string
  g_username :: "string option"
  g_title :: string

record member_row =
  m_id :: int
  m_telegram_user_id :: "int option"
  m_username :: "string option"
  m_first_name :: "string option"
  m_last_name :: "string option"
  m_phone :: "string option"
  m_bot :: bool
  m_deleted :: bool
  m_activity_status :: "string option"
  m_last_seen :: "string option"

record dataset_row =
  d_id :: int
  d_name :: string
  d_source_type :: string
  d_source_reference :: "string option"
  d_status :: string
  d_member_count :: int

record dataset_member_row =
  dm_dataset_id :: int
  dm_member_id :: int
  dm_source_group_id :: "int option"

record provenance_row =
  dp_dataset_id :: int
  dp_member_id :: int
  dp_source_dataset_id :: "int option"
  dp_source_group_id :: "int option"
  dp_source_label :: "string option"

record job_row =
  j_id :: int
  j_job_type :: job_type
  j_state :: job_state
  j_account_id :: "int option"
  j_source_dataset_id :: "int option"
  j_target_group_id :: "int option"
  j_total :: int
  j_processed :: int
  j_success :: int
  j_skipped :: int
  j_failed :: int
  j_waiting_until :: "iso_text option"
  j_checkpoint_json :: "ckpt_text option"
  j_started_at :: "string option"
  j_finished_at :: "string option"

record item_row =
  i_job_id :: int
  i_ordinal :: int
  i_member_id :: int
  i_target_state :: target_member_state
  i_state :: item_state
  i_attempt_count :: int
  i_last_error_code :: "string option"
  i_last_error_text :: "string option"
  i_next_retry_at :: "iso_text option"
  i_processed_at :: "string option"

record event_row =
  ev_id :: int
  ev_job_id :: int
  ev_timestamp :: string
  ev_level :: string
  ev_event_code :: string
  ev_member_id :: "int option"
  ev_message :: "string option"

record restriction_row =
  ar_id :: int
  ar_account_id :: int
  ar_action_type :: string
  ar_restriction_type :: string
  ar_rpc_code :: "int option"
  ar_exception_name :: "string option"
  ar_request_type :: "string option"
  ar_cleared_at :: "string option"

text \<open>
  \<open>db_now\<close> is the text \<open>CURRENT_TIMESTAMP\<close> evaluates to; it belongs to the environment and no
  operation writes it.
\<close>

record db =
  t_accounts :: "account_row list"
  t_peer_cache :: "peer_row list"
  t_groups :: "group_row list"
  t_members :: "member_row list"
  t_datasets :: "dataset_row list"
  t_dataset_members :: "dataset_member_row list"
  t_dataset_provenance :: "provenance_row list"
  t_jobs :: "job_row list"
  t_migration_items :: "item_row list"
  t_job_events :: "event_row list"
  t_account_restrictions :: "restriction_row list"
  seq_accounts :: int
  seq_groups :: int
  seq_members :: int
  seq_datasets :: int
  seq_jobs :: int
  seq_job_events :: int
  seq_account_restrictions :: int
  db_now :: string

definition empty_db :: db where
  "empty_db =
     \<lparr>t_accounts = [], t_peer_cache = [], t_groups = [], t_members = [], t_datasets = [],
      t_dataset_members = [], t_dataset_provenance = [], t_jobs = [], t_migration_items = [],
      t_job_events = [], t_account_restrictions = [], seq_accounts = 0, seq_groups = 0,
      seq_members = 0, seq_datasets = 0, seq_jobs = 0, seq_job_events = 0,
      seq_account_restrictions = 0, db_now = ''2025-01-01 00:00:00''\<rparr>"

section \<open>Write operations\<close>

type_synonym 'a dbop = "db \<Rightarrow> exn + ('a \<times> db)"

definition dreturn :: "'a \<Rightarrow> 'a dbop" where
  "dreturn x d = Inr (x, d)"

definition draise :: "exn \<Rightarrow> 'a dbop" where
  "draise e d = Inl e"

definition dbind :: "'a dbop \<Rightarrow> ('a \<Rightarrow> 'b dbop) \<Rightarrow> 'b dbop" where
  "dbind m f d = (case m d of Inl e \<Rightarrow> Inl e | Inr (x, d') \<Rightarrow> f x d')"

definition dselect :: "(db \<Rightarrow> 'a) \<Rightarrow> 'a dbop" where
  "dselect q d = Inr (q d, d)"

definition dupdate :: "(db \<Rightarrow> db) \<Rightarrow> unit dbop" where
  "dupdate f d = Inr ((), f d)"

fun dfold :: "('a \<Rightarrow> unit dbop) \<Rightarrow> 'a list \<Rightarrow> unit dbop" where
  "dfold f [] = dreturn ()"
| "dfold f (x # xs) = dbind (f x) (\<lambda>_. dfold f xs)"

lemma dbind_simps [simp]:
  "dbind (dreturn x) f = f x"
  "dbind (draise e) f = draise e"
  "dreturn x d = Inr (x, d)"
  "draise e d = Inl e"
  "dselect q d = Inr (q d, d)"
  "dupdate g d = Inr ((), g d)"
  "m d = Inl e \<Longrightarrow> dbind m f d = Inl e"
  "m d = Inr (x, d') \<Longrightarrow> dbind m f d = f x d'"
  by (auto simp: dbind_def dreturn_def draise_def dselect_def dupdate_def fun_eq_iff)

lemma dbind_dselect [simp]: "dbind (dselect q) f d = f (q d) d"
  by simp

lemma dbind_dupdate [simp]: "dbind (dupdate g) f d = f () (g d)"
  by simp

lemma dbind_Inr:
  "dbind m f d = Inr (y, d'') \<longleftrightarrow> (\<exists>x d'. m d = Inr (x, d') \<and> f x d' = Inr (y, d''))"
  by (auto simp: dbind_def split: sum.splits)

lemma dbind_Inl:
  "dbind m f d = Inl e \<longleftrightarrow> m d = Inl e \<or> (\<exists>x d'. m d = Inr (x, d') \<and> f x d' = Inl e)"
  by (auto simp: dbind_def split: sum.splits)

section \<open>The schema invariant\<close>

definition ids_ok :: "int \<Rightarrow> int list \<Rightarrow> bool" where
  "ids_ok sq ids = (distinct ids \<and> (\<forall>i \<in> set ids. i \<le> sq))"

definition fk_opt :: "int set \<Rightarrow> int option \<Rightarrow> bool" where
  "fk_opt S v = (case v of None \<Rightarrow> True | Some i \<Rightarrow> i \<in> S)"

lemma fk_opt_simps [simp]: "fk_opt S None" "fk_opt S (Some i) \<longleftrightarrow> i \<in> S"
  by (simp_all add: fk_opt_def)

lemma fk_opt_mono: "fk_opt S v \<Longrightarrow> S \<subseteq> T \<Longrightarrow> fk_opt T v"
  by (cases v) auto

text \<open>SQLite's \<open>trim\<close> removes spaces only; \<open>lower\<close> folds the ASCII range.\<close>

definition sql_trim :: "string \<Rightarrow> string" where
  "sql_trim s = rev (dropWhile (\<lambda>c. c = CHR '' '') (rev (dropWhile (\<lambda>c. c = CHR '' '') s)))"

text \<open>The key of the partial unique index \<open>idx_members_username_fallback_unique\<close>.\<close>

definition fallback_key :: "member_row \<Rightarrow> string option" where
  "fallback_key r =
     (case m_telegram_user_id r of
        Some _ \<Rightarrow> None
      | None \<Rightarrow>
          (case m_username r of
             None \<Rightarrow> None
           | Some u \<Rightarrow> if sql_trim u = [] then None else Some (py_lower u)))"

text \<open>The key of the NULL-safe unique index on \<open>dataset_provenance\<close>.\<close>

definition provenance_key :: "provenance_row \<Rightarrow> int \<times> int \<times> int \<times> int \<times> string" where
  "provenance_key r =
     (dp_dataset_id r, dp_member_id r,
      case_option (-1) (\<lambda>i. i) (dp_source_dataset_id r),
      case_option (-1) (\<lambda>i. i) (dp_source_group_id r),
      or_empty (dp_source_label r))"

abbreviation account_ids :: "db \<Rightarrow> int set" where "account_ids d \<equiv> a_id ` set (t_accounts d)"
abbreviation group_ids :: "db \<Rightarrow> int set" where "group_ids d \<equiv> g_id ` set (t_groups d)"
abbreviation member_ids :: "db \<Rightarrow> int set" where "member_ids d \<equiv> m_id ` set (t_members d)"
abbreviation dataset_ids :: "db \<Rightarrow> int set" where "dataset_ids d \<equiv> d_id ` set (t_datasets d)"
abbreviation job_ids :: "db \<Rightarrow> int set" where "job_ids d \<equiv> j_id ` set (t_jobs d)"

definition accounts_wf :: "int \<Rightarrow> account_row list \<Rightarrow> bool" where
  "accounts_wf sq rs = (ids_ok sq (map a_id rs) \<and> distinct (map a_phone rs))"

definition peers_wf :: "int set \<Rightarrow> peer_row list \<Rightarrow> bool" where
  "peers_wf A rs =
     (distinct (map (\<lambda>r. (p_account_id r, p_peer_id r)) rs) \<and> (\<forall>r \<in> set rs. p_account_id r \<in> A))"

definition groups_wf :: "int \<Rightarrow> group_row list \<Rightarrow> bool" where
  "groups_wf sq rs = (ids_ok sq (map g_id rs) \<and> distinct (map g_telegram_peer_id rs))"

definition members_wf :: "int \<Rightarrow> member_row list \<Rightarrow> bool" where
  "members_wf sq rs =
     (ids_ok sq (map m_id rs) \<and> distinct (List.map_filter m_telegram_user_id rs) \<and>
      distinct (List.map_filter fallback_key rs))"

definition datasets_wf :: "int \<Rightarrow> dataset_row list \<Rightarrow> bool" where
  "datasets_wf sq rs = ids_ok sq (map d_id rs)"

definition dmembers_wf :: "int set \<Rightarrow> int set \<Rightarrow> int set \<Rightarrow> dataset_member_row list \<Rightarrow> bool" where
  "dmembers_wf D M G rs =
     (distinct (map (\<lambda>r. (dm_dataset_id r, dm_member_id r)) rs) \<and>
      (\<forall>r \<in> set rs. dm_dataset_id r \<in> D \<and> dm_member_id r \<in> M \<and> fk_opt G (dm_source_group_id r)))"

definition provenance_wf :: "int set \<Rightarrow> int set \<Rightarrow> int set \<Rightarrow> provenance_row list \<Rightarrow> bool" where
  "provenance_wf D M G rs =
     (distinct (map provenance_key rs) \<and>
      (\<forall>r \<in> set rs. dp_dataset_id r \<in> D \<and> dp_member_id r \<in> M \<and>
         fk_opt D (dp_source_dataset_id r) \<and> fk_opt G (dp_source_group_id r)))"

definition jobs_wf :: "int \<Rightarrow> int set \<Rightarrow> int set \<Rightarrow> int set \<Rightarrow> job_row list \<Rightarrow> bool" where
  "jobs_wf sq A D G rs =
     (ids_ok sq (map j_id rs) \<and>
      (\<forall>r \<in> set rs. fk_opt A (j_account_id r) \<and> fk_opt D (j_source_dataset_id r) \<and>
         fk_opt G (j_target_group_id r)))"

definition items_wf :: "int set \<Rightarrow> int set \<Rightarrow> item_row list \<Rightarrow> bool" where
  "items_wf J M rs =
     (distinct (map (\<lambda>r. (i_job_id r, i_ordinal r)) rs) \<and>
      distinct (map (\<lambda>r. (i_job_id r, i_member_id r)) rs) \<and>
      (\<forall>r \<in> set rs. i_job_id r \<in> J \<and> i_member_id r \<in> M))"

definition events_wf :: "int \<Rightarrow> int set \<Rightarrow> event_row list \<Rightarrow> bool" where
  "events_wf sq J rs = (ids_ok sq (map ev_id rs) \<and> (\<forall>r \<in> set rs. ev_job_id r \<in> J))"

definition restrictions_wf :: "int \<Rightarrow> int set \<Rightarrow> restriction_row list \<Rightarrow> bool" where
  "restrictions_wf sq A rs = (ids_ok sq (map ar_id rs) \<and> (\<forall>r \<in> set rs. ar_account_id r \<in> A))"

definition db_wf :: "db \<Rightarrow> bool" where
  "db_wf d =
     (accounts_wf (seq_accounts d) (t_accounts d) \<and>
      peers_wf (account_ids d) (t_peer_cache d) \<and>
      groups_wf (seq_groups d) (t_groups d) \<and>
      members_wf (seq_members d) (t_members d) \<and>
      datasets_wf (seq_datasets d) (t_datasets d) \<and>
      dmembers_wf (dataset_ids d) (member_ids d) (group_ids d) (t_dataset_members d) \<and>
      provenance_wf (dataset_ids d) (member_ids d) (group_ids d) (t_dataset_provenance d) \<and>
      jobs_wf (seq_jobs d) (account_ids d) (dataset_ids d) (group_ids d) (t_jobs d) \<and>
      items_wf (job_ids d) (member_ids d) (t_migration_items d) \<and>
      events_wf (seq_job_events d) (job_ids d) (t_job_events d) \<and>
      restrictions_wf (seq_account_restrictions d) (account_ids d) (t_account_restrictions d))"

lemma db_wf_empty: "db_wf empty_db"
  by (simp add: db_wf_def empty_db_def accounts_wf_def peers_wf_def groups_wf_def members_wf_def
      datasets_wf_def dmembers_wf_def provenance_wf_def jobs_wf_def items_wf_def events_wf_def
      restrictions_wf_def ids_ok_def List.map_filter_def)

definition keeps_wf :: "'a dbop \<Rightarrow> bool" where
  "keeps_wf m = (\<forall>d x d'. db_wf d \<longrightarrow> m d = Inr (x, d') \<longrightarrow> db_wf d')"

lemma keeps_wfD: "keeps_wf m \<Longrightarrow> db_wf d \<Longrightarrow> m d = Inr (x, d') \<Longrightarrow> db_wf d'"
  by (auto simp: keeps_wf_def)

lemma keeps_wfI: "(\<And>d x d'. db_wf d \<Longrightarrow> m d = Inr (x, d') \<Longrightarrow> db_wf d') \<Longrightarrow> keeps_wf m"
  by (auto simp: keeps_wf_def)

lemma keeps_wf_dreturn [wf_intros]: "keeps_wf (dreturn x)"
  by (auto simp: keeps_wf_def)

lemma keeps_wf_draise [wf_intros]: "keeps_wf (draise e)"
  by (auto simp: keeps_wf_def)

lemma keeps_wf_dselect [wf_intros]: "keeps_wf (dselect q)"
  by (auto simp: keeps_wf_def)

lemma keeps_wf_dbind [wf_intros]:
  "keeps_wf m \<Longrightarrow> (\<And>x. keeps_wf (f x)) \<Longrightarrow> keeps_wf (dbind m f)"
  unfolding keeps_wf_def dbind_Inr by blast

lemma keeps_wf_dfold [wf_intros]: "(\<And>x. keeps_wf (f x)) \<Longrightarrow> keeps_wf (dfold f xs)"
  by (induction xs) (auto intro: wf_intros)

lemma keeps_wf_if [wf_intros]: "keeps_wf m \<Longrightarrow> keeps_wf m' \<Longrightarrow> keeps_wf (if b then m else m')"
  by simp

lemma keeps_wf_case_option [wf_intros]:
  "keeps_wf m \<Longrightarrow> (\<And>x. keeps_wf (f x)) \<Longrightarrow> keeps_wf (case v of None \<Rightarrow> m | Some x \<Rightarrow> f x)"
  by (cases v) auto

section \<open>Monotonicity of the table invariants\<close>

lemma ids_ok_append: "ids_ok sq ids \<Longrightarrow> ids_ok (sq + 1) (ids @ [sq + 1])"
  by (force simp: ids_ok_def)

lemma ids_ok_sub: "ids_ok sq ids \<Longrightarrow> distinct ids' \<Longrightarrow> set ids' \<subseteq> set ids \<Longrightarrow> ids_ok sq ids'"
  by (auto simp: ids_ok_def)

lemma peers_wf_mono: "peers_wf A rs \<Longrightarrow> A \<subseteq> A' \<Longrightarrow> peers_wf A' rs"
  by (auto simp: peers_wf_def)

lemma dmembers_wf_mono:
  "dmembers_wf D M G rs \<Longrightarrow> D \<subseteq> D' \<Longrightarrow> M \<subseteq> M' \<Longrightarrow> G \<subseteq> G' \<Longrightarrow> dmembers_wf D' M' G' rs"
  by (auto simp: dmembers_wf_def intro: fk_opt_mono)

lemma provenance_wf_mono:
  "provenance_wf D M G rs \<Longrightarrow> D \<subseteq> D' \<Longrightarrow> M \<subseteq> M' \<Longrightarrow> G \<subseteq> G' \<Longrightarrow> provenance_wf D' M' G' rs"
  by (auto simp: provenance_wf_def intro: fk_opt_mono)

lemma jobs_wf_mono:
  "jobs_wf sq A D G rs \<Longrightarrow> A \<subseteq> A' \<Longrightarrow> D \<subseteq> D' \<Longrightarrow> G \<subseteq> G' \<Longrightarrow> jobs_wf sq A' D' G' rs"
  by (auto simp: jobs_wf_def intro: fk_opt_mono)

lemma items_wf_mono: "items_wf J M rs \<Longrightarrow> J \<subseteq> J' \<Longrightarrow> M \<subseteq> M' \<Longrightarrow> items_wf J' M' rs"
  by (auto simp: items_wf_def)

lemma events_wf_mono: "events_wf sq J rs \<Longrightarrow> J \<subseteq> J' \<Longrightarrow> events_wf sq J' rs"
  by (auto simp: events_wf_def)

lemma restrictions_wf_mono: "restrictions_wf sq A rs \<Longrightarrow> A \<subseteq> A' \<Longrightarrow> restrictions_wf sq A' rs"
  by (auto simp: restrictions_wf_def)

lemmas table_wf_mono =
  peers_wf_mono dmembers_wf_mono provenance_wf_mono jobs_wf_mono items_wf_mono events_wf_mono
  restrictions_wf_mono

lemma map_filter_append1:
  "List.map_filter f (xs @ [x]) = List.map_filter f xs @ (case f x of None \<Rightarrow> [] | Some y \<Rightarrow> [y])"
  by (induction xs) (auto simp: List.map_filter_simps split: option.splits)

lemma set_map_filter_iff: "y \<in> set (List.map_filter f xs) \<longleftrightarrow> (\<exists>x \<in> set xs. f x = Some y)"
  by (induction xs) (auto simp: List.map_filter_simps split: option.splits)

lemma map_filter_update_where_key:
  "(\<And>r. p r \<Longrightarrow> k (f r) = k r) \<Longrightarrow> List.map_filter k (update_where p f rs) = List.map_filter k rs"
  by (induction rs) (auto simp: List.map_filter_simps split: option.splits)

lemma distinct_map_filter_filter:
  "distinct (List.map_filter f rs) \<Longrightarrow> distinct (List.map_filter f (filter p rs))"
proof (induction rs)
  case (Cons r rs)
  then show ?case
    by (cases "f r") (auto simp: List.map_filter_simps set_map_filter_iff)
qed (simp add: List.map_filter_simps)

section \<open>INSERT statements\<close>

definition integrity :: "string \<Rightarrow> exn" where
  "integrity what = IntegrityError what"

definition insert_account :: "(int \<Rightarrow> account_row) \<Rightarrow> int dbop" where
  "insert_account mk d =
     (let i = seq_accounts d + 1; r = (mk i)\<lparr>a_id := i\<rparr> in
      if a_phone r \<in> a_phone ` set (t_accounts d) then Inl (integrity ''UNIQUE accounts.phone'')
      else Inr (i, d\<lparr>t_accounts := t_accounts d @ [r], seq_accounts := i\<rparr>))"

definition insert_job :: "(int \<Rightarrow> job_row) \<Rightarrow> int dbop" where
  "insert_job mk d =
     (let i = seq_jobs d + 1; r = (mk i)\<lparr>j_id := i\<rparr> in
      if fk_opt (account_ids d) (j_account_id r) \<and> fk_opt (dataset_ids d) (j_source_dataset_id r) \<and>
         fk_opt (group_ids d) (j_target_group_id r)
      then Inr (i, d\<lparr>t_jobs := t_jobs d @ [r], seq_jobs := i\<rparr>)
      else Inl (integrity ''FOREIGN KEY jobs''))"

text \<open>\<open>INSERT OR IGNORE\<close>: a unique conflict skips the row, a missing reference still fails.\<close>

definition insert_item_or_ignore :: "item_row \<Rightarrow> unit dbop" where
  "insert_item_or_ignore r d =
     (if (i_job_id r, i_ordinal r) \<in> (\<lambda>x. (i_job_id x, i_ordinal x)) ` set (t_migration_items d) \<or>
         (i_job_id r, i_member_id r) \<in> (\<lambda>x. (i_job_id x, i_member_id x)) ` set (t_migration_items d)
      then Inr ((), d)
      else if i_job_id r \<in> job_ids d \<and> i_member_id r \<in> member_ids d
      then Inr ((), d\<lparr>t_migration_items := t_migration_items d @ [r]\<rparr>)
      else Inl (integrity ''FOREIGN KEY migration_items''))"

definition insert_event :: "(int \<Rightarrow> event_row) \<Rightarrow> int dbop" where
  "insert_event mk d =
     (let i = seq_job_events d + 1; r = (mk i)\<lparr>ev_id := i\<rparr> in
      if ev_job_id r \<in> job_ids d
      then Inr (i, d\<lparr>t_job_events := t_job_events d @ [r], seq_job_events := i\<rparr>)
      else Inl (integrity ''FOREIGN KEY job_events''))"

definition insert_restriction :: "(int \<Rightarrow> restriction_row) \<Rightarrow> int dbop" where
  "insert_restriction mk d =
     (let i = seq_account_restrictions d + 1; r = (mk i)\<lparr>ar_id := i\<rparr> in
      if ar_account_id r \<in> account_ids d
      then Inr (i, d\<lparr>t_account_restrictions := t_account_restrictions d @ [r],
                     seq_account_restrictions := i\<rparr>)
      else Inl (integrity ''FOREIGN KEY account_restrictions''))"

definition insert_dataset :: "(int \<Rightarrow> dataset_row) \<Rightarrow> int dbop" where
  "insert_dataset mk d =
     (let i = seq_datasets d + 1 in
      Inr (i, d\<lparr>t_datasets := t_datasets d @ [(mk i)\<lparr>d_id := i\<rparr>], seq_datasets := i\<rparr>))"

text \<open>The result is \<open>cursor.rowcount\<close>: one for an inserted row, zero for an ignored one.\<close>

definition insert_dataset_member_or_ignore :: "dataset_member_row \<Rightarrow> int dbop" where
  "insert_dataset_member_or_ignore r d =
     (if (dm_dataset_id r, dm_member_id r) \<in>
           (\<lambda>x. (dm_dataset_id x, dm_member_id x)) ` set (t_dataset_members d)
      then Inr (0, d)
      else if dm_dataset_id r \<in> dataset_ids d \<and> dm_member_id r \<in> member_ids d \<and>
              fk_opt (group_ids d) (dm_source_group_id r)
      then Inr (1, d\<lparr>t_dataset_members := t_dataset_members d @ [r]\<rparr>)
      else Inl (integrity ''FOREIGN KEY dataset_members''))"

definition insert_provenance_or_ignore :: "provenance_row \<Rightarrow> unit dbop" where
  "insert_provenance_or_ignore r d =
     (if provenance_key r \<in> provenance_key ` set (t_dataset_provenance d) then Inr ((), d)
      else if dp_dataset_id r \<in> dataset_ids d \<and> dp_member_id r \<in> member_ids d \<and>
              fk_opt (dataset_ids d) (dp_source_dataset_id r) \<and>
              fk_opt (group_ids d) (dp_source_group_id r)
      then Inr ((), d\<lparr>t_dataset_provenance := t_dataset_provenance d @ [r]\<rparr>)
      else Inl (integrity ''FOREIGN KEY dataset_provenance''))"

text \<open>A plain \<open>INSERT INTO members\<close>: both unique indexes are checked.\<close>

definition insert_member :: "(int \<Rightarrow> member_row) \<Rightarrow> int dbop" where
  "insert_member mk d =
     (let i = seq_members d + 1; r = (mk i)\<lparr>m_id := i\<rparr> in
      if m_telegram_user_id r \<noteq> None \<and>
         m_telegram_user_id r \<in> m_telegram_user_id ` set (t_members d)
      then Inl (integrity ''UNIQUE members.telegram_user_id'')
      else if fallback_key r \<noteq> None \<and> fallback_key r \<in> fallback_key ` set (t_members d)
      then Inl (integrity ''UNIQUE idx_members_username_fallback_unique'')
      else Inr (i, d\<lparr>t_members := t_members d @ [r], seq_members := i\<rparr>))"

text \<open>Replacing one table keeps the invariant when the new table is well formed and keeps the keys others refer to.\<close>

lemma db_wf_tables:
  assumes "db_wf d"
  shows "accounts_wf (seq_accounts d) (t_accounts d)" "peers_wf (account_ids d) (t_peer_cache d)"
    "groups_wf (seq_groups d) (t_groups d)" "members_wf (seq_members d) (t_members d)"
    "datasets_wf (seq_datasets d) (t_datasets d)"
    "dmembers_wf (dataset_ids d) (member_ids d) (group_ids d) (t_dataset_members d)"
    "provenance_wf (dataset_ids d) (member_ids d) (group_ids d) (t_dataset_provenance d)"
    "jobs_wf (seq_jobs d) (account_ids d) (dataset_ids d) (group_ids d) (t_jobs d)"
    "items_wf (job_ids d) (member_ids d) (t_migration_items d)"
    "events_wf (seq_job_events d) (job_ids d) (t_job_events d)"
    "restrictions_wf (seq_account_restrictions d) (account_ids d) (t_account_restrictions d)"
  using assms unfolding db_wf_def by blast+

lemma db_wf_replace:
  assumes "db_wf d"
  shows "accounts_wf sq as \<Longrightarrow> account_ids d \<subseteq> a_id ` set as \<Longrightarrow> db_wf (d\<lparr>t_accounts := as, seq_accounts := sq\<rparr>)"
    and "groups_wf sq gs \<Longrightarrow> group_ids d \<subseteq> g_id ` set gs \<Longrightarrow> db_wf (d\<lparr>t_groups := gs, seq_groups := sq\<rparr>)"
    and "members_wf sq ms \<Longrightarrow> member_ids d \<subseteq> m_id ` set ms \<Longrightarrow> db_wf (d\<lparr>t_members := ms, seq_members := sq\<rparr>)"
    and "datasets_wf sq ds \<Longrightarrow> dataset_ids d \<subseteq> d_id ` set ds \<Longrightarrow> db_wf (d\<lparr>t_datasets := ds, seq_datasets := sq\<rparr>)"
    and "jobs_wf sq (account_ids d) (dataset_ids d) (group_ids d) js \<Longrightarrow> job_ids d \<subseteq> j_id ` set js \<Longrightarrow>
      db_wf (d\<lparr>t_jobs := js, seq_jobs := sq\<rparr>)"
    and "peers_wf (account_ids d) ps \<Longrightarrow> db_wf (d\<lparr>t_peer_cache := ps\<rparr>)"
    and "dmembers_wf (dataset_ids d) (member_ids d) (group_ids d) dms \<Longrightarrow> db_wf (d\<lparr>t_dataset_members := dms\<rparr>)"
    and "provenance_wf (dataset_ids d) (member_ids d) (group_ids d) prs \<Longrightarrow> db_wf (d\<lparr>t_dataset_provenance := prs\<rparr>)"
    and "items_wf (job_ids d) (member_ids d) is \<Longrightarrow> db_wf (d\<lparr>t_migration_items := is\<rparr>)"
    and "events_wf sq (job_ids d) es \<Longrightarrow> db_wf (d\<lparr>t_job_events := es, seq_job_events := sq\<rparr>)"
    and "restrictions_wf sq (account_ids d) rs \<Longrightarrow>
      db_wf (d\<lparr>t_account_restrictions := rs, seq_account_restrictions := sq\<rparr>)"
  by ((simp add: db_wf_def db_wf_tables [OF assms]), (blast intro: table_wf_mono db_wf_tables [OF assms])?)+

lemma insert_account_wf [wf_intros]: "keeps_wf (insert_account mk)"
  by (rule keeps_wfI)
    (auto simp: insert_account_def Let_def accounts_wf_def ids_ok_append dest: db_wf_tables(1)
      split: if_splits intro!: db_wf_replace(1))

lemma insert_job_wf [wf_intros]: "keeps_wf (insert_job mk)"
  by (rule keeps_wfI)
    (auto simp: insert_job_def Let_def jobs_wf_def ids_ok_append dest: db_wf_tables(8)
      split: if_splits intro!: db_wf_replace(5))

lemma insert_item_or_ignore_wf [wf_intros]: "keeps_wf (insert_item_or_ignore r)"
  by (rule keeps_wfI)
    (auto simp: insert_item_or_ignore_def items_wf_def dest: db_wf_tables(9) split: if_splits intro!: db_wf_replace(9))

lemma insert_event_wf [wf_intros]: "keeps_wf (insert_event mk)"
  by (rule keeps_wfI)
    (auto simp: insert_event_def Let_def events_wf_def ids_ok_append dest: db_wf_tables(10)
      split: if_splits intro!: db_wf_replace(10))

lemma insert_restriction_wf [wf_intros]: "keeps_wf (insert_restriction mk)"
  by (rule keeps_wfI)
    (auto simp: insert_restriction_def Let_def restrictions_wf_def ids_ok_append dest: db_wf_tables(11)
      split: if_splits intro!: db_wf_replace(11))

lemma insert_dataset_wf [wf_intros]: "keeps_wf (insert_dataset mk)"
  by (rule keeps_wfI)
    (auto simp: insert_dataset_def Let_def datasets_wf_def ids_ok_append dest: db_wf_tables(5) intro!: db_wf_replace(4))

lemma insert_dataset_member_or_ignore_wf [wf_intros]:
  "keeps_wf (insert_dataset_member_or_ignore r)"
  by (rule keeps_wfI)
    (auto simp: insert_dataset_member_or_ignore_def dmembers_wf_def dest: db_wf_tables(6) split: if_splits
      intro!: db_wf_replace(7))

lemma insert_provenance_or_ignore_wf [wf_intros]: "keeps_wf (insert_provenance_or_ignore r)"
  by (rule keeps_wfI)
    (auto simp: insert_provenance_or_ignore_def provenance_wf_def dest: db_wf_tables(7) split: if_splits
      intro!: db_wf_replace(8))

lemma insert_member_wf [wf_intros]: "keeps_wf (insert_member mk)"
proof (rule keeps_wfI)
  fix d x d' assume wf: "db_wf d" and r: "insert_member mk d = Inr (x, d')"
  define row where "row = (mk (seq_members d + 1))\<lparr>m_id := seq_members d + 1\<rparr>"
  have d': "d' = d\<lparr>t_members := t_members d @ [row], seq_members := seq_members d + 1\<rparr>"
    and uid: "m_telegram_user_id row = None \<or> m_telegram_user_id row \<notin> m_telegram_user_id ` set (t_members d)"
    and key: "fallback_key row = None \<or> fallback_key row \<notin> fallback_key ` set (t_members d)"
    using r by (auto simp: insert_member_def Let_def row_def split: if_splits)
  have "m_id row = seq_members d + 1" by (simp add: row_def)
  with db_wf_tables(4) [OF wf] uid key have "members_wf (seq_members d + 1) (t_members d @ [row])"
    by (auto simp: members_wf_def ids_ok_append map_filter_append1 set_map_filter_iff image_iff split: option.splits)
  then show "db_wf d'" unfolding d' by (rule db_wf_replace(3) [OF wf]) auto
qed

end
