(* ===== verification/Statements.thy ===== *)
theory Statements
  imports Storage
begin

text \<open>
  The \<open>UPDATE\<close>, upsert and \<open>DELETE\<close> statements of the repositories over the tables of
  \<open>Storage\<close>, with the cascades and refusals the schema declares, and the proof that each keeps
  the schema invariant.
\<close>

section \<open>UPDATE statements\<close>

definition update_accounts :: "(account_row \<Rightarrow> bool) \<Rightarrow> (db \<Rightarrow> account_row \<Rightarrow> account_row) \<Rightarrow> unit dbop" where
  "update_accounts p f = dupdate (\<lambda>d. d\<lparr>t_accounts := update_where p (f d) (t_accounts d)\<rparr>)"

definition update_jobs :: "(job_row \<Rightarrow> bool) \<Rightarrow> (db \<Rightarrow> job_row \<Rightarrow> job_row) \<Rightarrow> unit dbop" where
  "update_jobs p f = dupdate (\<lambda>d. d\<lparr>t_jobs := update_where p (f d) (t_jobs d)\<rparr>)"

definition update_items :: "(item_row \<Rightarrow> bool) \<Rightarrow> (db \<Rightarrow> item_row \<Rightarrow> item_row) \<Rightarrow> unit dbop" where
  "update_items p f =
     dupdate (\<lambda>d. d\<lparr>t_migration_items := update_where p (f d) (t_migration_items d)\<rparr>)"

definition update_datasets :: "(dataset_row \<Rightarrow> bool) \<Rightarrow> (db \<Rightarrow> dataset_row \<Rightarrow> dataset_row) \<Rightarrow> unit dbop" where
  "update_datasets p f = dupdate (\<lambda>d. d\<lparr>t_datasets := update_where p (f d) (t_datasets d)\<rparr>)"

definition update_restrictions ::
  "(restriction_row \<Rightarrow> bool) \<Rightarrow> (db \<Rightarrow> restriction_row \<Rightarrow> restriction_row) \<Rightarrow> unit dbop" where
  "update_restrictions p f =
     dupdate (\<lambda>d. d\<lparr>t_account_restrictions := update_where p (f d) (t_account_restrictions d)\<rparr>)"

text \<open>
  \<open>UPDATE members ... WHERE id=?\<close>: the new row must not collide with another row on one of the
  unique indexes.
\<close>

definition update_member :: "int \<Rightarrow> (member_row \<Rightarrow> member_row) \<Rightarrow> unit dbop" where
  "update_member i f d =
     (let rows = update_where (\<lambda>r. m_id r = i) (\<lambda>r. (f r)\<lparr>m_id := m_id r\<rparr>) (t_members d) in
      if \<not> distinct (List.map_filter m_telegram_user_id rows)
      then Inl (integrity ''UNIQUE members.telegram_user_id'')
      else if \<not> distinct (List.map_filter fallback_key rows)
      then Inl (integrity ''UNIQUE idx_members_username_fallback_unique'')
      else Inr ((), d\<lparr>t_members := rows\<rparr>))"

section \<open>Upserts\<close>

text \<open>\<open>INSERT INTO peer_cache ... ON CONFLICT(account_id,peer_id) DO UPDATE\<close>.\<close>

definition upsert_peer :: "peer_row \<Rightarrow> (peer_row \<Rightarrow> peer_row) \<Rightarrow> unit dbop" where
  "upsert_peer r f d =
     (if (p_account_id r, p_peer_id r) \<in> (\<lambda>x. (p_account_id x, p_peer_id x)) ` set (t_peer_cache d)
      then Inr ((), d\<lparr>t_peer_cache :=
               update_where (\<lambda>x. p_account_id x = p_account_id r \<and> p_peer_id x = p_peer_id r)
                 (\<lambda>x. (f x)\<lparr>p_account_id := p_account_id x, p_peer_id := p_peer_id x\<rparr>)
                 (t_peer_cache d)\<rparr>)
      else if p_account_id r \<in> account_ids d
      then Inr ((), d\<lparr>t_peer_cache := t_peer_cache d @ [r]\<rparr>)
      else Inl (integrity ''FOREIGN KEY peer_cache''))"

text \<open>\<open>INSERT INTO groups ... ON CONFLICT(telegram_peer_id) DO UPDATE\<close>.\<close>

definition upsert_group :: "group_row \<Rightarrow> (group_row \<Rightarrow> group_row) \<Rightarrow> unit dbop" where
  "upsert_group r f d =
     (if g_telegram_peer_id r \<in> g_telegram_peer_id ` set (t_groups d)
      then Inr ((), d\<lparr>t_groups :=
               update_where (\<lambda>x. g_telegram_peer_id x = g_telegram_peer_id r)
                 (\<lambda>x. (f x)\<lparr>g_id := g_id x, g_telegram_peer_id := g_telegram_peer_id x\<rparr>) (t_groups d)\<rparr>)
      else Inr ((), d\<lparr>t_groups := t_groups d @ [r\<lparr>g_id := seq_groups d + 1\<rparr>],
                      seq_groups := seq_groups d + 1\<rparr>))"

section \<open>DELETE statements\<close>

text \<open>
  Deleting an account cascades to its cached peers and restrictions; a job that still refers to
  it makes the statement fail.
\<close>

definition delete_account_row :: "int \<Rightarrow> unit dbop" where
  "delete_account_row i d =
     (if i \<in> account_ids d \<and> (\<exists>j \<in> set (t_jobs d). j_account_id j = Some i)
      then Inl (integrity ''FOREIGN KEY jobs.account_id'')
      else Inr ((), d\<lparr>t_accounts := filter (\<lambda>r. a_id r \<noteq> i) (t_accounts d),
                      t_peer_cache := filter (\<lambda>r. p_account_id r \<noteq> i) (t_peer_cache d),
                      t_account_restrictions :=
                        filter (\<lambda>r. ar_account_id r \<noteq> i) (t_account_restrictions d)\<rparr>))"

text \<open>
  Deleting a member cascades to its dataset memberships and provenance; a migration item that
  refers to it makes the statement fail.
\<close>

definition delete_member_row :: "int \<Rightarrow> unit dbop" where
  "delete_member_row i d =
     (if i \<in> member_ids d \<and> (\<exists>r \<in> set (t_migration_items d). i_member_id r = i)
      then Inl (integrity ''FOREIGN KEY migration_items.member_id'')
      else Inr ((), d\<lparr>t_members := filter (\<lambda>r. m_id r \<noteq> i) (t_members d),
                      t_dataset_members := filter (\<lambda>r. dm_member_id r \<noteq> i) (t_dataset_members d),
                      t_dataset_provenance :=
                        filter (\<lambda>r. dp_member_id r \<noteq> i) (t_dataset_provenance d)\<rparr>))"

section \<open>They keep the invariant\<close>

lemma image_id_update_where:
  "(\<And>r. k (f r) = k r) \<Longrightarrow> k ` set (update_where p f rs) = k ` set rs"
  by (metis list.set_map map_update_where_key)

lemma update_accounts_wf [wf_intros]:
  assumes "\<And>d r. a_id (f d r) = a_id r" "\<And>d r. a_phone (f d r) = a_phone r"
  shows "keeps_wf (update_accounts p f)"
  using assms
  by (intro keeps_wfI)
    (auto simp: update_accounts_def db_wf_def accounts_wf_def image_id_update_where
      map_update_where_key)

lemma update_jobs_wf [wf_intros]:
  assumes "\<And>d r. j_id (f d r) = j_id r"
    and "\<And>d r. j_account_id (f d r) = j_account_id r \<or> j_account_id (f d r) = None"
    and "\<And>d r. j_source_dataset_id (f d r) = j_source_dataset_id r"
    and "\<And>d r. j_target_group_id (f d r) = j_target_group_id r"
  shows "keeps_wf (update_jobs p f)"
proof (rule keeps_wfI)
  fix d x d' assume wf: "db_wf d" and r: "update_jobs p f d = Inr (x, d')"
  have j: "jobs_wf (seq_jobs d) (account_ids d) (dataset_ids d) (group_ids d)
             (update_where p (f d) (t_jobs d))"
    unfolding jobs_wf_def
  proof (intro conjI ballI)
    show "ids_ok (seq_jobs d) (map j_id (update_where p (f d) (t_jobs d)))"
      using db_wf_tables(8) [OF wf] assms(1) by (simp add: jobs_wf_def map_update_where_key)
  next
    fix r assume "r \<in> set (update_where p (f d) (t_jobs d))"
    then obtain r0 where r0: "r0 \<in> set (t_jobs d)" "r = r0 \<or> r = f d r0"
      by (auto simp: set_update_where)
    with db_wf_tables(8) [OF wf] have ok: "fk_opt (account_ids d) (j_account_id r0)"
        "fk_opt (dataset_ids d) (j_source_dataset_id r0)" "fk_opt (group_ids d) (j_target_group_id r0)"
      by (auto simp: jobs_wf_def)
    show "fk_opt (account_ids d) (j_account_id r)"
      using r0(2) ok(1) assms(2) [of d r0] by auto
    show "fk_opt (dataset_ids d) (j_source_dataset_id r)" "fk_opt (group_ids d) (j_target_group_id r)"
      using r0(2) ok(2,3) assms(3,4) by auto
  qed
  have "db_wf (d\<lparr>t_jobs := update_where p (f d) (t_jobs d), seq_jobs := seq_jobs d\<rparr>)"
    by (rule db_wf_replace(5) [OF wf j]) (simp add: image_id_update_where assms(1))
  then show "db_wf d'" using r by (auto simp: update_jobs_def)
qed

lemma update_items_wf [wf_intros]:
  assumes "\<And>d r. i_job_id (f d r) = i_job_id r" "\<And>d r. i_ordinal (f d r) = i_ordinal r"
    and "\<And>d r. i_member_id (f d r) = i_member_id r"
  shows "keeps_wf (update_items p f)"
proof (rule keeps_wfI)
  fix d x d' assume wf: "db_wf d" and r: "update_items p f d = Inr (x, d')"
  have "items_wf (job_ids d) (member_ids d) (update_where p (f d) (t_migration_items d))"
    using db_wf_tables(9) [OF wf] assms
    by (auto simp: items_wf_def map_update_where_key set_update_where)
  from db_wf_replace(9) [OF wf this] show "db_wf d'" using r by (auto simp: update_items_def)
qed

lemma update_datasets_wf [wf_intros]:
  assumes "\<And>d r. d_id (f d r) = d_id r"
  shows "keeps_wf (update_datasets p f)"
proof (rule keeps_wfI)
  fix d x d' assume wf: "db_wf d" and r: "update_datasets p f d = Inr (x, d')"
  have "datasets_wf (seq_datasets d) (update_where p (f d) (t_datasets d))"
    using db_wf_tables(5) [OF wf] assms by (simp add: datasets_wf_def map_update_where_key)
  from db_wf_replace(4) [OF wf this] show "db_wf d'"
    using r assms by (auto simp: update_datasets_def image_id_update_where)
qed

lemma update_restrictions_wf [wf_intros]:
  assumes "\<And>d r. ar_id (f d r) = ar_id r" "\<And>d r. ar_account_id (f d r) = ar_account_id r"
  shows "keeps_wf (update_restrictions p f)"
proof (rule keeps_wfI)
  fix d x d' assume wf: "db_wf d" and r: "update_restrictions p f d = Inr (x, d')"
  have "restrictions_wf (seq_account_restrictions d) (account_ids d) (update_where p (f d) (t_account_restrictions d))"
    using db_wf_tables(11) [OF wf] assms by (auto simp: restrictions_wf_def map_update_where_key set_update_where)
  from db_wf_replace(11) [OF wf this] show "db_wf d'" using r by (auto simp: update_restrictions_def)
qed

lemma update_member_wf [wf_intros]: "keeps_wf (update_member i f)"
proof (rule keeps_wfI)
  fix d x d' assume wf: "db_wf d" and r: "update_member i f d = Inr (x, d')"
  let ?ms = "update_where (\<lambda>r. m_id r = i) (\<lambda>r. (f r)\<lparr>m_id := m_id r\<rparr>) (t_members d)"
  have ids: "map m_id ?ms = map m_id (t_members d)" by (simp add: map_update_where_key)
  have img: "m_id ` set ?ms = member_ids d" by (simp add: image_id_update_where)
  have d': "d' = d\<lparr>t_members := ?ms, seq_members := seq_members d\<rparr>"
    and keys: "distinct (List.map_filter m_telegram_user_id ?ms)" "distinct (List.map_filter fallback_key ?ms)"
    using r by (auto simp: update_member_def Let_def split: if_splits)
  have "members_wf (seq_members d) ?ms" using db_wf_tables(4) [OF wf] keys by (simp add: members_wf_def ids)
  then show "db_wf d'" unfolding d' by (rule db_wf_replace(3) [OF wf]) (simp add: img)
qed

lemma upsert_peer_wf [wf_intros]: "keeps_wf (upsert_peer r f)"
proof (rule keeps_wfI)
  fix d x d' assume wf: "db_wf d" and eq: "upsert_peer r f d = Inr (x, d')"
  have "peers_wf (account_ids d) (t_peer_cache d')"
    using db_wf_tables(2) [OF wf] eq
    by (auto simp: upsert_peer_def peers_wf_def map_update_where_key set_update_where split: if_splits)
  from db_wf_replace(6) [OF wf this] show "db_wf d'" using eq by (auto simp: upsert_peer_def split: if_splits)
qed

lemma upsert_group_wf [wf_intros]: "keeps_wf (upsert_group r f)"
proof (rule keeps_wfI)
  fix d x d' assume wf: "db_wf d" and eq: "upsert_group r f d = Inr (x, d')"
  let ?p = "\<lambda>x. g_telegram_peer_id x = g_telegram_peer_id r"
  let ?g = "\<lambda>x. (f x)\<lparr>g_id := g_id x, g_telegram_peer_id := g_telegram_peer_id x\<rparr>"
  show "db_wf d'"
  proof (cases "g_telegram_peer_id r \<in> g_telegram_peer_id ` set (t_groups d)")
    case True
    with eq have d': "d' = d\<lparr>t_groups := update_where ?p ?g (t_groups d)\<rparr>"
      by (simp add: upsert_group_def)
    have img: "g_id ` set (update_where ?p ?g (t_groups d)) = group_ids d"
      by (rule image_id_update_where) simp
    have "groups_wf (seq_groups d) (update_where ?p ?g (t_groups d))"
      using db_wf_tables(3) [OF wf] by (simp add: groups_wf_def map_update_where_key)
    from db_wf_replace(2) [OF wf this] show ?thesis by (simp add: d' img)
  next
    case False
    with eq have d': "d' = d\<lparr>t_groups := t_groups d @ [r\<lparr>g_id := seq_groups d + 1\<rparr>],
        seq_groups := seq_groups d + 1\<rparr>"
      by (simp add: upsert_group_def)
    with db_wf_tables(3) [OF wf] False show ?thesis
      by (auto simp: groups_wf_def ids_ok_append intro!: db_wf_replace(2) [OF wf])
  qed
qed

lemma delete_account_row_wf [wf_intros]: "keeps_wf (delete_account_row i)"
proof (rule keeps_wfI)
  fix d x d' assume wf: "db_wf d" and eq: "delete_account_row i d = Inr (x, d')"
  let ?as = "filter (\<lambda>r. a_id r \<noteq> i) (t_accounts d)"
    and ?ps = "filter (\<lambda>r. p_account_id r \<noteq> i) (t_peer_cache d)"
    and ?rs = "filter (\<lambda>r. ar_account_id r \<noteq> i) (t_account_restrictions d)"
  note tables = db_wf_tables [OF wf]
  have ids: "a_id ` set ?as = account_ids d - {i}" by auto
  have d': "d' = d\<lparr>t_accounts := ?as, t_peer_cache := ?ps, t_account_restrictions := ?rs\<rparr>"
    and ref: "\<forall>j \<in> set (t_jobs d). i \<in> account_ids d \<longrightarrow> j_account_id j \<noteq> Some i"
    using eq by (auto simp: delete_account_row_def split: if_splits)
  have "jobs_wf (seq_jobs d) (account_ids d - {i}) (dataset_ids d) (group_ids d) (t_jobs d)"
    using tables(8) ref by (fastforce simp: jobs_wf_def fk_opt_def split: option.splits)
  moreover have "accounts_wf (seq_accounts d) ?as"
    using tables(1) by (auto simp: accounts_wf_def distinct_map_filter ids_ok_def)
  moreover have "peers_wf (account_ids d - {i}) ?ps"
    using tables(2) by (auto simp: peers_wf_def distinct_map_filter)
  moreover have "restrictions_wf (seq_account_restrictions d) (account_ids d - {i}) ?rs"
    using tables(11) by (auto simp: restrictions_wf_def distinct_map_filter ids_ok_def)
  ultimately show "db_wf d'" unfolding d' db_wf_def by (simp add: ids tables del: set_filter)
qed

lemma delete_member_row_wf [wf_intros]: "keeps_wf (delete_member_row i)"
proof (rule keeps_wfI)
  fix d x d' assume wf: "db_wf d" and eq: "delete_member_row i d = Inr (x, d')"
  let ?ms = "filter (\<lambda>r. m_id r \<noteq> i) (t_members d)"
    and ?dms = "filter (\<lambda>r. dm_member_id r \<noteq> i) (t_dataset_members d)"
    and ?prs = "filter (\<lambda>r. dp_member_id r \<noteq> i) (t_dataset_provenance d)"
  note tables = db_wf_tables [OF wf]
  have ids: "m_id ` set ?ms = member_ids d - {i}" by auto
  have d': "d' = d\<lparr>t_members := ?ms, t_dataset_members := ?dms, t_dataset_provenance := ?prs\<rparr>"
    and ref: "\<forall>r \<in> set (t_migration_items d). i \<in> member_ids d \<longrightarrow> i_member_id r \<noteq> i"
    using eq by (auto simp: delete_member_row_def split: if_splits)
  have "items_wf (job_ids d) (member_ids d - {i}) (t_migration_items d)"
    using tables(9) ref by (fastforce simp: items_wf_def)
  moreover have "members_wf (seq_members d) ?ms"
    using tables(4) by (auto simp: members_wf_def distinct_map_filter ids_ok_def distinct_map_filter_filter)
  moreover have "dmembers_wf (dataset_ids d) (member_ids d - {i}) (group_ids d) ?dms"
    using tables(6) by (auto simp: dmembers_wf_def distinct_map_filter)
  moreover have "provenance_wf (dataset_ids d) (member_ids d - {i}) (group_ids d) ?prs"
    using tables(7) by (auto simp: provenance_wf_def distinct_map_filter)
  ultimately show "db_wf d'" unfolding d' db_wf_def by (simp add: ids tables del: set_filter)
qed

section \<open>A sample database\<close>

text \<open>
  One account, one group, and a dataset of four members: two the account has cached, a bot, and a
  member known by name only.  The witnesses of the properties run on it.
\<close>

definition sample_member :: "int \<Rightarrow> int option \<Rightarrow> string option \<Rightarrow> bool \<Rightarrow> member_row" where
  "sample_member i uid uname isbot =
     \<lparr>m_id = i, m_telegram_user_id = uid, m_username = uname, m_first_name = None,
      m_last_name = None, m_phone = None, m_bot = isbot, m_deleted = False,
      m_activity_status = None, m_last_seen = None\<rparr>"

definition sample_peer :: "int \<Rightarrow> int \<Rightarrow> peer_row" where
  "sample_peer uid h =
     \<lparr>p_account_id = 1, p_peer_id = uid, p_peer_type = ''user'', p_access_hash = Some h,
      p_username = None, p_title = None\<rparr>"

definition sample_db :: db where
  "sample_db = empty_db\<lparr>
     t_accounts := [\<lparr>a_id = 1, a_phone = ''+84900000001'', a_telegram_user_id = Some 500,
        a_username = None, a_display_name = None, a_session_path = ''s'', a_status = AS_READY,
        a_enabled = True, a_last_connected_at = None, a_last_error = None,
        a_connection_state = CS_READY, a_operation_state = OS_IDLE\<rparr>],
     t_peer_cache := [sample_peer 101 11, sample_peer 102 12, sample_peer 103 13],
     t_groups := [\<lparr>g_id = 1, g_telegram_peer_id = 900, g_type = ''channel'', g_username = None,
        g_title = ''G''\<rparr>],
     t_members := [sample_member 1 (Some 101) (Some ''ann'') False,
        sample_member 2 (Some 102) (Some ''bob'') False, sample_member 3 (Some 103) None True,
        sample_member 4 None (Some ''eve'') False],
     t_datasets := [\<lparr>d_id = 1, d_name = ''D'', d_source_type = ''group'', d_source_reference = None,
        d_status = ''READY'', d_member_count = 4\<rparr>],
     t_dataset_members := [\<lparr>dm_dataset_id = 1, dm_member_id = 1, dm_source_group_id = Some 1\<rparr>,
        \<lparr>dm_dataset_id = 1, dm_member_id = 2, dm_source_group_id = Some 1\<rparr>,
        \<lparr>dm_dataset_id = 1, dm_member_id = 3, dm_source_group_id = Some 1\<rparr>,
        \<lparr>dm_dataset_id = 1, dm_member_id = 4, dm_source_group_id = Some 1\<rparr>],
     t_jobs := [\<lparr>j_id = 1, j_job_type = JT_MIGRATION, j_state = JS_READY, j_account_id = Some 1,
        j_source_dataset_id = Some 1, j_target_group_id = Some 1, j_total = 2, j_processed = 0,
        j_success = 0, j_skipped = 0, j_failed = 0, j_waiting_until = None,
        j_checkpoint_json = None, j_started_at = None, j_finished_at = None\<rparr>],
     t_migration_items := [
        \<lparr>i_job_id = 1, i_ordinal = 0, i_member_id = 1, i_target_state = KNOWN_ABSENT,
         i_state = IS_READY, i_attempt_count = 0, i_last_error_code = None,
         i_last_error_text = None, i_next_retry_at = None, i_processed_at = None\<rparr>,
        \<lparr>i_job_id = 1, i_ordinal = 1, i_member_id = 2, i_target_state = KNOWN_ABSENT,
         i_state = IS_READY, i_attempt_count = 0, i_last_error_code = None,
         i_last_error_text = None, i_next_retry_at = None, i_processed_at = None\<rparr>],
     seq_accounts := 1, seq_groups := 1, seq_members := 4, seq_datasets := 1, seq_jobs := 1\<rparr>"

lemmas sample_defs = sample_db_def sample_member_def sample_peer_def empty_db_def

lemma sample_db_wf: "db_wf sample_db"
  by (simp add: sample_defs db_wf_def accounts_wf_def peers_wf_def groups_wf_def members_wf_def
      datasets_wf_def dmembers_wf_def provenance_wf_def jobs_wf_def items_wf_def events_wf_def
      restrictions_wf_def ids_ok_def List.map_filter_simps fallback_key_def)

end
