(* ===== verification/Job_Store.thy ===== *)
theory Job_Store
  imports Statements
begin

text \<open>
  \<open>jobs/models.py\<close>, \<open>jobs/repository.py\<close> and \<open>jobs/v12_repository.py\<close>: jobs, their migration
  items and their events.  Reads are functions of the database, writes are \<^typ>\<open>'a dbop\<close>
  operations; the \<open>Future\<close> of a submitted write is the value the operation returns.
\<close>

section \<open>Models\<close>

record job =
  jb_job_type :: job_type
  jb_state :: job_state
  jb_account_id :: "int option"
  jb_source_dataset_id :: "int option"
  jb_target_group_id :: "int option"
  jb_total :: int

record item_update =
  iu_ordinal :: int
  iu_state :: item_state
  iu_attempts :: int
  iu_error_code :: "string option"
  iu_error_text :: "string option"

section \<open>Reads\<close>

definition job_create :: "job \<Rightarrow> int dbop" where
  "job_create jb =
     insert_job (\<lambda>i. \<lparr>j_id = i, j_job_type = jb_job_type jb, j_state = jb_state jb,
        j_account_id = jb_account_id jb, j_source_dataset_id = jb_source_dataset_id jb,
        j_target_group_id = jb_target_group_id jb, j_total = jb_total jb, j_processed = 0,
        j_success = 0, j_skipped = 0, j_failed = 0, j_waiting_until = None,
        j_checkpoint_json = None, j_started_at = None, j_finished_at = None\<rparr>)"

definition job_get :: "int \<Rightarrow> db \<Rightarrow> job_row option" where
  "job_get job_id d = find_row (\<lambda>r. j_id r = job_id) (t_jobs d)"

text \<open>\<open>ORDER BY k DESC\<close>.\<close>

definition order_desc :: "('a \<Rightarrow> 'k::linorder) \<Rightarrow> 'a list \<Rightarrow> 'a list" where
  "order_desc k rows = rev (sort_key k rows)"

definition job_list_recent :: "int \<Rightarrow> db \<Rightarrow> job_row list" where
  "job_list_recent limit d = take (nat (max 1 (min 1000 limit))) (order_desc j_id (t_jobs d))"

definition has_nonterminal_jobs :: "int \<Rightarrow> db \<Rightarrow> bool" where
  "has_nonterminal_jobs account_id d =
     (\<exists>r \<in> set (t_jobs d). j_account_id r = Some account_id \<and> \<not> is_terminal (j_state r))"

text \<open>
  \<open>SELECT waiting_until ... ORDER BY waiting_until DESC LIMIT 1\<close> over the jobs of the account in
  one of the given states.
\<close>

definition latest_wait :: "job_state set \<Rightarrow> int \<Rightarrow> db \<Rightarrow> iso_text option" where
  "latest_wait states account_id d =
     (case order_desc id (List.map_filter
              (\<lambda>r. if j_account_id r = Some account_id \<and> j_state r \<in> states then j_waiting_until r
                   else None) (t_jobs d)) of
        [] \<Rightarrow> None
      | w # _ \<Rightarrow> Some w)"

definition account_waiting_until :: "int \<Rightarrow> db \<Rightarrow> iso_text option" where
  "account_waiting_until account_id d = latest_wait {JS_WAITING_SERVER, JS_PAUSED} account_id d"

text \<open>\<open>V12JobRepository.account_waiting_until\<close> looks at waiting jobs only.\<close>

definition account_waiting_until_v12 :: "int \<Rightarrow> db \<Rightarrow> iso_text option" where
  "account_waiting_until_v12 account_id d = latest_wait {JS_WAITING_SERVER} account_id d"

text \<open>\<open>json.loads\<close> of the checkpoint column; a text that is not JSON reads as the empty dictionary.\<close>

definition get_checkpoint :: "int \<Rightarrow> db \<Rightarrow> checkpoint" where
  "get_checkpoint job_id d =
     (case job_get job_id d of
        None \<Rightarrow> []
      | Some r \<Rightarrow> (case j_checkpoint_json r of Some (CkptJson c) \<Rightarrow> c | _ \<Rightarrow> []))"

definition recoverable :: "db \<Rightarrow> int list" where
  "recoverable d =
     map j_id (sort_key j_id
       (filter (\<lambda>r. j_state r \<in> {JS_RUNNING, JS_WAITING_SERVER, JS_PAUSED, JS_RATE_LIMITED}) (t_jobs d)))"

record job_summary =
  sm_total :: int
  sm_processed :: int
  sm_success :: int
  sm_skipped :: int
  sm_failed :: int

definition summary :: "int \<Rightarrow> db \<Rightarrow> job_summary" where
  "summary job_id d =
     (case job_get job_id d of
        None \<Rightarrow> \<lparr>sm_total = 0, sm_processed = 0, sm_success = 0, sm_skipped = 0, sm_failed = 0\<rparr>
      | Some r \<Rightarrow> \<lparr>sm_total = j_total r, sm_processed = j_processed r, sm_success = j_success r,
                   sm_skipped = j_skipped r, sm_failed = j_failed r\<rparr>)"

definition processed_user_ids_for_target :: "int \<Rightarrow> db \<Rightarrow> int list" where
  "processed_user_ids_for_target target_group_id d =
     remdups (concat (map (\<lambda>j. concat (map (\<lambda>mi.
        if i_job_id mi = j_id j \<and> i_state mi = IS_SUCCESS
        then List.map_filter (\<lambda>m. if m_id m = i_member_id mi then m_telegram_user_id m else None)
               (t_members d)
        else []) (t_migration_items d)))
       (filter (\<lambda>j. j_target_group_id j = Some target_group_id) (t_jobs d))))"

text \<open>
  A row of \<open>pending_chunk\<close>: the item joined with its member, and the access hash the account has
  cached for it.
\<close>

record pending_row =
  pr_ordinal :: int
  pr_member_id :: int
  pr_attempt_count :: int
  pr_telegram_user_id :: "int option"
  pr_username :: "string option"
  pr_first_name :: "string option"
  pr_last_name :: "string option"
  pr_phone :: "string option"
  pr_bot :: bool
  pr_deleted :: bool
  pr_activity_status :: "string option"
  pr_last_seen :: "string option"
  pr_account_access_hash :: "int option"

definition cached_hash :: "int \<Rightarrow> int option \<Rightarrow> db \<Rightarrow> int option" where
  "cached_hash account_id uid d =
     (case uid of
        None \<Rightarrow> None
      | Some u \<Rightarrow>
          (case find_row (\<lambda>p. p_account_id p = account_id \<and> p_peer_id p = u) (t_peer_cache d) of
             None \<Rightarrow> None
           | Some p \<Rightarrow> p_access_hash p))"

definition join_pending :: "int \<Rightarrow> db \<Rightarrow> item_row \<Rightarrow> pending_row option" where
  "join_pending account_id d mi =
     (case find_row (\<lambda>m. m_id m = i_member_id mi) (t_members d) of
        None \<Rightarrow> None
      | Some m \<Rightarrow> Some \<lparr>pr_ordinal = i_ordinal mi, pr_member_id = i_member_id mi,
          pr_attempt_count = i_attempt_count mi, pr_telegram_user_id = m_telegram_user_id m,
          pr_username = m_username m, pr_first_name = m_first_name m, pr_last_name = m_last_name m,
          pr_phone = m_phone m, pr_bot = m_bot m, pr_deleted = m_deleted m,
          pr_activity_status = m_activity_status m, pr_last_seen = m_last_seen m,
          pr_account_access_hash = cached_hash account_id (m_telegram_user_id m) d\<rparr>)"

definition pending_items :: "int \<Rightarrow> db \<Rightarrow> item_row list" where
  "pending_items job_id d =
     sort_key i_ordinal
       (filter (\<lambda>r. i_job_id r = job_id \<and> i_state r \<in> {IS_READY, IS_RETRY}) (t_migration_items d))"

definition pending_chunk :: "int \<Rightarrow> int \<Rightarrow> int \<Rightarrow> nat \<Rightarrow> db \<Rightarrow> pending_row list" where
  "pending_chunk job_id account_id last_ordinal limit d =
     take limit (List.map_filter (join_pending account_id d)
       (filter (\<lambda>r. last_ordinal < i_ordinal r) (pending_items job_id d)))"

section \<open>Writes\<close>

text \<open>The columns \<open>submit_set_state\<close> sets.\<close>

definition state_row ::
  "job_state \<Rightarrow> iso_text option \<Rightarrow> checkpoint option \<Rightarrow> bool \<Rightarrow> string \<Rightarrow> job_row \<Rightarrow> job_row" where
  "state_row state waiting_until checkpoint clear_waiting now r =
     (let r1 = r\<lparr>j_state := state\<rparr>;
          r2 = (if waiting_until \<noteq> None \<or> clear_waiting then r1\<lparr>j_waiting_until := waiting_until\<rparr>
                else r1);
          r3 = (case checkpoint of None \<Rightarrow> r2
                | Some c \<Rightarrow> r2\<lparr>j_checkpoint_json := Some (CkptJson c)\<rparr>);
          r4 = (if state = JS_RUNNING
                then r3\<lparr>j_started_at := (case j_started_at r of None \<Rightarrow> Some now | Some t \<Rightarrow> Some t)\<rparr>
                else r3)
      in if is_terminal state then r4\<lparr>j_finished_at := Some now\<rparr> else r4)"

definition submit_set_state ::
  "int \<Rightarrow> job_state \<Rightarrow> iso_text option \<Rightarrow> checkpoint option \<Rightarrow> bool \<Rightarrow> unit dbop" where
  "submit_set_state job_id state waiting_until checkpoint clear_waiting =
     update_jobs (\<lambda>r. j_id r = job_id)
       (\<lambda>d. state_row state waiting_until checkpoint clear_waiting (db_now d))"

lemma state_row_simps [simp]:
  "j_id (state_row s w c cl now r) = j_id r" "j_state (state_row s w c cl now r) = s"
  "j_account_id (state_row s w c cl now r) = j_account_id r"
  "j_source_dataset_id (state_row s w c cl now r) = j_source_dataset_id r"
  "j_target_group_id (state_row s w c cl now r) = j_target_group_id r"
  "j_waiting_until (state_row s w c cl now r) = (if w \<noteq> None \<or> cl then w else j_waiting_until r)"
  "j_checkpoint_json (state_row s w c cl now r) =
     (case c of None \<Rightarrow> j_checkpoint_json r | Some x \<Rightarrow> Some (CkptJson x))"
  by (auto simp: state_row_def Let_def split: option.splits)

definition submit_checkpoint :: "int \<Rightarrow> checkpoint \<Rightarrow> unit dbop" where
  "submit_checkpoint job_id checkpoint =
     update_jobs (\<lambda>r. j_id r = job_id) (\<lambda>d r. r\<lparr>j_checkpoint_json := Some (CkptJson checkpoint)\<rparr>)"

definition new_item :: "int \<Rightarrow> int \<Rightarrow> int \<times> target_member_state \<Rightarrow> item_row" where
  "new_item job_id i it =
     \<lparr>i_job_id = job_id, i_ordinal = i, i_member_id = fst it, i_target_state = snd it,
      i_state = IS_READY, i_attempt_count = 0, i_last_error_code = None, i_last_error_text = None,
      i_next_retry_at = None, i_processed_at = None\<rparr>"

fun number_items :: "int \<Rightarrow> int \<Rightarrow> (int \<times> target_member_state) list \<Rightarrow> item_row list" where
  "number_items job_id i [] = []"
| "number_items job_id i (it # its) = new_item job_id i it # number_items job_id (i + 1) its"

definition submit_add_items :: "int \<Rightarrow> (int \<times> target_member_state) list \<Rightarrow> unit dbop" where
  "submit_add_items job_id items =
     dbind (dfold insert_item_or_ignore (number_items job_id 0 items)) (\<lambda>_.
       update_jobs (\<lambda>r. j_id r = job_id) (\<lambda>d r. r\<lparr>j_total := int (length items)\<rparr>))"

definition updated_item :: "string \<Rightarrow> item_update \<Rightarrow> item_row \<Rightarrow> item_row" where
  "updated_item now u r =
     r\<lparr>i_state := iu_state u, i_attempt_count := iu_attempts u,
       i_last_error_code := iu_error_code u, i_last_error_text := iu_error_text u,
       i_processed_at := Some now\<rparr>"

lemma updated_item_keys [simp]:
  "i_job_id (updated_item t u r) = i_job_id r" "i_ordinal (updated_item t u r) = i_ordinal r"
  "i_member_id (updated_item t u r) = i_member_id r" "i_state (updated_item t u r) = iu_state u"
  "i_attempt_count (updated_item t u r) = iu_attempts u"
  by (simp_all add: updated_item_def)

definition apply_item_update :: "int \<Rightarrow> item_update \<Rightarrow> unit dbop" where
  "apply_item_update job_id u =
     update_items (\<lambda>r. i_job_id r = job_id \<and> i_ordinal r = iu_ordinal u)
       (\<lambda>d. updated_item (db_now d) u)"

text \<open>The effect of a list of updates on the item table.\<close>

definition items_after :: "string \<Rightarrow> int \<Rightarrow> item_update list \<Rightarrow> item_row list \<Rightarrow> item_row list" where
  "items_after now job_id us rows =
     fold (\<lambda>u. update_where (\<lambda>r. i_job_id r = job_id \<and> i_ordinal r = iu_ordinal u)
             (updated_item now u)) us rows"

definition count_items :: "int \<Rightarrow> item_state \<Rightarrow> db \<Rightarrow> int" where
  "count_items job_id st d =
     int (length (filter (\<lambda>r. i_job_id r = job_id \<and> i_state r = st) (t_migration_items d)))"

definition submit_update_items_batch ::
  "int \<Rightarrow> item_update list \<Rightarrow> checkpoint option \<Rightarrow> unit dbop" where
  "submit_update_items_batch job_id updates checkpoint =
     dbind (dfold (apply_item_update job_id) updates) (\<lambda>_.
     dbind (dselect (\<lambda>d. (count_items job_id IS_SUCCESS d, count_items job_id IS_SKIPPED d,
                          count_items job_id IS_FAILED d))) (\<lambda>(success, skipped, failed).
       update_jobs (\<lambda>r. j_id r = job_id) (\<lambda>d r.
         r\<lparr>j_processed := success + skipped + failed, j_success := success, j_skipped := skipped,
           j_failed := failed,
           j_checkpoint_json :=
             (case checkpoint of
                None \<Rightarrow> j_checkpoint_json r
              | Some c \<Rightarrow> if c = [] then j_checkpoint_json r else Some (CkptJson c))\<rparr>)))"

definition submit_mark_retry ::
  "int \<Rightarrow> int \<Rightarrow> int \<Rightarrow> string option \<Rightarrow> string option \<Rightarrow> iso_text option \<Rightarrow> unit dbop" where
  "submit_mark_retry job_id ordinal attempts error_code error_text next_retry_at =
     update_items (\<lambda>r. i_job_id r = job_id \<and> i_ordinal r = ordinal) (\<lambda>d r.
       r\<lparr>i_state := IS_RETRY, i_attempt_count := attempts, i_last_error_code := error_code,
         i_last_error_text := error_text, i_next_retry_at := next_retry_at\<rparr>)"

definition submit_event ::
  "int \<Rightarrow> string \<Rightarrow> string \<Rightarrow> string option \<Rightarrow> int option \<Rightarrow> int dbop" where
  "submit_event job_id level event_code message member_id d =
     insert_event (\<lambda>i. \<lparr>ev_id = i, ev_job_id = job_id, ev_timestamp = db_now d, ev_level = level,
        ev_event_code = event_code, ev_member_id = member_id, ev_message = message\<rparr>) d"

declare job_create_def [db_defs] submit_set_state_def [db_defs] submit_checkpoint_def [db_defs]
  submit_add_items_def [db_defs] apply_item_update_def [db_defs]
  submit_update_items_batch_def [db_defs] submit_mark_retry_def [db_defs]

section \<open>The writes keep the schema invariant\<close>

lemma job_create_wf [wf_intros]: "keeps_wf (job_create jb)"
  by (simp add: job_create_def insert_job_wf)

lemma submit_set_state_wf [wf_intros]: "keeps_wf (submit_set_state j s w c cl)"
  unfolding submit_set_state_def by (rule update_jobs_wf) simp_all

lemma submit_checkpoint_wf [wf_intros]: "keeps_wf (submit_checkpoint j c)"
  unfolding submit_checkpoint_def by (rule update_jobs_wf) auto

lemma submit_add_items_wf [wf_intros]: "keeps_wf (submit_add_items j its)"
  unfolding submit_add_items_def
  by (intro wf_intros update_jobs_wf) auto

lemma apply_item_update_wf [wf_intros]: "keeps_wf (apply_item_update j u)"
  unfolding apply_item_update_def by (rule update_items_wf) auto

lemma submit_update_items_batch_wf [wf_intros]: "keeps_wf (submit_update_items_batch j us c)"
  unfolding submit_update_items_batch_def
proof (intro keeps_wf_dbind keeps_wf_dfold apply_item_update_wf keeps_wf_dselect)
  fix x :: "int \<times> int \<times> int"
  obtain a b e where "x = (a, b, e)" by (cases x)
  then show "keeps_wf (case x of (success, skipped, failed) \<Rightarrow>
      update_jobs (\<lambda>r. j_id r = j) (\<lambda>d r.
         r\<lparr>j_processed := success + skipped + failed, j_success := success, j_skipped := skipped,
           j_failed := failed, j_checkpoint_json :=
             (case c of None \<Rightarrow> j_checkpoint_json r
              | Some c \<Rightarrow> if c = [] then j_checkpoint_json r else Some (CkptJson c))\<rparr>))"
    by (auto intro!: update_jobs_wf)
qed

lemma submit_mark_retry_wf [wf_intros]: "keeps_wf (submit_mark_retry j i a ec et n)"
  unfolding submit_mark_retry_def by (rule update_items_wf) auto

lemma submit_event_wf [wf_intros]: "keeps_wf (submit_event j l c m i)"
  by (rule keeps_wfI) (auto simp: submit_event_def intro: keeps_wfD [OF insert_event_wf])

section \<open>Reads after writes\<close>

lemma update_jobs_apply: "update_jobs p f d = Inr ((), d\<lparr>t_jobs := update_where p (f d) (t_jobs d)\<rparr>)"
  by (simp add: update_jobs_def)

lemma update_items_apply:
  "update_items p f d =
     Inr ((), d\<lparr>t_migration_items := update_where p (f d) (t_migration_items d)\<rparr>)"
  by (simp add: update_items_def)

lemma job_get_update:
  assumes "\<And>d r. j_id (f d r) = j_id r"
  shows "job_get k (d\<lparr>t_jobs := update_where (\<lambda>r. j_id r = i) (f d) (t_jobs d)\<rparr>) =
           (if k = i then map_option (f d) (job_get k d) else job_get k d)"
proof -
  have "find_row (\<lambda>r. j_id r = k) (update_where (\<lambda>r. j_id r = i) (f d) rows) =
          (if k = i then map_option (f d) (find_row (\<lambda>r. j_id r = k) rows)
           else find_row (\<lambda>r. j_id r = k) rows)" for rows
    using assms by (induction rows) auto
  then show ?thesis by (simp add: job_get_def)
qed

lemma job_get_SomeD: "job_get i d = Some r \<Longrightarrow> r \<in> set (t_jobs d) \<and> j_id r = i"
  by (auto simp: job_get_def dest: find_row_SomeD)

lemma job_get_row: "db_wf d \<Longrightarrow> r \<in> set (t_jobs d) \<Longrightarrow> job_get (j_id r) d = Some r"
  by (auto simp: job_get_def db_wf_def jobs_wf_def ids_ok_def intro: find_row_Some_key)

lemma apply_item_updates:
  "dfold (apply_item_update job_id) us d =
     Inr ((), d\<lparr>t_migration_items := items_after (db_now d) job_id us (t_migration_items d)\<rparr>)"
  by (induction us arbitrary: d)
    (simp_all add: apply_item_update_def update_items_apply dbind_def items_after_def)

lemma submit_update_items_batch_ok: "\<exists>d'. submit_update_items_batch j us c d = Inr ((), d')"
  by (simp add: submit_update_items_batch_def dbind_def apply_item_updates update_jobs_apply)

lemma submit_set_state_ok: "\<exists>d'. submit_set_state j s w c cl d = Inr ((), d')"
  by (simp add: submit_set_state_def update_jobs_apply)


section \<open>Counters\<close>

lemma count_items_frame [simp]:
  "count_items j st (d\<lparr>t_jobs := js\<rparr>) = count_items j st d"
  by (simp add: count_items_def)

lemma count_items_sum_le:
  "count_items j IS_SUCCESS d + count_items j IS_SKIPPED d + count_items j IS_FAILED d
     \<le> int (length (filter (\<lambda>r. i_job_id r = j) (t_migration_items d)))"
proof -
  have "length (filter (\<lambda>r. i_job_id r = j \<and> i_state r = IS_SUCCESS) rows) +
        length (filter (\<lambda>r. i_job_id r = j \<and> i_state r = IS_SKIPPED) rows) +
        length (filter (\<lambda>r. i_job_id r = j \<and> i_state r = IS_FAILED) rows)
          \<le> length (filter (\<lambda>r. i_job_id r = j) rows)" for rows
    by (induction rows) auto
  from this [of "t_migration_items d"] show ?thesis unfolding count_items_def by linarith
qed

lemma length_job_items_after:
  "length (filter (\<lambda>r. i_job_id r = j) (items_after t k us rows)) =
     length (filter (\<lambda>r. i_job_id r = j) rows)"
  by (induction us arbitrary: rows) (simp_all add: items_after_def length_filter_update_where)

text \<open>
  C33. Recording a batch of results never fails, and afterwards the counters of the job are exactly
  the numbers of its items in the three final states: processed is their sum and never exceeds the
  number of items of the job.
\<close>

theorem update_items_batch_counters:
  assumes "job_get job_id d = Some r"
  shows "\<exists>d' r'. submit_update_items_batch job_id updates checkpoint d = Inr ((), d') \<and>
    job_get job_id d' = Some r' \<and>
    j_success r' = count_items job_id IS_SUCCESS d' \<and>
    j_skipped r' = count_items job_id IS_SKIPPED d' \<and>
    j_failed r' = count_items job_id IS_FAILED d' \<and>
    j_processed r' = j_success r' + j_skipped r' + j_failed r' \<and>
    j_processed r' \<le> int (length (filter (\<lambda>i. i_job_id i = job_id) (t_migration_items d))) \<and>
    j_total r' = j_total r"
proof -
  obtain d1 where d1: "dfold (apply_item_update job_id) updates d = Inr ((), d1)"
    and jobs: "t_jobs d1 = t_jobs d"
    and len: "length (filter (\<lambda>i. i_job_id i = job_id) (t_migration_items d1)) =
              length (filter (\<lambda>i. i_job_id i = job_id) (t_migration_items d))"
    by (simp add: apply_item_updates length_job_items_after)
  let ?s = "count_items job_id IS_SUCCESS d1" and ?k = "count_items job_id IS_SKIPPED d1"
    and ?f = "count_items job_id IS_FAILED d1"
  let ?g = "\<lambda>d r. r\<lparr>j_processed := ?s + ?k + ?f, j_success := ?s, j_skipped := ?k, j_failed := ?f,
      j_checkpoint_json := (case checkpoint of None \<Rightarrow> j_checkpoint_json r
        | Some c \<Rightarrow> if c = [] then j_checkpoint_json r else Some (CkptJson c))\<rparr>"
  let ?d' = "d1\<lparr>t_jobs := update_where (\<lambda>r. j_id r = job_id) (?g d1) (t_jobs d1)\<rparr>"
  have run: "submit_update_items_batch job_id updates checkpoint d = Inr ((), ?d')"
    by (simp add: submit_update_items_batch_def dbind_def d1 update_jobs_apply)
  have "job_get job_id d1 = Some r" using assms jobs by (simp add: job_get_def)
  then have got: "job_get job_id ?d' = Some (?g d1 r)"
    using job_get_update [of ?g job_id job_id d1] by simp
  have "?s + ?k + ?f \<le> int (length (filter (\<lambda>i. i_job_id i = job_id) (t_migration_items d)))"
    using count_items_sum_le [of job_id d1] len by simp
  with run got show ?thesis by (intro exI [of _ ?d'] exI [of _ "?g d1 r"]) simp
qed

theorem update_items_batch_counters_witness:
  "job_get 1 sample_db \<noteq> None \<and>
   (\<exists>d' r'. submit_update_items_batch 1 [\<lparr>iu_ordinal = 0, iu_state = IS_SUCCESS, iu_attempts = 1,
        iu_error_code = None, iu_error_text = None\<rparr>] None sample_db = Inr ((), d') \<and>
      job_get 1 d' = Some r' \<and> j_processed r' \<le> 2)"
proof -
  let ?u = "[\<lparr>iu_ordinal = 0, iu_state = IS_SUCCESS, iu_attempts = 1,
        iu_error_code = None, iu_error_text = None\<rparr>]"
  have j: "\<exists>r. job_get 1 sample_db = Some r" by (simp add: job_get_def sample_defs)
  then obtain r where r: "job_get 1 sample_db = Some r" by blast
  have "int (length (filter (\<lambda>i. i_job_id i = 1) (t_migration_items sample_db))) = 2"
    by (simp add: sample_defs)
  with update_items_batch_counters [OF r, of ?u None] r show ?thesis by auto
qed

section \<open>Pending items\<close>

lemma pending_items_set:
  "set (pending_items j d) =
     {r \<in> set (t_migration_items d). i_job_id r = j \<and> i_state r \<in> {IS_READY, IS_RETRY}}"
  by (auto simp: pending_items_def)

lemma distinct_job_ordinals:
  "db_wf d \<Longrightarrow> distinct (map i_ordinal (filter (\<lambda>r. i_job_id r = j \<and> P r) (t_migration_items d)))"
proof -
  assume "db_wf d"
  then have d: "distinct (map (\<lambda>r. (i_job_id r, i_ordinal r)) (t_migration_items d))"
    by (simp add: db_wf_def items_wf_def)
  have "distinct (map (\<lambda>r. (i_job_id r, i_ordinal r)) rows) \<Longrightarrow>
      distinct (map i_ordinal (filter (\<lambda>r. i_job_id r = j \<and> P r) rows))" for rows :: "item_row list"
    by (induction rows) (auto simp: image_iff)
  with d show ?thesis by blast
qed

lemma pending_items_sorted: "db_wf d \<Longrightarrow> sorted_wrt (<) (map i_ordinal (pending_items j d))"
  unfolding pending_items_def by (intro strict_sorted_sort_key distinct_job_ordinals)

lemma join_pending_total:
  assumes "db_wf d" "r \<in> set (t_migration_items d)"
  shows "\<exists>p. join_pending a d r = Some p \<and> pr_ordinal p = i_ordinal r \<and> pr_member_id p = i_member_id r \<and>
             pr_attempt_count p = i_attempt_count r"
proof -
  from assms have "i_member_id r \<in> member_ids d" by (auto simp: db_wf_def items_wf_def)
  then have "find_row (\<lambda>m. m_id m = i_member_id r) (t_members d) \<noteq> None"
    by (auto simp: find_row_None_iff)
  then show ?thesis by (auto simp: join_pending_def)
qed

lemma map_filter_total:
  "(\<And>x. x \<in> set xs \<Longrightarrow> f x \<noteq> None) \<Longrightarrow> List.map_filter f xs = map (\<lambda>x. the (f x)) xs"
  by (induction xs) (auto simp: List.map_filter_simps split: option.splits)

definition pending_rows :: "int \<Rightarrow> int \<Rightarrow> db \<Rightarrow> pending_row list" where
  "pending_rows job_id account_id d =
     map (\<lambda>r. the (join_pending account_id d r)) (pending_items job_id d)"

lemma pending_rows_ordinals:
  assumes "db_wf d"
  shows "map pr_ordinal (pending_rows j a d) = map i_ordinal (pending_items j d)"
proof -
  have "pr_ordinal (the (join_pending a d r)) = i_ordinal r" if "r \<in> set (pending_items j d)" for r
    using join_pending_total [OF assms, of r a] that by (auto simp: pending_items_set)
  then show ?thesis by (simp add: pending_rows_def)
qed

lemma pending_chunk_eq:
  assumes "db_wf d"
  shows "pending_chunk j a lo limit d =
           take limit (filter (\<lambda>p. lo < pr_ordinal p) (pending_rows j a d))"
proof -
  have tot: "join_pending a d r \<noteq> None" "pr_ordinal (the (join_pending a d r)) = i_ordinal r"
    if "r \<in> set (pending_items j d)" for r
    using join_pending_total [OF assms, of r a] that by (auto simp: pending_items_set)
  have "List.map_filter (join_pending a d) (filter (\<lambda>r. lo < i_ordinal r) (pending_items j d)) =
        map (\<lambda>r. the (join_pending a d r)) (filter (\<lambda>r. lo < i_ordinal r) (pending_items j d))"
    by (rule map_filter_total) (auto simp: tot)
  also have "\<dots> = filter (\<lambda>p. lo < pr_ordinal p) (pending_rows j a d)"
    unfolding pending_rows_def filter_map comp_def
    by (rule arg_cong [where f = "map _"], rule filter_cong) (auto simp: tot)
  finally show ?thesis by (simp add: pending_chunk_def)
qed

end
