(* ===== verification/Account_Store.thy ===== *)
theory Account_Store
  imports Job_Store
begin

text \<open>
  \<open>accounts/models.py\<close>, \<open>accounts/repository.py\<close>, \<open>accounts/v12_repository.py\<close> and
  \<open>accounts/service.py\<close>: accounts, their V1.2 connection and operation states, their restrictions,
  and the guarded deletion.  The session files of \<open>AccountService.delete\<close> are a list of paths.
\<close>

section \<open>The repository\<close>

record account =
  ac_id :: "int option"
  ac_phone :: string
  ac_session_path :: string
  ac_telegram_user_id :: "int option"
  ac_username :: "string option"
  ac_display_name :: "string option"
  ac_status :: account_state
  ac_enabled :: bool
  ac_last_error :: "string option"

definition row_account :: "account_row \<Rightarrow> account" where
  "row_account r =
     \<lparr>ac_id = Some (a_id r), ac_phone = a_phone r, ac_session_path = a_session_path r,
      ac_telegram_user_id = a_telegram_user_id r, ac_username = a_username r,
      ac_display_name = a_display_name r, ac_status = a_status r, ac_enabled = a_enabled r,
      ac_last_error = a_last_error r\<rparr>"

definition account_create :: "account \<Rightarrow> int dbop" where
  "account_create ac =
     insert_account (\<lambda>i. \<lparr>a_id = i, a_phone = ac_phone ac, a_telegram_user_id = None,
        a_username = None, a_display_name = None, a_session_path = ac_session_path ac,
        a_status = ac_status ac, a_enabled = ac_enabled ac, a_last_connected_at = None,
        a_last_error = None, a_connection_state = CS_DISCONNECTED, a_operation_state = OS_IDLE\<rparr>)"

definition account_row_of :: "int \<Rightarrow> db \<Rightarrow> account_row option" where
  "account_row_of account_id d = find_row (\<lambda>r. a_id r = account_id) (t_accounts d)"

definition account_get :: "int \<Rightarrow> db \<Rightarrow> account option" where
  "account_get account_id d = map_option row_account (account_row_of account_id d)"

definition account_list_all :: "db \<Rightarrow> account list" where
  "account_list_all d = map row_account (sort_key a_id (t_accounts d))"

definition account_set_state :: "int \<Rightarrow> account_state \<Rightarrow> string option \<Rightarrow> unit dbop" where
  "account_set_state account_id state error =
     update_accounts (\<lambda>r. a_id r = account_id) (\<lambda>d r. r\<lparr>a_status := state, a_last_error := error\<rparr>)"

definition account_update_identity ::
  "int \<Rightarrow> int option \<Rightarrow> string option \<Rightarrow> string option \<Rightarrow> unit dbop" where
  "account_update_identity account_id user_id username display_name =
     update_accounts (\<lambda>r. a_id r = account_id) (\<lambda>d r.
       r\<lparr>a_telegram_user_id := user_id, a_username := username, a_display_name := display_name,
         a_status := AS_READY, a_last_error := None, a_last_connected_at := Some (db_now d)\<rparr>)"

definition account_enable :: "int \<Rightarrow> bool \<Rightarrow> unit dbop" where
  "account_enable account_id enabled =
     (let state = (if enabled then AS_DISCONNECTED else AS_DISABLED) in
      update_accounts (\<lambda>r. a_id r = account_id) (\<lambda>d r. r\<lparr>a_enabled := enabled, a_status := state\<rparr>))"

definition account_delete :: "int \<Rightarrow> unit dbop" where
  "account_delete account_id =
     dbind (dselect (\<lambda>d. filter (\<lambda>r. j_account_id r = Some account_id) (t_jobs d))) (\<lambda>rows.
     if \<exists>r \<in> set rows. \<not> is_terminal (j_state r)
     then draise (RuntimeError ''Account has non-terminal jobs'')
     else dbind (update_jobs (\<lambda>r. j_account_id r = Some account_id) (\<lambda>d r. r\<lparr>j_account_id := None\<rparr>))
            (\<lambda>_. delete_account_row account_id))"

section \<open>The V1.2 repository\<close>

definition split_state :: "account_state \<Rightarrow> connection_state \<times> operation_state" where
  "split_state state =
     (if state = AS_CONNECTING then (CS_CONNECTING, OS_IDLE)
      else if state = AS_AUTH_REQUIRED then (CS_AUTH_REQUIRED, OS_IDLE)
      else if state = AS_DISABLED then (CS_DISABLED, OS_IDLE)
      else if state = AS_DISCONNECTED then (CS_DISCONNECTED, OS_IDLE)
      else if state = AS_BUSY then (CS_READY, OS_RUNNING)
      else if state = AS_WAITING_SERVER then (CS_READY, OS_WAITING_SERVER)
      else if state = AS_ERROR then (CS_ERROR, OS_PAUSED)
      else (CS_READY, OS_IDLE))"

definition account_set_state_v12 :: "int \<Rightarrow> account_state \<Rightarrow> string option \<Rightarrow> unit dbop" where
  "account_set_state_v12 account_id state error =
     (case split_state state of (connection, operation) \<Rightarrow>
      update_accounts (\<lambda>r. a_id r = account_id) (\<lambda>d r.
        r\<lparr>a_status := state, a_connection_state := connection, a_operation_state := operation,
          a_last_error := error\<rparr>))"

text \<open>The active restriction rows of an account, newest first.\<close>

definition active_restrictions :: "int \<Rightarrow> db \<Rightarrow> restriction_row list" where
  "active_restrictions account_id d =
     order_desc ar_id
       (filter (\<lambda>r. ar_account_id r = account_id \<and> ar_cleared_at r = None) (t_account_restrictions d))"

definition submit_restriction ::
  "int \<Rightarrow> string \<Rightarrow> string \<Rightarrow> int option \<Rightarrow> string option \<Rightarrow> string option \<Rightarrow> unit dbop" where
  "submit_restriction account_id action_type restriction_type rpc_code exception_name request_type =
     dbind (dselect (\<lambda>d. filter (\<lambda>r. ar_action_type r = action_type \<and>
              ar_restriction_type r = restriction_type) (active_restrictions account_id d))) (\<lambda>rows.
     case rows of
       row # _ \<Rightarrow>
         update_restrictions (\<lambda>r. ar_id r = ar_id row) (\<lambda>d r.
           r\<lparr>ar_rpc_code := rpc_code, ar_exception_name := exception_name,
             ar_request_type := request_type\<rparr>)
     | [] \<Rightarrow>
         dbind (insert_restriction (\<lambda>i. \<lparr>ar_id = i, ar_account_id = account_id,
             ar_action_type = action_type, ar_restriction_type = restriction_type,
             ar_rpc_code = rpc_code, ar_exception_name = exception_name,
             ar_request_type = request_type, ar_cleared_at = None\<rparr>)) (\<lambda>_. dreturn ()))"

section \<open>The service\<close>

definition is_digit :: "char \<Rightarrow> bool" where
  "is_digit c = (let n = (of_char c :: nat) in 48 \<le> n \<and> n \<le> 57)"

text \<open>\<open>re.fullmatch(r'\+?\d{7,16}', clean)\<close>.\<close>

definition phone_ok :: "string \<Rightarrow> bool" where
  "phone_ok clean =
     (let digits = (case clean of c # cs \<Rightarrow> if c = CHR ''+'' then cs else clean | [] \<Rightarrow> clean)
      in list_all is_digit digits \<and> 7 \<le> length digits \<and> length digits \<le> 16)"

definition account_add :: "string \<Rightarrow> string \<Rightarrow> account dbop" where
  "account_add sessions_dir phone =
     (let clean = py_strip phone in
      if \<not> phone_ok clean then draise (ValueError ''Invalid phone number'')
      else
        let safe = filter is_digit clean;
            account = \<lparr>ac_id = None, ac_phone = clean,
              ac_session_path = sessions_dir @ ''/'' @ safe @ ''.session'',
              ac_telegram_user_id = None, ac_username = None, ac_display_name = None,
              ac_status = AS_DISCONNECTED, ac_enabled = True, ac_last_error = None\<rparr>
        in dbind (account_create account) (\<lambda>i. dreturn (account\<lparr>ac_id := Some i\<rparr>)))"

text \<open>
  The files that exist, and the paths whose removal the operating system refuses; the loop ignores
  a refusal and a missing file alike.
\<close>

definition session_files :: "string \<Rightarrow> string list" where
  "session_files p = [p, p @ ''-journal'', p @ ''-wal'', p @ ''-shm'']"

definition service_delete ::
  "(string \<Rightarrow> bool) \<Rightarrow> int \<Rightarrow> db \<times> string list \<Rightarrow> exn + (db \<times> string list)" where
  "service_delete refuses account_id s =
     (let account = account_get account_id (fst s) in
      bindR (account_delete account_id (fst s)) (\<lambda>(_, d').
        Inr (d', case account of
                   None \<Rightarrow> snd s
                 | Some ac \<Rightarrow> filter (\<lambda>f. f \<notin> set (session_files (ac_session_path ac)) \<or> refuses f) (snd s))))"

declare account_create_def [db_defs] account_set_state_def [db_defs]
  account_update_identity_def [db_defs] account_enable_def [db_defs]
  account_set_state_v12_def [db_defs]

section \<open>They keep the schema invariant\<close>

lemma account_writes_wf [wf_intros]:
  "keeps_wf (account_create ac)" "keeps_wf (account_set_state i s e)"
  "keeps_wf (account_update_identity i u n nm)" "keeps_wf (account_enable i b)"
  "keeps_wf (account_set_state_v12 i s e)"
  by (auto simp: db_defs Let_def split_state_def intro!: insert_account_wf update_accounts_wf)

lemma account_delete_wf [wf_intros]: "keeps_wf (account_delete i)"
  unfolding account_delete_def
  by (intro keeps_wf_dbind keeps_wf_dselect keeps_wf_if keeps_wf_draise delete_account_row_wf
      update_jobs_wf) auto

lemma submit_restriction_wf [wf_intros]: "keeps_wf (submit_restriction a t r c e q)"
  unfolding submit_restriction_def
proof (rule keeps_wf_dbind [OF keeps_wf_dselect])
  fix rows :: "restriction_row list"
  show "keeps_wf (case rows of
       row # x \<Rightarrow> update_restrictions (\<lambda>r. ar_id r = ar_id row) (\<lambda>d r.
           r\<lparr>ar_rpc_code := c, ar_exception_name := e, ar_request_type := q\<rparr>)
     | [] \<Rightarrow> dbind (insert_restriction (\<lambda>i. \<lparr>ar_id = i, ar_account_id = a,
             ar_action_type = t, ar_restriction_type = r, ar_rpc_code = c, ar_exception_name = e,
             ar_request_type = q, ar_cleared_at = None\<rparr>)) (\<lambda>_. dreturn ()))"
    by (cases rows) (auto intro!: wf_intros update_restrictions_wf)
qed

lemma account_add_wf [wf_intros]: "keeps_wf (account_add dir phone)"
  unfolding account_add_def Let_def by (intro wf_intros)

section \<open>Deletion\<close>

lemma image_filter_neq: "k ` set (filter (\<lambda>r. k r \<noteq> i) rows) = k ` set rows - {i}"
  by auto

text \<open>
  C27. Deleting an account is refused, and changes nothing, exactly when it has a job that is not in a
  terminal state; otherwise it always succeeds: the account, its cached peers and its restrictions
  are gone, and every job, item and event is kept, with no job referring to the account.
\<close>

theorem account_delete_outcome:
  "if has_nonterminal_jobs i d
   then account_delete i d = Inl (RuntimeError ''Account has non-terminal jobs'')
   else \<exists>d'. account_delete i d = Inr ((), d') \<and>
     account_ids d' = account_ids d - {i} \<and>
     i \<notin> p_account_id ` set (t_peer_cache d') \<and>
     i \<notin> ar_account_id ` set (t_account_restrictions d') \<and>
     Some i \<notin> j_account_id ` set (t_jobs d') \<and>
     map (\<lambda>j. (j_id j, j_state j)) (t_jobs d') = map (\<lambda>j. (j_id j, j_state j)) (t_jobs d) \<and>
     t_migration_items d' = t_migration_items d \<and> t_job_events d' = t_job_events d"
proof -
  have guard: "(\<exists>r \<in> set (filter (\<lambda>r. j_account_id r = Some i) (t_jobs d)). \<not> is_terminal (j_state r)) =
      has_nonterminal_jobs i d"
    by (auto simp: has_nonterminal_jobs_def)
  let ?jobs = "update_where (\<lambda>r. j_account_id r = Some i) (\<lambda>r. r\<lparr>j_account_id := None\<rparr>) (t_jobs d)"
  have none: "Some i \<notin> j_account_id ` set ?jobs" by (auto simp: set_update_where)
  have keep: "map (\<lambda>j. (j_id j, j_state j)) ?jobs = map (\<lambda>j. (j_id j, j_state j)) (t_jobs d)"
    by (rule map_update_where_key) simp
  show ?thesis
  proof (cases "has_nonterminal_jobs i d")
    case True
    then show ?thesis unfolding account_delete_def dbind_dselect guard by simp
  next
    case False
    let ?d' = "d\<lparr>t_jobs := ?jobs, t_accounts := filter (\<lambda>r. a_id r \<noteq> i) (t_accounts d),
      t_peer_cache := filter (\<lambda>r. p_account_id r \<noteq> i) (t_peer_cache d),
      t_account_restrictions := filter (\<lambda>r. ar_account_id r \<noteq> i) (t_account_restrictions d)\<rparr>"
    have free: "\<not> (\<exists>j \<in> set ?jobs. j_account_id j = Some i)" using none by force
    have run: "account_delete i d = Inr ((), ?d')"
      using False unfolding account_delete_def dbind_dselect guard
      by (simp add: update_jobs_apply delete_account_row_def free)
    have ids: "account_ids ?d' = account_ids d - {i}" by auto
    have gone: "i \<notin> p_account_id ` set (t_peer_cache ?d')"
        "i \<notin> ar_account_id ` set (t_account_restrictions ?d')"
      by (simp_all add: image_iff)
    show ?thesis
      unfolding if_not_P [OF False]
      by (intro exI [of _ ?d'] conjI run ids gone) (use none keep in simp_all)
  qed
qed

section \<open>Restrictions\<close>

definition restriction_key :: "restriction_row \<Rightarrow> int \<times> string \<times> string" where
  "restriction_key r = (ar_account_id r, ar_action_type r, ar_restriction_type r)"

definition active_unique :: "db \<Rightarrow> bool" where
  "active_unique d =
     distinct (map restriction_key (filter (\<lambda>r. ar_cleared_at r = None) (t_account_restrictions d)))"

lemma active_restrictions_set:
  "set (active_restrictions a d) =
     {r \<in> set (t_account_restrictions d). ar_account_id r = a \<and> ar_cleared_at r = None}"
  by (auto simp: active_restrictions_def order_desc_def)

lemma filter_update_where_same:
  "(\<And>r. p r \<Longrightarrow> q (f r) = q r) \<Longrightarrow>
     filter q (update_where p f rows) = update_where p f (filter q rows)"
  by (induction rows) auto

lemma filter_order_desc: "filter P (order_desc k rows) = order_desc k (filter P rows)"
  by (simp add: order_desc_def filter_sort flip: rev_filter)

lemma order_desc_single [simp]: "order_desc k [x] = [x]" "order_desc k [] = []"
  by (simp_all add: order_desc_def)

lemma keyed_active:
  "filter (\<lambda>x. ar_action_type x = act \<and> ar_restriction_type x = kind) (active_restrictions a d) =
   order_desc ar_id (filter (\<lambda>r. restriction_key r = (a, act, kind))
     (filter (\<lambda>r. ar_cleared_at r = None) (t_account_restrictions d)))"
  unfolding active_restrictions_def filter_order_desc filter_filter
  by (rule arg_cong [where f = "order_desc ar_id"], rule filter_cong) (auto simp: restriction_key_def)

lemma distinct_key_filter:
  "distinct (map k rows) \<Longrightarrow> filter (\<lambda>r. k r = v) rows = [] \<or> (\<exists>x. filter (\<lambda>r. k r = v) rows = [x])"
proof (induction rows)
  case (Cons r rows)
  show ?case
  proof (cases "k r = v")
    case True
    with Cons.prems have "filter (\<lambda>r. k r = v) rows = []" by (auto simp: filter_empty_conv rev_image_eqI)
    with True show ?thesis by simp
  next
    case False
    with Cons show ?thesis by simp
  qed
qed simp

text \<open>
  C34. Recording a restriction keeps at most one active row per account, action and kind: a first
  occurrence inserts a row, a repetition refreshes the one that exists, and in both cases exactly
  one active row carries the key, with the details of the last report.
\<close>

theorem submit_restriction_single_active:
  assumes "active_unique d" "a \<in> account_ids d"
  shows "\<exists>d' r. submit_restriction a act kind rpc ex req d = Inr ((), d') \<and> active_unique d' \<and>
    filter (\<lambda>x. ar_action_type x = act \<and> ar_restriction_type x = kind) (active_restrictions a d') = [r] \<and>
    ar_rpc_code r = rpc \<and> ar_exception_name r = ex \<and> ar_request_type r = req"
proof -
  let ?act = "\<lambda>r. ar_cleared_at r = None" and ?T = "t_account_restrictions d"
  let ?q = "\<lambda>r. restriction_key r = (a, act, kind)"
  consider "filter ?q (filter ?act ?T) = []" | x where "filter ?q (filter ?act ?T) = [x]"
    using distinct_key_filter [of restriction_key "filter ?act ?T" "(a, act, kind)"] assms(1)
    by (auto simp: active_unique_def simp del: filter_filter)
  then show ?thesis
  proof cases
    case 1
    let ?r = "\<lparr>ar_id = seq_account_restrictions d + 1, ar_account_id = a, ar_action_type = act,
      ar_restriction_type = kind, ar_rpc_code = rpc, ar_exception_name = ex,
      ar_request_type = req, ar_cleared_at = None\<rparr>"
    let ?d' = "d\<lparr>t_account_restrictions := ?T @ [?r],
      seq_account_restrictions := seq_account_restrictions d + 1\<rparr>"
    have "submit_restriction a act kind rpc ex req d = Inr ((), ?d')"
      using assms(2) unfolding submit_restriction_def dbind_dselect keyed_active 1
      by (simp add: insert_restriction_def Let_def dbind_def)
    moreover have "active_unique ?d'"
      using assms(1) 1 by (auto simp: active_unique_def restriction_key_def filter_empty_conv)
    moreover have "filter ?q (filter ?act (t_account_restrictions ?d')) = [?r]"
      using 1 by (simp add: restriction_key_def)
    ultimately show ?thesis
      by (intro exI [of _ ?d'] exI [of _ ?r]) (simp add: keyed_active del: filter_filter)
  next
    case 2
    let ?f = "\<lambda>r. r\<lparr>ar_rpc_code := rpc, ar_exception_name := ex, ar_request_type := req\<rparr>"
    let ?T' = "update_where (\<lambda>r. ar_id r = ar_id x) ?f ?T"
    let ?d' = "d\<lparr>t_account_restrictions := ?T'\<rparr>"
    have run: "submit_restriction a act kind rpc ex req d = Inr ((), ?d')"
      unfolding submit_restriction_def dbind_dselect keyed_active 2
      by (simp add: update_restrictions_def)
    have active: "filter ?act ?T' = update_where (\<lambda>r. ar_id r = ar_id x) ?f (filter ?act ?T)"
      by (rule filter_update_where_same) simp
    have "filter ?q (filter ?act ?T') = update_where (\<lambda>r. ar_id r = ar_id x) ?f (filter ?q (filter ?act ?T))"
      unfolding active by (rule filter_update_where_same) (simp add: restriction_key_def)
    then have one: "filter ?q (filter ?act ?T') = [?f x]" by (simp only: 2) simp
    have "map restriction_key (filter ?act ?T') = map restriction_key (filter ?act ?T)"
      unfolding active by (rule map_update_where_key) (simp add: restriction_key_def)
    then have "active_unique ?d'" using assms(1) by (simp add: active_unique_def)
    with run one show ?thesis
      by (intro exI [of _ ?d'] exI [of _ "?f x"]) (simp add: keyed_active del: filter_filter)
  qed
qed

theorem submit_restriction_single_active_witness:
  "active_unique sample_db \<and> 1 \<in> account_ids sample_db \<and>
   (\<exists>d' r. submit_restriction 1 ''INVITE'' ''RATE_LIMIT'' (Some 420) None None sample_db = Inr ((), d') \<and>
      filter (\<lambda>x. ar_action_type x = ''INVITE'' \<and> ar_restriction_type x = ''RATE_LIMIT'')
        (active_restrictions 1 d') = [r] \<and> ar_rpc_code r = Some 420)"
proof -
  have u: "active_unique sample_db" and a: "1 \<in> account_ids sample_db"
    by (simp_all add: sample_defs active_unique_def)
  from submit_restriction_single_active [OF this, of "''INVITE''" "''RATE_LIMIT''" "Some 420" None None] u a
  show ?thesis by blast
qed

section \<open>States and new accounts\<close>

text \<open>The pair of V1.2 states determines the account state it was split from.\<close>

lemma split_state_inj: "split_state s = split_state t \<Longrightarrow> s = t"
  by (cases s; cases t) (simp_all add: split_state_def)

lemma account_add_get:
  assumes "db_wf d" "account_add dir phone d = Inr (ac, d')"
  shows "\<exists>i. ac_id ac = Some i \<and> account_get i d' = Some ac \<and> i \<notin> account_ids d"
proof -
  have "seq_accounts d + 1 \<notin> account_ids d"
    using assms(1) by (force simp: db_wf_def accounts_wf_def ids_ok_def)
  moreover from this have "find_row (\<lambda>r. a_id r = seq_accounts d + 1) (t_accounts d) = None"
    by (force simp: find_row_None_iff)
  ultimately show ?thesis
    using assms(2)
    by (auto simp: account_add_def Let_def dbind_Inr account_create_def insert_account_def account_get_def
        account_row_of_def find_row_append row_account_def split: if_splits)
qed

end
