(* ===== verification/Members.thy ===== *)
theory Members
  imports Core_Types
begin

text \<open>
  \<open>members/models.py\<close>, \<open>members/filter_spec.py\<close>, \<open>members/filter_engine.py\<close> and
  \<open>members/normalizer.py\<close>: the member value, its identity key, the local filter and the
  normalisation of a raw Telegram user.
\<close>

section \<open>Members and their identity (members/models.py)\<close>

record member =
  mb_telegram_user_id :: "int option"
  mb_username :: "string option"
  mb_first_name :: "string option"
  mb_last_name :: "string option"
  mb_phone :: "string option"
  mb_bot :: bool
  mb_deleted :: bool
  mb_activity_status :: "string option"
  mb_last_seen :: "string option"
  mb_access_hash :: "int option"

text \<open>
  The tuples \<open>("id", str(user_id))\<close> and \<open>("username", name)\<close>: the tag is the constructor, and the
  decimal text of an integer stands for the integer.
\<close>

datatype identity_key = KeyId int | KeyUsername string

definition identity_key :: "member \<Rightarrow> identity_key option" where
  "identity_key m =
     (case mb_telegram_user_id m of
        Some uid \<Rightarrow> Some (KeyId uid)
      | None \<Rightarrow>
          if truthy_str (mb_username m)
          then Some (KeyUsername (py_lstrip_char (CHR ''@'') (py_lower (or_empty (mb_username m)))))
          else None)"

section \<open>Filters (members/filter_spec.py, members/filter_engine.py)\<close>

record filter_spec =
  fs_exclude_bot :: bool
  fs_exclude_deleted :: bool
  fs_username_required :: bool
  fs_activity :: "string list"
  fs_source :: "string list"
  fs_exclude_processed :: "int list"
  fs_exclude_target :: "int list"

definition FilterSpec :: filter_spec where
  "FilterSpec =
     \<lparr>fs_exclude_bot = True, fs_exclude_deleted = True, fs_username_required = False,
      fs_activity = [], fs_source = [], fs_exclude_processed = [], fs_exclude_target = []\<rparr>"

definition filter_keeps :: "filter_spec \<Rightarrow> member \<Rightarrow> bool" where
  "filter_keeps spec m =
     (if fs_exclude_bot spec \<and> mb_bot m then False
      else if fs_exclude_deleted spec \<and> mb_deleted m then False
      else if fs_username_required spec \<and> \<not> truthy_str (mb_username m) then False
      else if fs_activity spec \<noteq> [] \<and> or_empty (mb_activity_status m) \<notin> set (fs_activity spec) then False
      else (case mb_telegram_user_id m of
              None \<Rightarrow> True
            | Some uid \<Rightarrow>
                if uid \<in> set (fs_exclude_processed spec) then False
                else if uid \<in> set (fs_exclude_target spec) then False
                else True))"

text \<open>The loop of \<open>FilterEngine.apply\<close>, with the set \<open>seen\<close> of identity keys met so far.\<close>

fun filter_loop :: "filter_spec \<Rightarrow> identity_key list \<Rightarrow> member list \<Rightarrow> member list" where
  "filter_loop spec seen [] = []"
| "filter_loop spec seen (m # ms) =
     (case identity_key m of
        None \<Rightarrow> filter_loop spec seen ms
      | Some key \<Rightarrow>
          if key \<in> set seen then filter_loop spec seen ms
          else if filter_keeps spec m then m # filter_loop spec (key # seen) ms
          else filter_loop spec (key # seen) ms)"

definition filter_apply :: "member list \<Rightarrow> filter_spec \<Rightarrow> member list" where
  "filter_apply members spec = filter_loop spec [] members"

section \<open>Normalisation of a Telegram user (members/normalizer.py)\<close>

text \<open>
  The attributes \<open>normalize_member\<close> reads, each \<open>None\<close> when the object has no such attribute.  A
  \<open>datetime\<close> is represented by its ISO text; a status object by its class name and its
  \<open>was_online\<close> attribute.
\<close>

datatype was_online = WO_datetime string | WO_value string

record raw_user =
  ru_id :: "int option"
  ru_username :: "string option"
  ru_first_name :: "string option"
  ru_last_name :: "string option"
  ru_phone :: "string option"
  ru_bot :: "bool option"
  ru_deleted :: "bool option"
  ru_status :: "(string \<times> was_online option) option"
  ru_access_hash :: "int option"

definition attr_true :: "bool option \<Rightarrow> bool" where
  "attr_true v = (case v of None \<Rightarrow> False | Some b \<Rightarrow> b)"

definition normalize_member :: "raw_user \<Rightarrow> member" where
  "normalize_member raw =
     (let last_seen =
            (case ru_status raw of
               None \<Rightarrow> None
             | Some (_, w) \<Rightarrow>
                 (case w of None \<Rightarrow> None | Some (WO_datetime t) \<Rightarrow> Some t | Some (WO_value t) \<Rightarrow> Some t))
      in \<lparr>mb_telegram_user_id = ru_id raw, mb_username = ru_username raw,
          mb_first_name = ru_first_name raw, mb_last_name = ru_last_name raw,
          mb_phone = ru_phone raw, mb_bot = attr_true (ru_bot raw),
          mb_deleted = attr_true (ru_deleted raw),
          mb_activity_status = map_option fst (ru_status raw), mb_last_seen = last_seen,
          mb_access_hash = ru_access_hash raw\<rparr>)"

section \<open>The filter against its specification\<close>

text \<open>
  The reference: keep the first member of each identity key, drop members without a key, then
  filter by the criteria.
\<close>

fun first_occurrences :: "('a \<Rightarrow> 'k option) \<Rightarrow> 'a list \<Rightarrow> 'a list" where
  "first_occurrences key [] = []"
| "first_occurrences key (x # xs) =
     (case key x of
        None \<Rightarrow> first_occurrences key xs
      | Some k \<Rightarrow> x # filter (\<lambda>y. key y \<noteq> Some k) (first_occurrences key xs))"

lemma first_occurrences_key: "x \<in> set (first_occurrences key xs) \<Longrightarrow> key x \<noteq> None \<and> x \<in> set xs"
  by (induction xs) (auto split: option.splits)

lemma first_occurrences_distinct: "distinct (map key (first_occurrences key xs))"
  by (induction xs) (auto simp: distinct_map_filter split: option.splits)

lemma first_occurrences_covers: "x \<in> set xs \<Longrightarrow> key x \<noteq> None \<Longrightarrow> key x \<in> key ` set (first_occurrences key xs)"
proof (induction xs)
  case (Cons y ys)
  show ?case
  proof (cases "key y")
    case None
    with Cons show ?thesis by auto
  next
    case (Some k)
    show ?thesis
    proof (cases "key x = Some k")
      case True
      with Some show ?thesis by (auto intro: rev_image_eqI)
    next
      case False
      with Cons Some have "key x \<in> key ` set (first_occurrences key ys)" by auto
      with Some False show ?thesis by (force simp: image_iff)
    qed
  qed
qed simp

lemma filter_loop_seen:
  "filter_loop spec seen ms =
     filter (filter_keeps spec)
       (filter (\<lambda>m. identity_key m \<notin> Some ` set seen) (first_occurrences identity_key ms))"
proof (induction spec seen ms rule: filter_loop.induct)
  case (2 spec seen m ms)
  show ?case
  proof (cases "identity_key m")
    case None
    with 2 show ?thesis by simp
  next
    case (Some key)
    show ?thesis
    proof (cases "key \<in> set seen")
      case True
      have "filter (\<lambda>y. identity_key y \<notin> Some ` set seen)
              (filter (\<lambda>y. identity_key y \<noteq> Some key) (first_occurrences identity_key ms)) =
            filter (\<lambda>y. identity_key y \<notin> Some ` set seen) (first_occurrences identity_key ms)"
        using True by (auto intro!: filter_cong simp: image_iff)
      with True Some 2(2) [OF Some True] show ?thesis by (auto simp: image_iff)
    next
      case False
      have "filter (\<lambda>y. identity_key y \<notin> Some ` set (key # seen)) (first_occurrences identity_key ms) =
            filter (\<lambda>y. identity_key y \<notin> Some ` set seen)
              (filter (\<lambda>y. identity_key y \<noteq> Some key) (first_occurrences identity_key ms))"
        by (auto intro!: filter_cong simp: image_iff)
      with False Some 2(3,4) show ?thesis by (auto simp: image_iff)
    qed
  qed
qed simp

text \<open>
  C32. \<open>FilterEngine.apply\<close> computes its specification: the first member of every identity key, in
  source order, kept when it meets the criteria.  So no identity occurs twice in the result, every
  result meets the criteria, and an identity is missing only when it has no key or its first
  member fails the criteria.
\<close>

theorem filter_apply_spec:
  "filter_apply ms spec = filter (filter_keeps spec) (first_occurrences identity_key ms) \<and>
   distinct (map identity_key (filter_apply ms spec)) \<and>
   set (filter_apply ms spec) \<subseteq> {m \<in> set ms. filter_keeps spec m \<and> identity_key m \<noteq> None} \<and>
   {m \<in> set ms. identity_key m \<noteq> None} \<subseteq>
     {m. \<exists>m' \<in> set (first_occurrences identity_key ms).
           identity_key m' = identity_key m \<and> (filter_keeps spec m' \<longleftrightarrow> m' \<in> set (filter_apply ms spec))}"
proof -
  have eq: "filter_apply ms spec = filter (filter_keeps spec) (first_occurrences identity_key ms)"
    by (simp add: filter_apply_def filter_loop_seen)
  moreover have "distinct (map identity_key (filter_apply ms spec))"
    by (simp add: eq distinct_map_filter first_occurrences_distinct)
  moreover have "set (filter_apply ms spec) \<subseteq> {m \<in> set ms. filter_keeps spec m \<and> identity_key m \<noteq> None}"
    using first_occurrences_key [of _ identity_key ms] by (auto simp: eq)
  moreover have "{m \<in> set ms. identity_key m \<noteq> None} \<subseteq>
     {m. \<exists>m' \<in> set (first_occurrences identity_key ms).
           identity_key m' = identity_key m \<and> (filter_keeps spec m' \<longleftrightarrow> m' \<in> set (filter_apply ms spec))}"
    using first_occurrences_covers [of _ ms identity_key] by (fastforce simp: eq image_iff)
  ultimately show ?thesis by blast
qed

end
