(* ===== verification/Candidate_Buffer.thy ===== *)
theory Candidate_Buffer
  imports Job_Store Members
begin

text \<open>
  \<open>migration/candidate_buffer.py\<close>: the window of pending candidates between the database and the
  executor.  A fill is a read on a worker thread: \<open>cb_loading\<close> holds the arguments of the read in
  flight, and the operations that await it take the database the worker saw as an argument.  The
  contract of the paged read is the locale \<open>chunk_source\<close>, interpreted on \<open>pending_chunk\<close>.
\<close>

section \<open>Operations\<close>

record candidate =
  cd_ordinal :: int
  cd_member :: member
  cd_persisted_attempts :: int

record cand_buffer =
  cb_job_id :: int
  cb_account_id :: int
  cb_chunk_size :: nat
  cb_low_watermark :: nat
  cb_queue :: "candidate list"
  cb_last_loaded :: int
  cb_loading :: "(int \<times> nat) option"
  cb_exhausted :: bool

definition CandidateBuffer :: "int \<Rightarrow> int \<Rightarrow> nat \<Rightarrow> cand_buffer" where
  "CandidateBuffer job_id account_id chunk_size =
     (let size = max CANDIDATE_PREFETCH_MIN (min CANDIDATE_PREFETCH_MAX chunk_size)
      in \<lparr>cb_job_id = job_id, cb_account_id = account_id, cb_chunk_size = size,
          cb_low_watermark = max 50 (size div 4), cb_queue = [], cb_last_loaded = -1,
          cb_loading = None, cb_exhausted = False\<rparr>)"

definition submit_fill :: "cand_buffer \<Rightarrow> cand_buffer" where
  "submit_fill b =
     (if cb_loading b \<noteq> None \<or> cb_exhausted b then b
      else b\<lparr>cb_loading := Some (cb_last_loaded b, cb_chunk_size b)\<rparr>)"

definition row_candidate :: "pending_row \<Rightarrow> candidate" where
  "row_candidate row =
     \<lparr>cd_ordinal = pr_ordinal row,
      cd_member =
        \<lparr>mb_telegram_user_id = pr_telegram_user_id row, mb_username = pr_username row,
         mb_first_name = pr_first_name row, mb_last_name = pr_last_name row,
         mb_phone = pr_phone row, mb_bot = pr_bot row, mb_deleted = pr_deleted row,
         mb_activity_status = pr_activity_status row, mb_last_seen = pr_last_seen row,
         mb_access_hash = pr_account_access_hash row\<rparr>,
      cd_persisted_attempts = pr_attempt_count row\<rparr>"

definition finish_fill :: "db \<Rightarrow> cand_buffer \<Rightarrow> cand_buffer" where
  "finish_fill d b0 =
     (let b = submit_fill b0 in
      case cb_loading b of
        None \<Rightarrow> b
      | Some (last_loaded, chunk_size) \<Rightarrow>
          let rows = pending_chunk (cb_job_id b) (cb_account_id b) last_loaded chunk_size d;
              b1 = b\<lparr>cb_loading := None\<rparr>
          in if rows = [] then b1\<lparr>cb_exhausted := True\<rparr>
             else b1\<lparr>cb_queue := cb_queue b1 @ map row_candidate rows,
                     cb_last_loaded := pr_ordinal (last rows)\<rparr>)"

definition prime :: "db \<Rightarrow> cand_buffer \<Rightarrow> cand_buffer" where
  "prime d b = (if cb_queue b = [] \<and> \<not> cb_exhausted b then finish_fill d b else b)"

definition pop :: "db \<Rightarrow> cand_buffer \<Rightarrow> candidate option \<times> cand_buffer" where
  "pop d b0 =
     (let b = (if cb_queue b0 = [] then finish_fill d b0 else b0) in
      case cb_queue b of
        [] \<Rightarrow> (None, b)
      | item # rest \<Rightarrow>
          let b1 = b\<lparr>cb_queue := rest\<rparr> in
          (Some item, if length rest \<le> cb_low_watermark b1 then submit_fill b1 else b1))"

definition depth :: "cand_buffer \<Rightarrow> nat" where
  "depth b = length (cb_queue b)"

section \<open>The contract of a paged read\<close>

locale chunk_source =
  fixes rows :: "'d \<Rightarrow> 'r list"
    and ord :: "'r \<Rightarrow> int"
    and fetch :: "int \<Rightarrow> nat \<Rightarrow> 'd \<Rightarrow> 'r list"
    and ok :: "'d \<Rightarrow> bool"
  assumes rows_sorted: "ok d \<Longrightarrow> sorted_wrt (<) (map ord (rows d))"
    and fetch_eq: "ok d \<Longrightarrow> fetch lo n d = take n (filter (\<lambda>r. lo < ord r) (rows d))"
begin

definition later :: "int \<Rightarrow> 'd \<Rightarrow> 'r list" where
  "later lo d = filter (\<lambda>r. lo < ord r) (rows d)"

lemma fetch_empty: "ok d \<Longrightarrow> 0 < n \<Longrightarrow> fetch lo n d = [] \<longleftrightarrow> later lo d = []"
  by (simp add: fetch_eq later_def)

lemma fetch_bound: "ok d \<Longrightarrow> length (fetch lo n d) \<le> n"
  by (simp add: fetch_eq)

lemma sorted_filter_after:
  assumes "sorted_wrt (<) (map ord xs)" "xs = ys @ zs" "ys \<noteq> []"
  shows "filter (\<lambda>r. ord (last ys) < ord r) xs = zs"
proof -
  have "sorted_wrt (<) (map ord (butlast ys @ [last ys]))"
    using assms by (simp add: sorted_wrt_append)
  then have "\<forall>y \<in> set (butlast ys @ [last ys]). \<not> ord (last ys) < ord y"
    by (auto simp: sorted_wrt_append)
  then have "\<forall>y \<in> set ys. \<not> ord (last ys) < ord y"
    using assms(3) by simp
  moreover have "\<forall>z \<in> set zs. ord (last ys) < ord z"
    using assms by (auto simp: sorted_wrt_append)
  ultimately show ?thesis using assms(2) by (simp add: filter_empty_conv)
qed

lemma fetch_after: "ok d \<Longrightarrow> r \<in> set (fetch lo n d) \<Longrightarrow> lo < ord r"
  by (auto simp: fetch_eq dest: in_set_takeD)

lemma fetch_le_last:
  assumes "ok d" "r \<in> set (fetch lo n d)"
  shows "ord r \<le> ord (last (fetch lo n d))"
proof -
  let ?f = "fetch lo n d"
  have ne: "?f \<noteq> []" using assms(2) by auto
  have "sorted_wrt (<) (map ord ?f)"
    using rows_sorted [OF assms(1)]
    by (simp add: fetch_eq [OF assms(1)] sorted_wrt_map sorted_wrt_take sorted_wrt_filter)
  then have "sorted_wrt (<) (map ord (butlast ?f @ [last ?f]))" using ne by simp
  moreover have "r \<in> set (butlast ?f @ [last ?f])" using assms(2) ne by simp
  ultimately show ?thesis by (auto simp: sorted_wrt_append)
qed

lemma fetch_split:
  assumes "ok d" "fetch lo n d \<noteq> []"
  shows "later lo d = fetch lo n d @ later (ord (last (fetch lo n d))) d"
proof -
  let ?l = "later lo d"
  have take: "fetch lo n d = take n ?l" using assms(1) by (simp add: fetch_eq later_def)
  have sorted: "sorted_wrt (<) (map ord ?l)"
    using rows_sorted [OF assms(1)] by (simp add: later_def sorted_wrt_map sorted_wrt_filter)
  have lo: "lo < ord (last (fetch lo n d))"
    using last_in_set [OF assms(2)] set_take_subset [of n ?l] by (auto simp: take later_def)
  have "filter (\<lambda>r. ord (last (fetch lo n d)) < ord r) ?l = drop n ?l"
    using sorted_filter_after [OF sorted, of "take n ?l" "drop n ?l"] assms(2)
    by (simp add: take)
  moreover have "filter (\<lambda>r. ord (last (fetch lo n d)) < ord r) ?l =
      later (ord (last (fetch lo n d))) d"
    using lo by (auto simp: later_def intro!: filter_cong)
  ultimately show ?thesis by (metis append_take_drop_id take)
qed

end

interpretation pending: chunk_source "pending_rows j a" pr_ordinal "pending_chunk j a" db_wf for j a
  by unfold_locales (simp_all add: pending_rows_ordinals pending_items_sorted pending_chunk_eq)

lemma row_candidate_ordinal [simp]: "cd_ordinal (row_candidate r) = pr_ordinal r"
  by (simp add: row_candidate_def)

section \<open>The buffer refines the list of pending rows\<close>

definition buffer_inv :: "cand_buffer \<Rightarrow> bool" where
  "buffer_inv b =
     (0 < cb_chunk_size b \<and> cb_chunk_size b \<le> CANDIDATE_PREFETCH_MAX \<and>
      length (cb_queue b) \<le> cb_chunk_size b \<and>
      (\<forall>c \<in> set (cb_queue b). cd_ordinal c \<le> cb_last_loaded b) \<and>
      (\<forall>x \<in> set_option (cb_loading b). x = (cb_last_loaded b, cb_chunk_size b)))"

text \<open>The candidates still to come, given what the database holds beyond the last loaded row.\<close>

definition candidates_left :: "pending_row list \<Rightarrow> cand_buffer \<Rightarrow> candidate list" where
  "candidates_left later_rows b = cb_queue b @ map row_candidate later_rows"

abbreviation later_rows :: "db \<Rightarrow> cand_buffer \<Rightarrow> pending_row list" where
  "later_rows d b \<equiv> pending.later (cb_job_id b) (cb_account_id b) (cb_last_loaded b) d"

definition exhausted_ok :: "db \<Rightarrow> cand_buffer \<Rightarrow> bool" where
  "exhausted_ok d b = (cb_exhausted b \<longrightarrow> later_rows d b = [])"

lemma CandidateBuffer_inv: "buffer_inv (CandidateBuffer j a n)"
  by (simp add: buffer_inv_def CandidateBuffer_def Let_def CANDIDATE_PREFETCH_MIN_def
      CANDIDATE_PREFETCH_MAX_def)

lemma submit_fill_simps [simp]:
  "cb_job_id (submit_fill b) = cb_job_id b" "cb_account_id (submit_fill b) = cb_account_id b"
  "cb_chunk_size (submit_fill b) = cb_chunk_size b" "cb_queue (submit_fill b) = cb_queue b"
  "cb_last_loaded (submit_fill b) = cb_last_loaded b"
  "cb_exhausted (submit_fill b) = cb_exhausted b"
  by (simp_all add: submit_fill_def)

lemma submit_fill_inv: "buffer_inv b \<Longrightarrow> buffer_inv (submit_fill b)"
  by (auto simp: buffer_inv_def submit_fill_def)

lemma submit_fill_loading:
  "buffer_inv b \<Longrightarrow> cb_loading (submit_fill b) =
     (if cb_loading b = None \<and> cb_exhausted b then None else Some (cb_last_loaded b, cb_chunk_size b))"
  by (auto simp: buffer_inv_def submit_fill_def)

lemma finish_fill_inv:
  assumes "buffer_inv b" "db_wf d" "cb_queue b = []"
  shows "buffer_inv (finish_fill d b)"
proof -
  let ?rows = "pending_chunk (cb_job_id b) (cb_account_id b) (cb_last_loaded b) (cb_chunk_size b) d"
  have "length ?rows \<le> cb_chunk_size b" using pending.fetch_bound [OF assms(2)] by simp
  moreover have "\<forall>r \<in> set ?rows. pr_ordinal r \<le> pr_ordinal (last ?rows)"
    using pending.fetch_le_last [OF assms(2)] by blast
  ultimately show ?thesis
    using assms(1,3) by (auto simp: finish_fill_def Let_def submit_fill_loading [OF assms(1)] buffer_inv_def)
qed

lemma finish_fill_refines:
  assumes "buffer_inv b" "exhausted_ok d b" "db_wf d" "cb_queue b = []"
  shows "buffer_inv (finish_fill d b)" "exhausted_ok d (finish_fill d b)"
    "candidates_left (later_rows d (finish_fill d b)) (finish_fill d b) =
       candidates_left (later_rows d b) b"
    "cb_queue (finish_fill d b) = [] \<longleftrightarrow> candidates_left (later_rows d b) b = []"
    "cb_job_id (finish_fill d b) = cb_job_id b" "cb_account_id (finish_fill d b) = cb_account_id b"
proof -
  let ?lo = "cb_last_loaded b" and ?n = "cb_chunk_size b"
  let ?rows = "pending_chunk (cb_job_id b) (cb_account_id b) ?lo ?n d"
  have n: "0 < ?n" using assms(1) by (simp add: buffer_inv_def)
  have split: "later_rows d b = ?rows @
      pending.later (cb_job_id b) (cb_account_id b) (pr_ordinal (last ?rows)) d" if "?rows \<noteq> []"
    using pending.fetch_split [OF assms(3) that] .
  note simps = finish_fill_def Let_def submit_fill_loading [OF assms(1)] candidates_left_def
    exhausted_ok_def buffer_inv_def pending.fetch_empty [OF assms(3) n]
  show "buffer_inv (finish_fill d b)" by (rule finish_fill_inv [OF assms(1,3,4)])
  show "exhausted_ok d (finish_fill d b)"
    using assms(2) by (auto simp: simps)
  show "candidates_left (later_rows d (finish_fill d b)) (finish_fill d b) =
       candidates_left (later_rows d b) b"
    using split assms(4) by (auto simp: simps simp flip: map_append)
  show "cb_queue (finish_fill d b) = [] \<longleftrightarrow> candidates_left (later_rows d b) b = []"
    using assms(2,4) by (auto simp: simps)
  show "cb_job_id (finish_fill d b) = cb_job_id b" "cb_account_id (finish_fill d b) = cb_account_id b"
    by (auto simp: simps)
qed

lemma prime_refines:
  assumes "buffer_inv b" "exhausted_ok d b" "db_wf d"
  shows "buffer_inv (prime d b)" "exhausted_ok d (prime d b)"
    "candidates_left (later_rows d (prime d b)) (prime d b) = candidates_left (later_rows d b) b"
    "cb_job_id (prime d b) = cb_job_id b" "cb_account_id (prime d b) = cb_account_id b"
  using assms finish_fill_refines [OF assms] by (auto simp: prime_def)

lemma pop_refines:
  assumes "buffer_inv b" "exhausted_ok d b" "db_wf d" "pop d b = (r, b')"
  shows "buffer_inv b' \<and> exhausted_ok d b' \<and> cb_job_id b' = cb_job_id b \<and>
    cb_account_id b' = cb_account_id b \<and>
    candidates_left (later_rows d b) b =
       (case r of None \<Rightarrow> [] | Some c \<Rightarrow> c # candidates_left (later_rows d b') b') \<and>
    (r = None \<longrightarrow> candidates_left (later_rows d b') b' = [])"
proof -
  define f where "f = (if cb_queue b = [] then finish_fill d b else b)"
  have f: "buffer_inv f" "exhausted_ok d f" "cb_job_id f = cb_job_id b"
      "cb_account_id f = cb_account_id b"
      "candidates_left (later_rows d f) f = candidates_left (later_rows d b) b"
      "cb_queue f = [] \<Longrightarrow> candidates_left (later_rows d b) b = []"
    using finish_fill_refines [OF assms(1-3)] assms(1,2)
    unfolding f_def by (cases "cb_queue b = []"; simp)+
  show ?thesis
  proof (cases "cb_queue f")
    case Nil
    with assms(4) have "r = None" "b' = f" by (simp_all add: pop_def f_def Let_def)
    with f Nil show ?thesis by simp
  next
    case (Cons c rest)
    let ?b1 = "f\<lparr>cb_queue := rest\<rparr>"
    have r: "r = Some c" and b': "b' = ?b1 \<or> b' = submit_fill ?b1"
      using assms(4) Cons by (auto simp: pop_def f_def [symmetric] Let_def split: if_splits)
    have 1: "buffer_inv ?b1" using f(1) Cons by (simp add: buffer_inv_def)
    have "buffer_inv b'" "exhausted_ok d b'"
      using b' 1 submit_fill_inv [OF 1] f(2) by (auto simp: exhausted_ok_def)
    moreover have "candidates_left (later_rows d b') b' = rest @ map row_candidate (later_rows d f)"
        "cb_job_id b' = cb_job_id b" "cb_account_id b' = cb_account_id b"
      using b' f(3,4) by (auto simp: candidates_left_def)
    moreover have "candidates_left (later_rows d f) f = c # rest @ map row_candidate (later_rows d f)"
      using Cons by (simp add: candidates_left_def)
    ultimately show ?thesis using f(5) r by simp
  qed
qed

section \<open>A run of pops hands out every pending candidate once, in order\<close>

text \<open>
  The executor pops one candidate after the other; \<open>drain\<close> collects them, each pop reading its own
  state of the database.  Between the pops the executor only changes rows it has been handed.
\<close>

fun drain :: "db list \<Rightarrow> cand_buffer \<Rightarrow> candidate list" where
  "drain [] b = []"
| "drain (d # ds) b =
     (case pop d b of (None, b') \<Rightarrow> [] | (Some c, b') \<Rightarrow> c # drain ds b')"

text \<open>
  \<open>untouched rs ds\<close>: the \<open>k\<close>-th database still holds, beyond the candidates handed out before, the
  rows that were pending at the start.
\<close>

fun untouched :: "int \<Rightarrow> int \<Rightarrow> int \<Rightarrow> pending_row list \<Rightarrow> db list \<Rightarrow> bool" where
  "untouched j a lo rs [] = True"
| "untouched j a lo rs (d # ds) =
     (db_wf d \<and> filter (\<lambda>r. lo < pr_ordinal r) (pending_rows j a d) = rs \<and>
      (case rs of [] \<Rightarrow> True | r # rs' \<Rightarrow> untouched j a (pr_ordinal r) rs' ds))"

lemma later_from:
  assumes "filter (\<lambda>r. lo < pr_ordinal r) (pending_rows j a d) = rs" "lo \<le> k"
  shows "pending.later j a k d = filter (\<lambda>r. k < pr_ordinal r) rs"
  unfolding pending.later_def assms(1) [symmetric] filter_filter
  by (rule filter_cong) (use assms(2) in auto)

text \<open>What the buffer holds when \<open>rs\<close> are the rows still to be handed out.\<close>

definition buffer_holds :: "int \<Rightarrow> int \<Rightarrow> int \<Rightarrow> pending_row list \<Rightarrow> cand_buffer \<Rightarrow> bool" where
  "buffer_holds j a lo rs b =
     (buffer_inv b \<and> cb_job_id b = j \<and> cb_account_id b = a \<and> lo \<le> cb_last_loaded b \<and>
      candidates_left (filter (\<lambda>r. cb_last_loaded b < pr_ordinal r) rs) b = map row_candidate rs \<and>
      (cb_exhausted b \<longrightarrow> filter (\<lambda>r. cb_last_loaded b < pr_ordinal r) rs = []))"

lemma finish_fill_last_loaded:
  assumes "buffer_inv b" "db_wf d"
  shows "cb_last_loaded b \<le> cb_last_loaded (finish_fill d b)"
proof -
  let ?rows = "pending_chunk (cb_job_id b) (cb_account_id b) (cb_last_loaded b) (cb_chunk_size b) d"
  have "?rows \<noteq> [] \<Longrightarrow> cb_last_loaded b < pr_ordinal (last ?rows)"
    using pending.fetch_after [OF assms(2) last_in_set] .
  then show ?thesis
    by (auto simp: finish_fill_def Let_def submit_fill_loading [OF assms(1)])
qed

lemma pop_last_loaded:
  assumes "buffer_inv b" "db_wf d" "pop d b = (r, b')"
  shows "cb_last_loaded b \<le> cb_last_loaded b'"
proof -
  have "cb_last_loaded b' = cb_last_loaded (if cb_queue b = [] then finish_fill d b else b)"
    using assms(3) by (auto simp: pop_def Let_def split: list.splits if_splits)
  then show ?thesis using finish_fill_last_loaded [OF assms(1,2)] by simp
qed

lemma pop_candidate_loaded:
  assumes "buffer_inv b" "exhausted_ok d b" "db_wf d" "pop d b = (Some c, b')"
  shows "cd_ordinal c \<le> cb_last_loaded b'"
proof -
  define f where "f = (if cb_queue b = [] then finish_fill d b else b)"
  have "buffer_inv f" using finish_fill_refines(1) [OF assms(1-3)] assms(1) by (simp add: f_def)
  moreover have "c \<in> set (cb_queue f) \<and> cb_last_loaded b' = cb_last_loaded f"
    using assms(4) by (auto simp: pop_def f_def [symmetric] Let_def split: list.splits if_splits)
  ultimately show ?thesis by (simp add: buffer_inv_def)
qed

lemma pop_holds:
  assumes "buffer_holds j a lo rs b" "db_wf d"
    and rs: "filter (\<lambda>r. lo < pr_ordinal r) (pending_rows j a d) = rs" and p: "pop d b = (r, b')"
  shows "case rs of [] \<Rightarrow> r = None
    | x # xs \<Rightarrow> r = Some (row_candidate x) \<and> buffer_holds j a (pr_ordinal x) xs b'"
proof -
  note h = assms(1) [unfolded buffer_holds_def]
  have later: "later_rows d x = filter (\<lambda>r. cb_last_loaded x < pr_ordinal r) rs"
    if "cb_job_id x = j" "cb_account_id x = a" "lo \<le> cb_last_loaded x" for x
    using later_from [OF rs that(3)] that(1,2) by simp
  have inv: "buffer_inv b" using h by simp
  have ex: "exhausted_ok d b" using h later [of b] by (simp add: exhausted_ok_def)
  note ref = pop_refines [OF inv ex assms(2) p]
  have mono: "lo \<le> cb_last_loaded b'" using pop_last_loaded [OF inv assms(2) p] h by simp
  have left: "map row_candidate rs =
      (case r of None \<Rightarrow> [] | Some c \<Rightarrow> c # candidates_left (later_rows d b') b')"
    using ref h later [of b] by simp
  show ?thesis
  proof (cases rs)
    case Nil
    with left show ?thesis by (cases r) auto
  next
    case (Cons x xs)
    with left have r: "r = Some (row_candidate x)"
        and rest: "candidates_left (later_rows d b') b' = map row_candidate xs"
      by (cases r; auto)+
    have le: "pr_ordinal x \<le> cb_last_loaded b'"
      using pop_candidate_loaded [OF inv ex assms(2)] p r by fastforce
    have ids: "cb_job_id b' = j" "cb_account_id b' = a" using ref h by simp_all
    have l: "later_rows d b' = filter (\<lambda>r. cb_last_loaded b' < pr_ordinal r) xs"
      using later [OF ids mono] Cons le by simp
    have "buffer_inv b'" "exhausted_ok d b'" using ref by blast+
    then have "buffer_inv b'" "cb_exhausted b' \<longrightarrow> later_rows d b' = []"
      unfolding exhausted_ok_def .
    with ids le rest have "buffer_holds j a (pr_ordinal x) xs b'"
      unfolding l by (simp add: buffer_holds_def)
    with r Cons show ?thesis by simp
  qed
qed

lemma drain_spec:
  assumes "buffer_holds j a lo rs b" "untouched j a lo rs ds"
  shows "drain ds b = map row_candidate (take (length ds) rs)"
  using assms
proof (induction ds arbitrary: b lo rs)
  case (Cons d ds)
  obtain r b' where p: "pop d b = (r, b')" by (cases "pop d b")
  have "case rs of [] \<Rightarrow> r = None
      | x # xs \<Rightarrow> r = Some (row_candidate x) \<and> buffer_holds j a (pr_ordinal x) xs b'"
    using pop_holds [OF Cons.prems(1) _ _ p] Cons.prems(2) by simp
  then show ?case using Cons.IH Cons.prems(2) p by (cases rs) auto
qed simp

lemma new_buffer_holds:
  assumes "\<forall>r \<in> set rs. 0 \<le> pr_ordinal r"
  shows "buffer_holds j a (-1) rs (CandidateBuffer j a n)"
proof -
  have "filter (\<lambda>r. - 1 < pr_ordinal r) rs = rs" using assms by (intro filter_True) auto
  then show ?thesis
    using CandidateBuffer_inv [of j a n]
    by (simp add: buffer_holds_def candidates_left_def CandidateBuffer_def Let_def)
qed

lemma prime_holds:
  assumes "buffer_holds j a lo rs b" "db_wf d"
    and rs: "filter (\<lambda>r. lo < pr_ordinal r) (pending_rows j a d) = rs"
  shows "buffer_holds j a lo rs (prime d b)"
proof -
  note h = assms(1) [unfolded buffer_holds_def]
  have later: "later_rows d x = filter (\<lambda>r. cb_last_loaded x < pr_ordinal r) rs"
    if "cb_job_id x = j" "cb_account_id x = a" "lo \<le> cb_last_loaded x" for x
    using later_from [OF rs that(3)] that(1,2) by simp
  have inv: "buffer_inv b" using h by simp
  have ex: "exhausted_ok d b" using h later [of b] by (simp add: exhausted_ok_def)
  note ref = prime_refines [OF inv ex assms(2)]
  have mono: "lo \<le> cb_last_loaded (prime d b)"
    using finish_fill_last_loaded [OF inv assms(2)] h by (simp add: prime_def)
  have ids: "cb_job_id (prime d b) = j" "cb_account_id (prime d b) = a" using ref(4,5) h by simp_all
  note l = later [OF ids mono] and l0 = later [of b]
  have "cb_exhausted (prime d b) \<longrightarrow> later_rows d (prime d b) = []"
    using ref(2) by (simp add: exhausted_ok_def)
  moreover have "candidates_left (later_rows d (prime d b)) (prime d b) = map row_candidate rs"
    using ref(3) h l0 by simp
  ultimately show ?thesis using ref(1) ids mono unfolding l by (simp add: buffer_holds_def)
qed

text \<open>
  C18. A buffer made for a job hands out the candidates that were pending at the start, each once and
  in the order of their ordinals, as long as the rows not handed out yet stay as they were; after
  the last one it hands out nothing.
\<close>

theorem buffer_pops_pending_in_order:
  assumes "untouched job_id account_id (-1) (pending_rows job_id account_id d0) ds"
    and "\<forall>r \<in> set (pending_rows job_id account_id d0). 0 \<le> pr_ordinal r"
  shows "drain ds (CandidateBuffer job_id account_id n) =
           map row_candidate (take (length ds) (pending_rows job_id account_id d0))"
  using drain_spec [OF new_buffer_holds [OF assms(2)] assms(1)] .

theorem buffer_pops_pending_in_order_witness:
  "map cd_ordinal (drain [sample_db, sample_db, sample_db] (CandidateBuffer 1 1 100)) = [0, 1]"
proof -
  have "untouched 1 1 (-1) (pending_rows 1 1 sample_db) [sample_db, sample_db, sample_db]"
    by code_simp
  moreover have "\<forall>r \<in> set (pending_rows 1 1 sample_db). 0 \<le> pr_ordinal r" by code_simp
  ultimately have "drain [sample_db, sample_db, sample_db] (CandidateBuffer 1 1 100) =
      map row_candidate (take (length [sample_db, sample_db, sample_db]) (pending_rows 1 1 sample_db))"
    by (rule buffer_pops_pending_in_order)
  moreover have "map cd_ordinal (map row_candidate (take (length [sample_db, sample_db, sample_db])
      (pending_rows 1 1 sample_db))) = [0, 1]"
    by code_simp
  ultimately show ?thesis by (simp only:)
qed

section \<open>The window is bounded\<close>

inductive buffer_reachable :: "cand_buffer \<Rightarrow> bool" where
  init: "buffer_reachable (CandidateBuffer job_id account_id n)"
| prime: "buffer_reachable b \<Longrightarrow> db_wf d \<Longrightarrow> buffer_reachable (prime d b)"
| pop: "buffer_reachable b \<Longrightarrow> db_wf d \<Longrightarrow> buffer_reachable (snd (pop d b))"

lemma pop_inv:
  assumes "buffer_inv b" "db_wf d"
  shows "buffer_inv (snd (pop d b))"
proof -
  define f where "f = (if cb_queue b = [] then finish_fill d b else b)"
  have f: "buffer_inv f" using finish_fill_inv [OF assms] assms(1) by (simp add: f_def)
  have tail: "buffer_inv (f\<lparr>cb_queue := rest\<rparr>)" if "cb_queue f = c # rest" for c rest
    using f that by (simp add: buffer_inv_def)
  show ?thesis
    using f tail submit_fill_inv [OF tail]
    by (auto simp: pop_def f_def [symmetric] Let_def split: list.split)
qed

lemma buffer_reachable_inv: "buffer_reachable b \<Longrightarrow> buffer_inv b"
  by (induction rule: buffer_reachable.induct)
    (simp_all add: CandidateBuffer_inv prime_def finish_fill_inv pop_inv)

text \<open>
  The window is bounded: whatever the database returns, a buffer reached from its constructor
  by priming and popping never holds more than 500 candidates, and has at most one read in flight,
  for the rows after the last loaded one.
\<close>

theorem buffer_window_bounded:
  assumes "buffer_reachable b"
  shows "depth b \<le> CANDIDATE_PREFETCH_MAX \<and>
    (cb_loading b = None \<or> cb_loading b = Some (cb_last_loaded b, cb_chunk_size b))"
  using buffer_reachable_inv [OF assms] by (cases "cb_loading b") (auto simp: buffer_inv_def depth_def)

theorem buffer_window_bounded_witness:
  "depth (snd (pop sample_db (prime sample_db (CandidateBuffer 1 1 100)))) \<le> 500"
proof -
  have "buffer_reachable (snd (pop sample_db (prime sample_db (CandidateBuffer 1 1 100))))"
    by (intro buffer_reachable.intros sample_db_wf)
  from buffer_window_bounded [OF this] show ?thesis by (simp add: CANDIDATE_PREFETCH_MAX_def)
qed

end
