(* ===== verification/Executor.thy ===== *)
theory Executor
  imports Error_Policy Scheduler Account_Store Candidate_Buffer
begin

text \<open>
  \<open>migration/executor.py\<close> and \<open>migration/v12_executor.py\<close>: the mutation executor.  Its coroutines
  are functions on a state that holds the executor's fields, the scheduler, the database and the
  trace of what it does.  What it awaits is the environment: the replies of Telegram, the stop, pause
  and resume requests that have arrived by a poll of the control flags, how late a sleep ends, how
  long a write takes and whether it fails.  Between two awaits nothing else runs, so the delayed
  flush task acts exactly when an await ends at or after its due time.

  A fill of the candidate window reads the database of the moment it is awaited; by
  \<open>buffer_pops_pending_in_order\<close> an earlier moment gives the same candidates.
\<close>

section \<open>State and environment\<close>

datatype control = C_stop | C_pause

datatype control_request = RequestStop | RequestPause | RequestResume

text \<open>
  The observable actions, oldest first.  \<open>TGate\<close> is a ghost entry: the deadline a server wait
  imposes on later calls.
\<close>

datatype trace_event =
    TRpc string "int option" seconds
  | TGate seconds
  | TAccountState int account_state "string option"
  | TJobState int job_state "iso_text option"
  | TItemCompleted int int item_state nat
  | TMigrationCompleted int job_summary job_state

record exec_state =
  x_db :: db
  x_sched :: scheduler
  x_stop :: bool
  x_pause :: bool
  x_running :: "int option"
  x_buf :: "item_update list"
  x_last_flush :: seconds
  x_flush_due :: "seconds option"
  x_perf :: nat
  x_polls :: nat
  x_sleeps :: nat
  x_rpcs :: nat
  x_writes :: nat
  x_latencies :: "seconds list"
  x_trace :: "trace_event list"

record exec_env =
  e_rpc :: "nat \<Rightarrow> seconds \<times> py_exc option"
  e_req :: "nat \<Rightarrow> control_request list"
  e_late :: "nat \<Rightarrow> seconds"
  e_utc :: "seconds \<Rightarrow> int"
  e_write :: "nat \<Rightarrow> seconds \<times> exn option"
  e_mono :: "nat \<Rightarrow> seconds"
  e_lock :: seconds
  e_metrics :: bool

type_synonym 'a xm = "exec_state \<Rightarrow> (exn + 'a) \<times> exec_state"

definition xreturn :: "'a \<Rightarrow> 'a xm" where
  "xreturn v s = (Inr v, s)"

definition xbind :: "'a xm \<Rightarrow> ('a \<Rightarrow> 'b xm) \<Rightarrow> 'b xm" where
  "xbind m f s = (case m s of (Inl e, s') \<Rightarrow> (Inl e, s') | (Inr v, s') \<Rightarrow> f v s')"

definition xmodify :: "(exec_state \<Rightarrow> exec_state) \<Rightarrow> unit xm" where
  "xmodify f s = (Inr (), f s)"

definition xlog :: "trace_event \<Rightarrow> unit xm" where
  "xlog ev = xmodify (\<lambda>s. s\<lparr>x_trace := x_trace s @ [ev]\<rparr>)"

section \<open>Time\<close>

definition x_now :: "exec_state \<Rightarrow> seconds" where
  "x_now s = sc_now (x_sched s)"

definition is_real :: "exec_state \<Rightarrow> bool" where
  "is_real s = (clk_kind (sc_clock (x_sched s)) = RealClock)"

text \<open>
  \<open>time.monotonic()\<close> is the real clock; under a fake clock it is unrelated to the scheduler.
\<close>

definition py_monotonic :: "exec_env \<Rightarrow> exec_state \<Rightarrow> seconds" where
  "py_monotonic env s = (if is_real s then x_now s else e_mono env (x_writes s))"

text \<open>Real time passes while an operation is awaited; a fake clock only moves in its own sleep.\<close>

definition elapse :: "seconds \<Rightarrow> exec_state \<Rightarrow> exec_state" where
  "elapse dt s = s\<lparr>x_sched := sched_sleep dt 0 (x_sched s)\<rparr>"

definition utc_wait_until :: "exec_env \<Rightarrow> int \<Rightarrow> exec_state \<Rightarrow> iso_text" where
  "utc_wait_until env secs s = IsoUtc (e_utc env (x_now s) + max 0 secs * 1000000)"

section \<open>Writes and the result buffer\<close>

definition write_op :: "exec_env \<Rightarrow> 'a dbop \<Rightarrow> 'a xm" where
  "write_op env op s =
     (case e_write env (x_writes s) of (dt, failure) \<Rightarrow>
      let s1 = elapse dt (s\<lparr>x_writes := x_writes s + 1\<rparr>) in
      case failure of
        Some e \<Rightarrow> (Inl e, s1)
      | None \<Rightarrow> (case op (x_db s) of Inl e \<Rightarrow> (Inl e, s1) | Inr (v, d') \<Rightarrow> (Inr v, s1\<lparr>x_db := d'\<rparr>)))"

definition last_ordinal_checkpoint :: "int \<Rightarrow> checkpoint" where
  "last_ordinal_checkpoint i = [(''last_ordinal'', JInt i)]"

definition flush_now :: "exec_env \<Rightarrow> int \<Rightarrow> unit xm" where
  "flush_now env job_id s =
     (let updates = x_buf s in
      xbind (write_op env (submit_update_items_batch job_id updates
               (Some (last_ordinal_checkpoint (iu_ordinal (last updates)))))) (\<lambda>_.
      xmodify (\<lambda>s'. s'\<lparr>x_last_flush := py_monotonic env s'\<rparr>)) (s\<lparr>x_buf := []\<rparr>))"

definition flush_raw :: "exec_env \<Rightarrow> int \<Rightarrow> bool \<Rightarrow> unit xm" where
  "flush_raw env job_id force s =
     (if x_buf s = [] then (Inr (), s)
      else if \<not> force \<and> length (x_buf s) < MIGRATION_DB_BATCH_SIZE \<and>
              py_monotonic env s - x_last_flush s < MIGRATION_DB_MAX_FLUSH_SECONDS
      then (Inr (), s)
      else flush_now env job_id s)"

text \<open>
  The body of \<open>delayed()\<close>, once its sleep has ended: a forced flush whose failure nobody sees.  It is
  taken to be done at the end of the \<open>await\<close> in which it falls due; in the program its own write is
  awaited while the main coroutine goes on, so that the final summary may be read before it commits.
\<close>

definition run_due :: "exec_env \<Rightarrow> int \<Rightarrow> exec_state \<Rightarrow> exec_state" where
  "run_due env job_id s =
     (case x_flush_due s of
        None \<Rightarrow> s
      | Some t \<Rightarrow> if x_now s < t then s else (snd (flush_raw env job_id True s))\<lparr>x_flush_due := None\<rparr>)"

definition await_write :: "exec_env \<Rightarrow> int \<Rightarrow> 'a dbop \<Rightarrow> 'a xm" where
  "await_write env job_id op s = (case write_op env op s of (r, s') \<Rightarrow> (r, run_due env job_id s'))"

definition flush :: "exec_env \<Rightarrow> int \<Rightarrow> bool \<Rightarrow> unit xm" where
  "flush env job_id force s = (case flush_raw env job_id force s of (r, s') \<Rightarrow> (r, run_due env job_id s'))"

definition schedule_flush :: "exec_state \<Rightarrow> exec_state" where
  "schedule_flush s =
     (if \<not> is_real s \<or> x_flush_due s \<noteq> None then s
      else s\<lparr>x_flush_due := Some (x_now s + MIGRATION_DB_MAX_FLUSH_SECONDS)\<rparr>)"

definition set_account ::
  "exec_env \<Rightarrow> int \<Rightarrow> int \<Rightarrow> account_state \<Rightarrow> string option \<Rightarrow> unit xm" where
  "set_account env job_id account_id state error =
     xbind (await_write env job_id (account_set_state_v12 account_id state error)) (\<lambda>_.
     xlog (TAccountState account_id state error))"

definition set_job ::
  "exec_env \<Rightarrow> int \<Rightarrow> job_state \<Rightarrow> iso_text option \<Rightarrow> checkpoint option \<Rightarrow> bool \<Rightarrow> unit xm" where
  "set_job env job_id state waiting_until checkpoint clear_waiting =
     xbind (await_write env job_id (submit_set_state job_id state waiting_until checkpoint clear_waiting)) (\<lambda>_.
     xlog (TJobState job_id state waiting_until))"

section \<open>Control and sleeping\<close>

definition apply_request :: "control_request \<Rightarrow> exec_state \<Rightarrow> exec_state" where
  "apply_request r s =
     (case r of RequestStop \<Rightarrow> s\<lparr>x_stop := True\<rparr> | RequestPause \<Rightarrow> s\<lparr>x_pause := True\<rparr>
      | RequestResume \<Rightarrow> s\<lparr>x_pause := False\<rparr>)"

definition poll_control :: "exec_env \<Rightarrow> exec_state \<Rightarrow> control option \<times> exec_state" where
  "poll_control env s =
     (let s1 = fold apply_request (e_req env (x_polls s)) (s\<lparr>x_polls := x_polls s + 1\<rparr>)
      in (if x_stop s1 then Some C_stop else if x_pause s1 then Some C_pause else None, s1))"

definition nap :: "exec_env \<Rightarrow> int \<Rightarrow> seconds \<Rightarrow> exec_state \<Rightarrow> exec_state" where
  "nap env job_id secs s =
     run_due env job_id
       (s\<lparr>x_sched := sched_sleep (e_late env (x_sleeps s)) secs (x_sched s), x_sleeps := x_sleeps s + 1\<rparr>)"

text \<open>The clock never goes back, which ends the polling loop below.\<close>

lemma x_now_frame [simp]:
  "x_now (s\<lparr>x_db := d\<rparr>) = x_now s" "x_now (s\<lparr>x_buf := b\<rparr>) = x_now s"
  "x_now (s\<lparr>x_trace := t\<rparr>) = x_now s" "x_now (s\<lparr>x_writes := n\<rparr>) = x_now s"
  "x_now (s\<lparr>x_flush_due := u\<rparr>) = x_now s" "x_now (s\<lparr>x_last_flush := l\<rparr>) = x_now s"
  "x_now (s\<lparr>x_polls := n\<rparr>) = x_now s"
  by (simp_all add: x_now_def)

lemma elapse_now: "x_now s \<le> x_now (elapse dt s)"
  using clock_sleep_mono [of "sc_clock (x_sched s)" dt 0]
  by (simp add: x_now_def elapse_def sched_sleep_def clock_monotonic_def)

lemma write_op_now: "x_now s \<le> x_now (snd (write_op env op s))"
  using elapse_now [of "s\<lparr>x_writes := x_writes s + 1\<rparr>"]
  by (auto simp: write_op_def Let_def split: prod.split option.split sum.split)

lemma flush_raw_now: "x_now s \<le> x_now (snd (flush_raw env j f s))"
proof -
  let ?op = "submit_update_items_batch j (x_buf s) (Some (last_ordinal_checkpoint (iu_ordinal (last (x_buf s)))))"
  obtain r s1 where w: "write_op env ?op (s\<lparr>x_buf := []\<rparr>) = (r, s1)" by fastforce
  have "x_now s \<le> x_now s1"
    using write_op_now [of "s\<lparr>x_buf := []\<rparr>" env ?op] w by simp
  with w have "x_now s \<le> x_now (snd (flush_now env j s))"
    by (cases r) (simp_all add: flush_now_def Let_def xbind_def xmodify_def)
  then show ?thesis by (simp add: flush_raw_def)
qed

lemma run_due_now: "x_now s \<le> x_now (run_due env j s)"
  using flush_raw_now [of s env j True] by (auto simp: run_due_def split: option.split)

lemma nap_now: "x_now s + secs \<le> x_now (nap env j secs s)"
proof -
  have "x_now s + secs \<le> x_now (s\<lparr>x_sched := sched_sleep (e_late env (x_sleeps s)) secs (x_sched s),
      x_sleeps := x_sleeps s + 1\<rparr>)"
    using clock_sleep_ge [of "sc_clock (x_sched s)" secs]
    by (simp add: x_now_def sched_sleep_def clock_monotonic_def)
  also have "\<dots> \<le> x_now (nap env j secs s)" unfolding nap_def by (rule run_due_now)
  finally show ?thesis .
qed

lemma apply_requests_now [simp]: "x_now (fold apply_request rs s) = x_now s"
proof (induction rs arbitrary: s)
  case (Cons r rs)
  have "x_now (apply_request r s) = x_now s"
    by (cases r) (simp_all add: apply_request_def x_now_def)
  with Cons show ?case by simp
qed simp

lemma poll_control_now: "poll_control env s = (c, s') \<Longrightarrow> x_now s' = x_now s"
  by (auto simp: poll_control_def Let_def)

text \<open>A quarter of a second, or all that is left, passes in every round.\<close>

lemma quarter_progress:
  fixes now later deadline :: rat
  assumes "now + min (1/4) (deadline - now) \<le> later" "\<not> deadline - now \<le> 0"
  shows "nat \<lceil>4 * (deadline - later)\<rceil> < nat \<lceil>4 * (deadline - now)\<rceil>"
proof -
  have pos: "0 < \<lceil>4 * (deadline - now)\<rceil>" using assms(2) by simp
  have "\<lceil>4 * (deadline - later)\<rceil> < \<lceil>4 * (deadline - now)\<rceil>"
  proof (cases "deadline - now \<le> 1/4")
    case True
    then have "\<lceil>4 * (deadline - later)\<rceil> \<le> 0" using assms(1) by simp
    with pos show ?thesis by linarith
  next
    case False
    then have "4 * (deadline - later) \<le> 4 * (deadline - now) - 1" using assms(1) by simp
    then have "\<lceil>4 * (deadline - later)\<rceil> \<le> \<lceil>4 * (deadline - now) - 1\<rceil>" by (rule ceiling_mono)
    then show ?thesis by simp
  qed
  with pos show ?thesis by linarith
qed

lemma nap_progress:
  assumes "poll_control env s = (c, s1)" "\<not> deadline \<le> x_now s1"
  shows "nat \<lceil>4 * (deadline - x_now (nap env j (min (1/4) (deadline - x_now s1)) s1))\<rceil>
           < nat \<lceil>4 * (deadline - x_now s)\<rceil>"
  using quarter_progress [OF nap_now, of deadline s1 env j] assms(2) poll_control_now [OF assms(1)] by simp

text \<open>The loop of \<open>_sleep\<close> under the real clock, which polls the flags four times a second.\<close>

function sleep_loop :: "exec_env \<Rightarrow> int \<Rightarrow> seconds \<Rightarrow> exec_state \<Rightarrow> control option \<times> exec_state" where
  "sleep_loop env job_id deadline s =
     (case poll_control env s of
        (Some c, s1) \<Rightarrow> (Some c, s1)
      | (None, s1) \<Rightarrow>
          let left = deadline - x_now s1 in
          if left \<le> 0 then (None, s1)
          else sleep_loop env job_id deadline (nap env job_id (min (1/4) left) s1))"
  by pat_completeness auto

termination
  by (relation "measure (\<lambda>(env, job_id, deadline, s). nat \<lceil>4 * (deadline - x_now s)\<rceil>)")
    (simp, simp only: in_measure prod.case, rule nap_progress [where c = None], auto)

declare sleep_loop.simps [simp del]

definition sleep :: "exec_env \<Rightarrow> int \<Rightarrow> seconds \<Rightarrow> exec_state \<Rightarrow> control option \<times> exec_state" where
  "sleep env job_id secs s =
     (if \<not> is_real s then poll_control env (nap env job_id (max 0 secs) s)
      else sleep_loop env job_id (x_now s + max 0 secs) s)"

definition xsleep :: "exec_env \<Rightarrow> int \<Rightarrow> (exec_state \<Rightarrow> seconds) \<Rightarrow> control option xm" where
  "xsleep env job_id secs s = (case sleep env job_id (secs s) s of (c, s') \<Rightarrow> (Inr c, s'))"

definition handle_control :: "exec_env \<Rightarrow> int \<Rightarrow> int \<Rightarrow> control option \<Rightarrow> bool xm" where
  "handle_control env job_id account_id c =
     (case c of
        Some C_stop \<Rightarrow>
          xbind (flush env job_id True) (\<lambda>_.
          xbind (set_job env job_id JS_CANCELLED None None True) (\<lambda>_.
          xbind (set_account env job_id account_id AS_READY None) (\<lambda>_. xreturn True)))
      | Some C_pause \<Rightarrow>
          xbind (flush env job_id True) (\<lambda>_.
          xbind (set_job env job_id JS_PAUSED None None False) (\<lambda>_.
          xbind (\<lambda>s. set_account env job_id account_id
                   (if server_wait_remaining (x_sched s) > 0 then AS_WAITING_SERVER else AS_READY) None s) (\<lambda>_.
          xreturn True)))
      | None \<Rightarrow> xreturn False)"

section \<open>One candidate\<close>

text \<open>The reply to the call under the watchdog: what is raised, and when.\<close>

definition rpc_reply :: "exec_env \<Rightarrow> nat \<Rightarrow> seconds \<times> py_exc option" where
  "rpc_reply env n =
     (case e_rpc env n of (latency, outcome) \<Rightarrow>
      if RPC_WATCHDOG_SECONDS < latency then (RPC_WATCHDOG_SECONDS, Some watchdog_timeout)
      else (latency, outcome))"

definition rpc_error :: "exec_env \<Rightarrow> nat \<Rightarrow> domain_error option" where
  "rpc_error env n = map_option err_map (snd (rpc_reply env n))"

definition rpc :: "exec_env \<Rightarrow> int \<Rightarrow> string \<Rightarrow> member \<Rightarrow> domain_error option xm" where
  "rpc env job_id action m s =
     (let started = py_monotonic env s;
          s1 = s\<lparr>x_trace := x_trace s @ [TRpc action (mb_telegram_user_id m) (x_now s)]\<rparr>;
          s2 = run_due env job_id (elapse (fst (rpc_reply env (x_rpcs s))) (s1\<lparr>x_rpcs := x_rpcs s1 + 1\<rparr>));
          s3 = (if e_metrics env
                then s2\<lparr>x_latencies := x_latencies s2 @ [(py_monotonic env s2 - started) * 1000]\<rparr>
                else s2)
      in (Inr (rpc_error env (x_rpcs s)), s3))"

datatype attempt_next = Again int nat | Done "item_update option" bool

definition result_of :: "candidate \<Rightarrow> item_state \<Rightarrow> int \<Rightarrow> domain_error option \<Rightarrow> item_update" where
  "result_of cand state attempts error =
     \<lparr>iu_ordinal = cd_ordinal cand, iu_state = state, iu_attempts = attempts,
      iu_error_code = map_option (\<lambda>e. code_str (de_code e)) error,
      iu_error_text = map_option de_text error\<rparr>"

definition mark_retry ::
  "exec_env \<Rightarrow> int \<Rightarrow> candidate \<Rightarrow> int \<Rightarrow> domain_error \<Rightarrow> iso_text option \<Rightarrow> unit xm" where
  "mark_retry env job_id cand attempts error next_retry_at =
     await_write env job_id (submit_mark_retry job_id (cd_ordinal cand) attempts
       (Some (code_str (de_code error))) (Some (de_text error)) next_retry_at)"

definition before_checkpoint :: "candidate \<Rightarrow> checkpoint option" where
  "before_checkpoint cand = Some (last_ordinal_checkpoint (cd_ordinal cand - 1))"

text \<open>The branch of \<open>RATE_LIMIT\<close>: persist, wait for the server, then retry the same candidate.\<close>

definition flood_wait ::
  "exec_env \<Rightarrow> int \<Rightarrow> int \<Rightarrow> candidate \<Rightarrow> int \<Rightarrow> nat \<Rightarrow> domain_error \<Rightarrow> attempt_next xm" where
  "flood_wait env job_id account_id cand attempts transient error =
     (let wait = (case de_wait_seconds error of None \<Rightarrow> 0 | Some w \<Rightarrow> w) in
      xbind (xmodify (\<lambda>s. s\<lparr>x_sched := apply_server_wait (of_int wait) (x_sched s)\<rparr>)) (\<lambda>_.
      xbind (\<lambda>s. xlog (TGate (x_now s + max 0 (of_int wait))) s) (\<lambda>_.
      xbind (\<lambda>s. xreturn (utc_wait_until env wait s) s) (\<lambda>until.
      xbind (flush env job_id True) (\<lambda>_.
      xbind (mark_retry env job_id cand attempts error (Some until)) (\<lambda>_.
      xbind (set_account env job_id account_id AS_WAITING_SERVER (Some (de_text error))) (\<lambda>_.
      xbind (set_job env job_id JS_WAITING_SERVER (Some until) (before_checkpoint cand) False) (\<lambda>_.
      xbind (await_write env job_id (submit_event job_id ''WARN'' ''FLOOD_WAIT''
               (Some (''WAIT '' @ int_str wait @ ''s; retry same candidate''))
               (mb_telegram_user_id (cd_member cand)))) (\<lambda>_.
      xbind (xsleep env job_id (\<lambda>s. remaining_delay (x_sched s))) (\<lambda>c.
      xbind (handle_control env job_id account_id c) (\<lambda>stopped.
      if stopped then xreturn (Done None True)
      else
        xbind (set_job env job_id JS_RUNNING None None True) (\<lambda>_.
        xbind (set_account env job_id account_id AS_BUSY None) (\<lambda>_.
        xreturn (Again attempts transient))))))))))))))"

definition rate_limited_indefinitely ::
  "exec_env \<Rightarrow> int \<Rightarrow> int \<Rightarrow> candidate \<Rightarrow> int \<Rightarrow> domain_error \<Rightarrow> attempt_next xm" where
  "rate_limited_indefinitely env job_id account_id cand attempts error =
     xbind (flush env job_id True) (\<lambda>_.
     xbind (mark_retry env job_id cand attempts error None) (\<lambda>_.
     xbind (set_job env job_id JS_RATE_LIMITED None (before_checkpoint cand) False) (\<lambda>_.
     xbind (set_account env job_id account_id AS_ERROR (Some ''Telegram rate limit has no resume time'')) (\<lambda>_.
     xbind (await_write env job_id (submit_event job_id ''WARN'' ''RATE_LIMIT_INDEFINITE''
              (Some ''Telegram did not provide a resume duration. Job paused safely.'')
              (mb_telegram_user_id (cd_member cand)))) (\<lambda>_.
     xreturn (Done None True))))))"

definition pause_job ::
  "exec_env \<Rightarrow> int \<Rightarrow> int \<Rightarrow> candidate \<Rightarrow> int \<Rightarrow> domain_error \<Rightarrow> attempt_next xm" where
  "pause_job env job_id account_id cand attempts error =
     xbind (flush env job_id True) (\<lambda>_.
     xbind (mark_retry env job_id cand attempts error None) (\<lambda>_.
     xbind (set_job env job_id JS_PAUSED None (before_checkpoint cand) False) (\<lambda>_.
     xbind (set_account env job_id account_id
              (if de_code error = AUTH then AS_AUTH_REQUIRED else AS_ERROR) (Some (de_text error))) (\<lambda>_.
     xreturn (Done None True)))))"

definition transient_failure ::
  "exec_env \<Rightarrow> int \<Rightarrow> int \<Rightarrow> candidate \<Rightarrow> int \<Rightarrow> nat \<Rightarrow> domain_error \<Rightarrow> attempt_next xm" where
  "transient_failure env job_id account_id cand attempts transient error =
     (if transient < length TRANSIENT_RETRY_DELAYS_SECONDS then
        xbind (xsleep env job_id (\<lambda>_. TRANSIENT_RETRY_DELAYS_SECONDS ! transient)) (\<lambda>c.
        xbind (handle_control env job_id account_id c) (\<lambda>stopped.
        if stopped then xreturn (Done None True)
        else if transient + 1 \<ge> length TRANSIENT_RETRY_DELAYS_SECONDS
        then xreturn (Done (Some (result_of cand IS_FAILED attempts (Some error))) False)
        else xreturn (Again attempts (transient + 1))))
      else xreturn (Done (Some (result_of cand IS_FAILED attempts (Some error))) False))"

definition mark_stable :: "unit xm" where
  "mark_stable = xmodify (\<lambda>s. s\<lparr>x_sched := mark_stable_candidate (x_sched s)\<rparr>)"

text \<open>What follows the reply, by the kind of error.\<close>

definition attempt_reply ::
  "exec_env \<Rightarrow> int \<Rightarrow> int \<Rightarrow> candidate \<Rightarrow> int \<Rightarrow> nat \<Rightarrow> domain_error option \<Rightarrow> attempt_next xm" where
  "attempt_reply env job_id account_id cand attempts transient reply =
     (let result = classify reply in
      case reply of
        None \<Rightarrow> xbind mark_stable (\<lambda>_. xreturn (Done (Some (result_of cand IS_SUCCESS attempts None)) False))
      | Some error \<Rightarrow>
          if de_code error = RATE_LIMIT then flood_wait env job_id account_id cand attempts transient error
          else if de_code error = RATE_LIMIT_INDEFINITE
          then rate_limited_indefinitely env job_id account_id cand attempts error
          else if cr_pause_job result then pause_job env job_id account_id cand attempts error
          else if cr_retry result \<and> de_code error \<in> {NETWORK_TRANSIENT, SERVER_TRANSIENT}
          then transient_failure env job_id account_id cand attempts transient error
          else xbind mark_stable (\<lambda>_.
                 xreturn (Done (Some (result_of cand (cr_state result) attempts (Some error))) False)))"

text \<open>The body of the \<open>while True\<close> loop of \<open>_attempt\<close>.\<close>

definition attempt_step ::
  "exec_env \<Rightarrow> string \<Rightarrow> int \<Rightarrow> int \<Rightarrow> candidate \<Rightarrow> int \<Rightarrow> nat \<Rightarrow> attempt_next xm" where
  "attempt_step env action job_id account_id cand attempts transient =
     xbind (xsleep env job_id (\<lambda>s. remaining_delay (x_sched s))) (\<lambda>c.
     xbind (handle_control env job_id account_id c) (\<lambda>stopped.
     if stopped then xreturn (Done None True)
     else
       xbind (xmodify (\<lambda>s. s\<lparr>x_sched := mark_attempt (x_sched s)\<rparr>)) (\<lambda>_.
       xbind (rpc env job_id action (cd_member cand)) (\<lambda>reply.
       attempt_reply env job_id account_id cand (attempts + 1) transient reply))))"

text \<open>The loop, with fuel: the server can keep asking to wait, so \<open>None\<close> means it has not ended yet.\<close>

fun attempt_loop ::
  "nat \<Rightarrow> exec_env \<Rightarrow> string \<Rightarrow> int \<Rightarrow> int \<Rightarrow> candidate \<Rightarrow> int \<Rightarrow> nat \<Rightarrow> exec_state \<Rightarrow>
     ((exn + item_update option \<times> bool) \<times> exec_state) option" where
  "attempt_loop 0 env action job_id account_id cand attempts transient s = None"
| "attempt_loop (Suc fuel) env action job_id account_id cand attempts transient s =
     (case attempt_step env action job_id account_id cand attempts transient s of
        (Inl e, s') \<Rightarrow> Some (Inl e, s')
      | (Inr (Done u stop), s') \<Rightarrow> Some (Inr (u, stop), s')
      | (Inr (Again attempts' transient'), s') \<Rightarrow>
          attempt_loop fuel env action job_id account_id cand attempts' transient' s')"

definition attempt ::
  "nat \<Rightarrow> exec_env \<Rightarrow> string \<Rightarrow> int \<Rightarrow> int \<Rightarrow> candidate \<Rightarrow> exec_state \<Rightarrow>
     ((exn + item_update option \<times> bool) \<times> exec_state) option" where
  "attempt fuel env action job_id account_id cand s =
     (if mb_telegram_user_id (cd_member cand) = None \<or> mb_access_hash (cd_member cand) = None
      then Some (Inr (Some \<lparr>iu_ordinal = cd_ordinal cand, iu_state = IS_FAILED,
             iu_attempts = cd_persisted_attempts cand, iu_error_code = Some (code_str INVALID_USER),
             iu_error_text = Some ''Candidate lacks user id/access hash''\<rparr>, False), s)
      else attempt_loop fuel env action job_id account_id cand (cd_persisted_attempts cand) 0 s)"

text \<open>\<open>V12MigrationExecutor._attempt\<close>: a job left rate-limited also restricts the account.\<close>

definition record_restriction :: "exec_env \<Rightarrow> string \<Rightarrow> int \<Rightarrow> int \<Rightarrow> 'a \<Rightarrow> 'a xm" where
  "record_restriction env action job_id account_id v s =
     (case job_get job_id (x_db s) of
        Some row \<Rightarrow>
          if j_state row = JS_RATE_LIMITED
          then xbind (await_write env job_id (submit_restriction account_id action
                 ''RATE_LIMIT_INDEFINITE'' (Some 420) (Some ''RateLimit'')
                 (Some (if action = ''INVITE'' then ''InviteToChannelRequest'' else ''EditBannedRequest''))))
               (\<lambda>_. xreturn v) s
          else (Inr v, s)
      | None \<Rightarrow> (Inr v, s))"

definition attempt_v12 ::
  "nat \<Rightarrow> exec_env \<Rightarrow> string \<Rightarrow> int \<Rightarrow> int \<Rightarrow> candidate \<Rightarrow> exec_state \<Rightarrow>
     ((exn + item_update option \<times> bool) \<times> exec_state) option" where
  "attempt_v12 fuel env action job_id account_id cand s =
     (case attempt fuel env action job_id account_id cand s of
        None \<Rightarrow> None
      | Some (Inl e, s') \<Rightarrow> Some (Inl e, s')
      | Some (Inr r, s') \<Rightarrow> Some (record_restriction env action job_id account_id r s'))"

section \<open>A run\<close>

definition record_result :: "exec_env \<Rightarrow> int \<Rightarrow> item_update \<Rightarrow> cand_buffer \<Rightarrow> unit xm" where
  "record_result env job_id u b =
     xbind (xmodify (\<lambda>s. s\<lparr>x_buf := x_buf s @ [u]\<rparr>)) (\<lambda>_.
     xbind (flush env job_id False) (\<lambda>_.
     xbind (xmodify schedule_flush) (\<lambda>_.
     xlog (TItemCompleted job_id (iu_ordinal u) (iu_state u) (depth b)))))"

text \<open>The \<open>while True\<close> loop of \<open>run\<close>; the result says whether it was interrupted.\<close>

fun run_loop ::
  "nat \<Rightarrow> nat \<Rightarrow> exec_env \<Rightarrow> string \<Rightarrow> int \<Rightarrow> int \<Rightarrow> cand_buffer \<Rightarrow> exec_state \<Rightarrow>
     ((exn + bool) \<times> exec_state) option" where
  "run_loop 0 fuel env action job_id account_id b s = None"
| "run_loop (Suc n) fuel env action job_id account_id b s =
     (case (case poll_control env s of (c, s0) \<Rightarrow> handle_control env job_id account_id c s0) of
        (Inl e, s1) \<Rightarrow> Some (Inl e, s1)
      | (Inr True, s1) \<Rightarrow> Some (Inr True, s1)
      | (Inr False, s1) \<Rightarrow>
          (case pop (x_db s1) b of
             (None, b1) \<Rightarrow> Some (Inr False, s1)
           | (Some cand, b1) \<Rightarrow>
               (case attempt_v12 fuel env action job_id account_id cand s1 of
                  None \<Rightarrow> None
                | Some (Inl e, s2) \<Rightarrow> Some (Inl e, s2)
                | Some (Inr (u, stop), s2) \<Rightarrow>
                    if stop then Some (Inr True, s2)
                    else (case u of
                            None \<Rightarrow> run_loop n fuel env action job_id account_id b1 s2
                          | Some upd \<Rightarrow>
                              (case record_result env job_id upd b1 s2 of
                                 (Inl e, s3) \<Rightarrow> Some (Inl e, s3)
                               | (Inr _, s3) \<Rightarrow> run_loop n fuel env action job_id account_id b1 s3)))))"

definition complete_run :: "exec_env \<Rightarrow> int \<Rightarrow> int \<Rightarrow> unit xm" where
  "complete_run env job_id account_id =
     xbind (flush env job_id True) (\<lambda>_.
     xbind (\<lambda>s. xreturn (summary job_id (x_db s)) s) (\<lambda>summ.
     let final = (if sm_failed summ \<noteq> 0 then JS_COMPLETED_WITH_ERRORS else JS_COMPLETED) in
     xbind (set_job env job_id final None None True) (\<lambda>_.
     xbind (set_account env job_id account_id AS_READY None) (\<lambda>_.
     xlog (TMigrationCompleted job_id summ final)))))"

text \<open>The \<open>except\<close> clause: record the failure and raise again.\<close>

definition fail_run :: "exec_env \<Rightarrow> int \<Rightarrow> int \<Rightarrow> exn \<Rightarrow> unit xm" where
  "fail_run env job_id account_id e =
     xbind (flush env job_id True) (\<lambda>_.
     xbind (set_job env job_id JS_FAILED None None True) (\<lambda>_.
     xbind (set_account env job_id account_id AS_ERROR (Some (exn_text e))) (\<lambda>_.
     (\<lambda>s. (Inl e, s)))))"

definition finish_run :: "exec_state \<Rightarrow> exec_state" where
  "finish_run s =
     s\<lparr>x_flush_due := None, x_perf := x_perf s - 1, x_running := None, x_stop := False, x_pause := False\<rparr>"

definition start_run :: "exec_env \<Rightarrow> int \<Rightarrow> exec_state \<Rightarrow> exec_state" where
  "start_run env job_id s =
     s\<lparr>x_running := Some job_id, x_stop := False, x_pause := False, x_buf := [],
       x_last_flush := py_monotonic env s, x_perf := x_perf s + 1\<rparr>"

definition begin_run :: "exec_env \<Rightarrow> int \<Rightarrow> int \<Rightarrow> unit xm" where
  "begin_run env job_id account_id =
     xbind (set_job env job_id JS_RUNNING None None False) (\<lambda>_.
     set_account env job_id account_id AS_BUSY None)"

text \<open>The rest of the \<open>try\<close> statement, once the loop has ended or raised.\<close>

definition end_run :: "exec_env \<Rightarrow> int \<Rightarrow> int \<Rightarrow> exn + bool \<Rightarrow> exec_state \<Rightarrow> (exn + unit) \<times> exec_state" where
  "end_run env job_id account_id r s =
     (let body = (case r of
             Inl e \<Rightarrow> (Inl e, s)
           | Inr interrupted \<Rightarrow> if interrupted then (Inr (), s) else complete_run env job_id account_id s)
      in case (case body of (Inl e, s1) \<Rightarrow> fail_run env job_id account_id e s1 | (Inr v, s1) \<Rightarrow> (Inr v, s1)) of
           (r2, s2) \<Rightarrow> (r2, finish_run s2))"

definition run ::
  "nat \<Rightarrow> nat \<Rightarrow> exec_env \<Rightarrow> string \<Rightarrow> int \<Rightarrow> int \<Rightarrow> exec_state \<Rightarrow> ((exn + unit) \<times> exec_state) option" where
  "run n fuel env action job_id account_id s =
     (if x_running s \<noteq> None
      then Some (Inl (RuntimeError ''This executor already has a running mutation job''), s)
      else
        (case begin_run env job_id account_id (start_run env job_id s) of
           (Inl e, s1) \<Rightarrow> Some (Inl e, s1)
         | (Inr _, s1) \<Rightarrow>
             let b = prime (x_db s1) (CandidateBuffer job_id account_id CANDIDATE_PREFETCH_MIN) in
             (case run_loop n fuel env action job_id account_id b (run_due env job_id (elapse (e_lock env) s1)) of
                None \<Rightarrow> None
              | Some (r, s2) \<Rightarrow> Some (end_run env job_id account_id r s2))))"

text \<open>The action a new executor is built with (\<open>new_executor\<close> of \<open>bootstrap.py\<close>).\<close>

fun json_str :: "json \<Rightarrow> string" where
  "json_str (JStr t) = t"
| "json_str (JInt i) = int_str i"
| "json_str (JBool b) = (if b then ''True'' else ''False'')"

definition executor_action :: "checkpoint \<Rightarrow> string" where
  "executor_action c =
     py_upper (case map_of c ''action'' of None \<Rightarrow> ''INVITE'' | Some v \<Rightarrow> json_str v)"

definition valid_action :: "string \<Rightarrow> unit res" where
  "valid_action action =
     (if action \<in> {''INVITE'', ''REMOVE''} then Inr ()
      else Inl (ValueError ''Action must be INVITE or REMOVE''))"

end
