(* ===== verification/Executor_Frame.thy ===== *)
theory Executor_Frame
  imports Executor
begin

text \<open>
  Reasoning about the executor's operations.  The locale \<open>exec_frame\<close> is a preorder on executor
  states that the bookkeeping steps respect; it lifts the preorder to every operation built from
  them.
\<close>

section \<open>Running the combinators\<close>

lemma xbind_modify: "xbind (xmodify f) g s = g () (f s)"
  by (simp add: xbind_def xmodify_def)

lemma xbind_log_at:
  "xbind (\<lambda>s. xlog (ev s) s) g s = g () (s\<lparr>x_trace := x_trace s @ [ev s]\<rparr>)"
  by (simp add: xbind_def xlog_def xmodify_def)

lemma xbind_get: "xbind (\<lambda>s. xreturn (h s) s) g s = g (h s) s"
  by (simp add: xbind_def xreturn_def)

section \<open>Relations every bookkeeping step respects\<close>

fun plain_event :: "trace_event \<Rightarrow> bool" where
  "plain_event (TRpc _ _ _) = False"
| "plain_event (TGate _) = False"
| "plain_event _ = True"

definition xrel :: "(exec_state \<Rightarrow> exec_state \<Rightarrow> bool) \<Rightarrow> 'a xm \<Rightarrow> bool" where
  "xrel R m = (\<forall>s. R s (snd (m s)))"

lemma xrelI: "(\<And>s. R s (snd (m s))) \<Longrightarrow> xrel R m"
  by (simp add: xrel_def)

lemma xrelD: "xrel R m \<Longrightarrow> R s (snd (m s))"
  by (simp add: xrel_def)

locale exec_frame =
  fixes R :: "exec_state \<Rightarrow> exec_state \<Rightarrow> bool"
  assumes r_refl: "R s s"
    and r_trans: "R s t \<Longrightarrow> R t u \<Longrightarrow> R s u"
    and r_tick: "R s (s\<lparr>x_sched := sched_sleep late secs (x_sched s)\<rparr>)"
    and rel_flags: "R s (s\<lparr>x_stop := a\<rparr>)" "R s (s\<lparr>x_pause := a\<rparr>)"
    and rel_counters: "R s (s\<lparr>x_polls := n\<rparr>)" "R s (s\<lparr>x_sleeps := n\<rparr>)"
    and rel_writes: "R s (s\<lparr>x_writes := n\<rparr>)"
    and rel_due: "R s (s\<lparr>x_flush_due := due\<rparr>)"
    and rel_last_flush: "R s (s\<lparr>x_last_flush := l\<rparr>)"
    and rel_latencies: "R s (s\<lparr>x_latencies := ls\<rparr>)"
    and rel_db: "R s (s\<lparr>x_db := d\<rparr>)" "R s (s\<lparr>x_buf := us\<rparr>)"
    and r_log: "plain_event ev \<Longrightarrow> R s (s\<lparr>x_trace := x_trace s @ [ev]\<rparr>)"
begin

lemma rel_return: "xrel R (xreturn v)"
  by (simp add: xrel_def xreturn_def r_refl)

lemma rel_bind: "xrel R m \<Longrightarrow> (\<And>v. xrel R (f v)) \<Longrightarrow> xrel R (xbind m f)"
  by (auto simp: xrel_def xbind_def split: prod.splits sum.splits) (metis r_trans snd_conv)+

lemma rel_modify: "(\<And>s. R s (f s)) \<Longrightarrow> xrel R (xmodify f)"
  by (simp add: xrel_def xmodify_def)

lemma rel_log: "plain_event ev \<Longrightarrow> xrel R (xlog ev)"
  unfolding xlog_def by (rule rel_modify) (rule r_log)

lemma rel_elapse: "R s (elapse dt s)"
  by (simp add: elapse_def r_tick)

lemma rel_write_op: "xrel R (write_op env op)"
proof (rule xrelI)
  fix s
  let ?s1 = "elapse (fst (e_write env (x_writes s))) (s\<lparr>x_writes := x_writes s + 1\<rparr>)"
  have 1: "R s ?s1" using r_trans [OF rel_writes rel_elapse] .
  then have "R s (?s1\<lparr>x_db := d\<rparr>)" for d using r_trans rel_db(1) by blast
  with 1 show "R s (snd (write_op env op s))"
    by (auto simp: write_op_def Let_def split: prod.split option.split sum.split)
qed

lemma rel_flush_raw: "xrel R (flush_raw env j f)"
proof (rule xrelI)
  fix s
  have "xrel R (xbind (write_op env op) (\<lambda>_. xmodify (\<lambda>s'. s'\<lparr>x_last_flush := py_monotonic env s'\<rparr>)))"
    for op :: "unit dbop"
    by (intro rel_bind rel_write_op rel_modify rel_last_flush)
  from r_trans [OF rel_db(2) xrelD [OF this]] show "R s (snd (flush_raw env j f s))"
    by (simp add: flush_raw_def flush_now_def Let_def r_refl)
qed

lemma rel_run_due: "R s (run_due env j s)"
  using r_trans [OF xrelD [OF rel_flush_raw] rel_due]
  by (simp add: run_due_def r_refl split: option.split)

lemma rel_then_due:
  assumes "xrel R m"
  shows "xrel R (\<lambda>s. case m s of (r, s') \<Rightarrow> (r, run_due env j s'))"
  using r_trans [OF xrelD [OF assms] rel_run_due] by (simp add: xrel_def split_beta)

lemma rel_await_write: "xrel R (await_write env j op)"
  using rel_then_due [OF rel_write_op] by (simp add: xrel_def await_write_def)

lemma rel_flush: "xrel R (flush env j f)"
  using rel_then_due [OF rel_flush_raw] by (simp add: xrel_def flush_def)

lemma rel_set_account: "xrel R (set_account env j a st e)"
  unfolding set_account_def by (intro rel_bind rel_await_write rel_log) simp

lemma rel_set_job: "xrel R (set_job env j st w c cl)"
  unfolding set_job_def by (intro rel_bind rel_await_write rel_log) simp

lemma rel_mark_retry: "xrel R (mark_retry env j c n e r)"
  unfolding mark_retry_def by (rule rel_await_write)

lemma rel_requests: "R s (fold apply_request rs s)"
proof (induction rs arbitrary: s)
  case (Cons r rs)
  have "R s (apply_request r s)" by (cases r) (simp_all add: apply_request_def rel_flags)
  with Cons r_trans show ?case by simp
qed (simp add: r_refl)

lemma rel_poll: "R s (snd (poll_control env s))"
  using r_trans [OF rel_counters(1) rel_requests] by (simp add: poll_control_def Let_def)

lemma rel_nap: "R s (nap env j secs s)"
  unfolding nap_def
  by (rule r_trans [OF _ rel_run_due]) (rule r_trans [OF r_tick rel_counters(2)])

lemma rel_sleep_loop: "R s (snd (sleep_loop env j deadline s))"
proof (induction env j deadline s rule: sleep_loop.induct)
  case (1 env j deadline s)
  obtain c s1 where p: "poll_control env s = (c, s1)" by fastforce
  have poll: "R s s1" using rel_poll [of s env] p by simp
  show ?case
  proof (cases "c = None \<and> 0 < deadline - x_now s1")
    case True
    let ?s2 = "nap env j (min (1/4) (deadline - x_now s1)) s1"
    have "R ?s2 (snd (sleep_loop env j deadline ?s2))" using 1 p True by simp
    then have "R s1 (snd (sleep_loop env j deadline ?s2))" using r_trans rel_nap by blast
    with poll have "R s (snd (sleep_loop env j deadline ?s2))" using r_trans by blast
    then show ?thesis using p True by (subst sleep_loop.simps) (simp add: Let_def)
  next
    case False
    then show ?thesis using p poll
      by (subst sleep_loop.simps) (auto simp: Let_def split: option.split)
  qed
qed

lemma rel_sleep: "R s (snd (sleep env j secs s))"
  using r_trans [OF rel_nap rel_poll] rel_sleep_loop by (simp add: sleep_def)

lemma rel_xsleep: "xrel R (xsleep env j f)"
  using rel_sleep by (auto simp: xsleep_def intro!: xrelI split: prod.split) (metis snd_conv)

lemma rel_handle_control: "xrel R (handle_control env j a c)"
proof -
  have "xrel R (\<lambda>s. set_account env j a (st s) e s)" for st e
    using xrelD [OF rel_set_account] by (simp add: xrel_def)
  then show ?thesis
    unfolding handle_control_def
    by (auto split: option.split control.split
        intro!: rel_bind rel_return rel_flush rel_set_job rel_set_account)
qed

lemma rel_record_restriction: "xrel R (record_restriction env act j a v)"
proof (rule xrelI)
  fix s
  have "xrel R (xbind (await_write env j op) (\<lambda>_. xreturn v))" for op :: "unit dbop"
    by (intro rel_bind rel_await_write rel_return)
  then show "R s (snd (record_restriction env act j a v s))"
    by (auto simp: record_restriction_def xrel_def r_refl split: option.split)
qed

lemma rel_record_result: "xrel R (record_result env j u b)"
proof -
  have "R s (schedule_flush s)" for s by (simp add: schedule_flush_def r_refl rel_due)
  then show ?thesis
    unfolding record_result_def
    by (intro rel_bind rel_modify rel_flush rel_log rel_db) simp_all
qed

lemma rel_get: "xrel R (\<lambda>s. xreturn (f s) s)"
  by (simp add: xrel_def xreturn_def r_refl)

lemma rel_complete_run: "xrel R (complete_run env j a)"
  unfolding complete_run_def Let_def
  by (intro rel_bind rel_flush rel_get rel_set_job rel_set_account rel_log) simp

lemma rel_fail_run: "xrel R (fail_run env j a e)"
  unfolding fail_run_def
  by (intro rel_bind rel_flush rel_set_job rel_set_account) (simp add: xrel_def r_refl)

lemma rel_rate_limited: "xrel R (rate_limited_indefinitely env j a c n e)"
  unfolding rate_limited_indefinitely_def
  by (intro rel_bind rel_flush rel_mark_retry rel_set_job rel_set_account rel_await_write rel_return)

lemma rel_pause_job: "xrel R (pause_job env j a c n e)"
  unfolding pause_job_def
  by (intro rel_bind rel_flush rel_mark_retry rel_set_job rel_set_account rel_return)

lemma rel_transient: "xrel R (transient_failure env j a c n t e)"
proof -
  have "xrel R (if b then xreturn x else if b' then xreturn y else xreturn z)" for b b' and x y z :: attempt_next
    by (simp add: rel_return)
  then show ?thesis
    unfolding transient_failure_def by (auto intro!: rel_bind rel_xsleep rel_handle_control rel_return)
qed

end

end
