(* ===== verification/Executor_Completion.thy ===== *)
theory Executor_Completion
  imports Executor_Frame
begin

text \<open>
  What a run achieves: the loop over one candidate ends as soon as the server stops asking to wait,
  and in an environment without interruptions the whole run ends, with a result recorded for every
  pending item of the job.
\<close>

section \<open>Effect of the writes on the pending items\<close>

lemma pending_items_cong: "t_migration_items d' = t_migration_items d \<Longrightarrow> pending_items j d' = pending_items j d"
  by (simp add: pending_items_def)

lemma join_pending_cong:
  "t_members d' = t_members d \<Longrightarrow> t_peer_cache d' = t_peer_cache d \<Longrightarrow> join_pending a d' r = join_pending a d r"
  by (simp add: join_pending_def cached_hash_def cong: option.case_cong)

text \<open>The rows still to come, beyond the last candidate handed out.\<close>

definition rows_after :: "int \<Rightarrow> int \<Rightarrow> int \<Rightarrow> db \<Rightarrow> pending_row list" where
  "rows_after j a lo d =
     map (\<lambda>r. the (join_pending a d r)) (filter (\<lambda>r. lo < i_ordinal r) (pending_items j d))"

lemma rows_after_eq:
  assumes "db_wf d"
  shows "rows_after j a lo d = filter (\<lambda>p. lo < pr_ordinal p) (pending_rows j a d)"
proof -
  have "pr_ordinal (the (join_pending a d r)) = i_ordinal r" if "r \<in> set (pending_items j d)" for r
    using join_pending_total [OF assms, of r a] that by (auto simp: pending_items_set)
  then show ?thesis
    unfolding rows_after_def pending_rows_def filter_map comp_def
    by (intro arg_cong [where f = "map _"] filter_cong) auto
qed

lemma rows_after_cong:
  assumes "t_members d' = t_members d" "t_peer_cache d' = t_peer_cache d"
    and "filter (\<lambda>r. lo < i_ordinal r) (pending_items j d') = filter (\<lambda>r. lo < i_ordinal r) (pending_items j d)"
  shows "rows_after j a lo d' = rows_after j a lo d"
  unfolding rows_after_def assms(3) by (simp add: join_pending_cong [OF assms(1,2)])

definition is_final :: "item_state \<Rightarrow> bool" where
  "is_final st = (st \<in> {IS_SUCCESS, IS_SKIPPED, IS_FAILED})"

lemma pending_items_update_final:
  assumes "is_final (iu_state u)"
  shows "sort_key i_ordinal (filter (\<lambda>r. i_job_id r = j \<and> i_state r \<in> {IS_READY, IS_RETRY})
           (update_where (\<lambda>r. i_job_id r = j \<and> i_ordinal r = iu_ordinal u) (updated_item t u) rows)) =
         filter (\<lambda>r. i_ordinal r \<noteq> iu_ordinal u)
           (sort_key i_ordinal (filter (\<lambda>r. i_job_id r = j \<and> i_state r \<in> {IS_READY, IS_RETRY}) rows))"
proof -
  have "filter (\<lambda>r. i_job_id r = j \<and> i_state r \<in> {IS_READY, IS_RETRY})
      (update_where (\<lambda>r. i_job_id r = j \<and> i_ordinal r = iu_ordinal u) (updated_item t u) rows) =
      filter (\<lambda>r. i_ordinal r \<noteq> iu_ordinal u)
        (filter (\<lambda>r. i_job_id r = j \<and> i_state r \<in> {IS_READY, IS_RETRY}) rows)"
    using assms by (induction rows) (auto simp: is_final_def)
  then show ?thesis by (simp add: filter_sort)
qed

lemma pending_items_after:
  assumes "\<forall>u \<in> set us. is_final (iu_state u)"
  shows "sort_key i_ordinal (filter (\<lambda>r. i_job_id r = j \<and> i_state r \<in> {IS_READY, IS_RETRY})
           (items_after t j us rows)) =
         filter (\<lambda>r. i_ordinal r \<notin> iu_ordinal ` set us)
           (sort_key i_ordinal (filter (\<lambda>r. i_job_id r = j \<and> i_state r \<in> {IS_READY, IS_RETRY}) rows))"
  using assms
proof (induction us arbitrary: rows)
  case (Cons u us)
  let ?rows = "update_where (\<lambda>r. i_job_id r = j \<and> i_ordinal r = iu_ordinal u) (updated_item t u) rows"
  have "items_after t j (u # us) rows = items_after t j us ?rows" by (simp add: items_after_def)
  moreover have "is_final (iu_state u)" using Cons.prems by simp
  ultimately show ?case
    using Cons.IH [of ?rows] Cons.prems pending_items_update_final [of u j t rows]
    by (simp add: conj_commute conj_left_commute)
qed (simp add: items_after_def)

text \<open>A recorded batch takes its items out of the pending ones and changes nothing else of them.\<close>

lemma batch_effect:
  assumes "\<forall>u \<in> set us. is_final (iu_state u)" "submit_update_items_batch j us c d = Inr ((), d')"
  shows "pending_items j d' = filter (\<lambda>r. i_ordinal r \<notin> iu_ordinal ` set us) (pending_items j d)"
    "t_members d' = t_members d" "t_peer_cache d' = t_peer_cache d"
    "map_option j_state (job_get j d') = map_option j_state (job_get j d)"
proof -
  let ?d1 = "d\<lparr>t_migration_items := items_after (db_now d) j us (t_migration_items d)\<rparr>"
  define f where "f = (\<lambda>(x :: db) (r :: job_row).
    r\<lparr>j_processed := count_items j IS_SUCCESS ?d1 + count_items j IS_SKIPPED ?d1 + count_items j IS_FAILED ?d1,
      j_success := count_items j IS_SUCCESS ?d1, j_skipped := count_items j IS_SKIPPED ?d1,
      j_failed := count_items j IS_FAILED ?d1,
      j_checkpoint_json := (case c of None \<Rightarrow> j_checkpoint_json r
        | Some c \<Rightarrow> if c = [] then j_checkpoint_json r else Some (CkptJson c))\<rparr>)"
  have f: "\<And>d r. j_id (f d r) = j_id r" "\<And>d r. j_state (f d r) = j_state r" by (simp_all add: f_def)
  have d': "d' = ?d1\<lparr>t_jobs := update_where (\<lambda>r. j_id r = j) (f ?d1) (t_jobs ?d1)\<rparr>"
    using assms(2)
    by (simp add: submit_update_items_batch_def dbind_def apply_item_updates update_jobs_apply f_def)
  have "t_migration_items d' = items_after (db_now d) j us (t_migration_items d)" by (simp add: d')
  then show "pending_items j d' = filter (\<lambda>r. i_ordinal r \<notin> iu_ordinal ` set us) (pending_items j d)"
    using pending_items_after [OF assms(1)] by (simp add: pending_items_def)
  show "t_members d' = t_members d" "t_peer_cache d' = t_peer_cache d" by (simp_all add: d')
  have "job_get j d' = map_option (f ?d1) (job_get j ?d1)"
    unfolding d' using job_get_update [where f = f and k = j and i = j and d = ?d1] f(1) by simp
  moreover have "job_get j ?d1 = job_get j d" by (simp add: job_get_def)
  ultimately show "map_option j_state (job_get j d') = map_option j_state (job_get j d)"
    by (simp add: option.map_comp comp_def f(2))
qed

lemma retry_effect:
  assumes "submit_mark_retry j i n ec et nx d = Inr ((), d')"
  shows "filter (\<lambda>r. i < i_ordinal r) (pending_items j d') = filter (\<lambda>r. i < i_ordinal r) (pending_items j d)"
    "\<forall>r \<in> set (pending_items j d'). i_ordinal r = i \<or> r \<in> set (pending_items j d)"
    "t_members d' = t_members d" "t_peer_cache d' = t_peer_cache d" "job_get j d' = job_get j d"
proof -
  let ?f = "\<lambda>r. r\<lparr>i_state := IS_RETRY, i_attempt_count := n, i_last_error_code := ec,
      i_last_error_text := et, i_next_retry_at := nx\<rparr>"
  have d': "d' = d\<lparr>t_migration_items := update_where (\<lambda>r. i_job_id r = j \<and> i_ordinal r = i) ?f (t_migration_items d)\<rparr>"
    using assms by (simp add: submit_mark_retry_def update_items_apply)
  have t: "t_migration_items d' =
      update_where (\<lambda>r. i_job_id r = j \<and> i_ordinal r = i) ?f (t_migration_items d)"
    by (simp add: d')
  have "filter (\<lambda>r. (i_job_id r = j \<and> i_state r \<in> {IS_READY, IS_RETRY}) \<and> i < i_ordinal r)
      (update_where (\<lambda>r. i_job_id r = j \<and> i_ordinal r = i) ?f (t_migration_items d)) =
      filter (\<lambda>r. (i_job_id r = j \<and> i_state r \<in> {IS_READY, IS_RETRY}) \<and> i < i_ordinal r) (t_migration_items d)"
    by (rule filter_update_where_other) auto
  then show "filter (\<lambda>r. i < i_ordinal r) (pending_items j d') = filter (\<lambda>r. i < i_ordinal r) (pending_items j d)"
    unfolding pending_items_def filter_sort filter_filter t by (rule arg_cong [where f = "sort_key i_ordinal"])
  show "\<forall>r \<in> set (pending_items j d'). i_ordinal r = i \<or> r \<in> set (pending_items j d)"
  proof
    fix r assume r: "r \<in> set (pending_items j d')"
    then have "r \<in> set (update_where (\<lambda>r. i_job_id r = j \<and> i_ordinal r = i) ?f (t_migration_items d))"
      by (simp only: pending_items_set t mem_Collect_eq)
    then consider "r \<in> set (t_migration_items d)" | r0 where "r = ?f r0" "i_ordinal r0 = i"
      unfolding set_update_where by blast
    then show "i_ordinal r = i \<or> r \<in> set (pending_items j d)"
    proof cases
      case 1
      with r show ?thesis by (simp only: pending_items_set mem_Collect_eq) simp
    qed simp
  qed
  show "t_members d' = t_members d" "t_peer_cache d' = t_peer_cache d" "job_get j d' = job_get j d"
    by (simp_all add: d' job_get_def)
qed

section \<open>The loop over one candidate ends\<close>

interpretation calls: exec_frame "\<lambda>s t. x_rpcs t = x_rpcs s"
  by unfold_locales simp_all

definition wait_reply :: "exec_env \<Rightarrow> nat \<Rightarrow> bool" where
  "wait_reply env n = (case rpc_error env n of None \<Rightarrow> False | Some e \<Rightarrow> de_code e = RATE_LIMIT)"

definition count_waits :: "exec_env \<Rightarrow> nat \<Rightarrow> nat \<Rightarrow> nat" where
  "count_waits env n k = length (filter (wait_reply env) [n..<n + k])"

lemma count_waits_Suc:
  "count_waits env n (Suc k) = (if wait_reply env n then 1 else 0) + count_waits env (Suc n) k"
proof -
  have "[n..<n + Suc k] = n # [Suc n..<Suc n + k]" by (simp add: upt_conv_Cons del: upt_Suc)
  then show ?thesis by (simp add: count_waits_def del: upt_Suc)
qed

lemma calls_flood_wait: "xrel (\<lambda>s t. x_rpcs t = x_rpcs s) (flood_wait env j a c n t e)"
  unfolding flood_wait_def Let_def
  by (intro calls.rel_bind calls.rel_flush calls.rel_mark_retry calls.rel_set_account calls.rel_set_job
      calls.rel_await_write calls.rel_xsleep calls.rel_handle_control calls.rel_modify calls.rel_get)
    (auto simp: xrel_def xlog_def xmodify_def xreturn_def
      intro!: xrelD [OF calls.rel_bind] calls.rel_set_job calls.rel_bind calls.rel_set_account calls.rel_return)

text \<open>One more call, and what the reply of a further round was.\<close>

lemma flood_wait_again: "flood_wait env j a c n t e s = (Inr (Again n' t'), s') \<Longrightarrow> t' = t"
  by (auto simp: flood_wait_def Let_def xbind_def xreturn_def split: prod.splits sum.splits if_splits)

lemma calls_attempt_reply: "xrel (\<lambda>s t. x_rpcs t = x_rpcs s) (attempt_reply env j a c n t r)"
proof -
  have "xrel (\<lambda>s t. x_rpcs t = x_rpcs s) (xbind mark_stable (\<lambda>_. xreturn v))" for v :: attempt_next
    unfolding mark_stable_def by (intro calls.rel_bind calls.rel_modify calls.rel_return) simp
  then show ?thesis
    unfolding attempt_reply_def Let_def
    by (auto split: option.split intro!: calls_flood_wait calls.rel_rate_limited calls.rel_pause_job
        calls.rel_transient)
qed

lemma attempt_reply_again:
  assumes "attempt_reply env j a c n t r s = (Inr (Again n' t'), s')"
  shows "case r of None \<Rightarrow> False
    | Some e \<Rightarrow> if de_code e = RATE_LIMIT then t' = t else t' = Suc t \<and> t' < 3"
proof (cases r)
  case None
  with assms show ?thesis by (simp add: attempt_reply_def xbind_def mark_stable_def xmodify_def xreturn_def)
next
  case (Some e)
  show ?thesis
  proof (cases "de_code e = RATE_LIMIT")
    case True
    with assms Some flood_wait_again show ?thesis by (auto simp: attempt_reply_def Let_def)
  next
    case False
    with assms Some show ?thesis
      by (auto simp: attempt_reply_def Let_def rate_limited_indefinitely_def pause_job_def
          transient_failure_def xbind_def xreturn_def mark_stable_def xmodify_def
          TRANSIENT_RETRY_DELAYS_SECONDS_def split: prod.splits sum.splits if_splits)
  qed
qed

lemma rpc_calls: "x_rpcs (snd (rpc env j act m s)) = Suc (x_rpcs s)"
proof -
  have "x_rpcs (run_due env j (elapse dt x)) = x_rpcs x" for dt x
    using calls.rel_run_due calls.rel_elapse by metis
  then show ?thesis by (simp add: rpc_def Let_def)
qed

lemma attempt_step_again:
  assumes "attempt_step env act j a c n t s = (Inr (Again n' t'), s')"
  shows "x_rpcs s' = Suc (x_rpcs s) \<and>
    (if wait_reply env (x_rpcs s) then t' = t else t' = Suc t \<and> t' < 3)"
proof -
  obtain ctl s1 where sl: "xsleep env j (\<lambda>s. remaining_delay (x_sched s)) s = (Inr ctl, s1)"
    by (simp add: xsleep_def split_beta)
  obtain h s2 where h: "handle_control env j a ctl s1 = (h, s2)" by fastforce
  have n1: "x_rpcs s1 = x_rpcs s" "x_rpcs s2 = x_rpcs s1"
    using xrelD [OF calls.rel_xsleep] sl xrelD [OF calls.rel_handle_control] h by (metis snd_conv)+
  have hf: "h = Inr False" using assms sl h
    by (auto simp: attempt_step_def xbind_def xreturn_def split: sum.splits if_splits)
  let ?s3 = "s2\<lparr>x_sched := mark_attempt (x_sched s2)\<rparr>"
  obtain s4 where r: "rpc env j act (cd_member c) ?s3 = (Inr (rpc_error env (x_rpcs s2)), s4)"
    by (simp add: rpc_def Let_def)
  have n4: "x_rpcs s4 = Suc (x_rpcs s2)" using rpc_calls [of env j act "cd_member c" ?s3] r by simp
  have "attempt_reply env j a c (n + 1) t (rpc_error env (x_rpcs s2)) s4 = (Inr (Again n' t'), s')"
    using assms sl h hf r by (simp add: attempt_step_def xbind_def xmodify_def)
  from attempt_reply_again [OF this] xrelD [OF calls_attempt_reply] this n1 n4
  show ?thesis by (auto simp: wait_reply_def split: option.splits if_splits) (metis snd_conv)+
qed

lemma attempt_loop_ends:
  assumes "count_waits env (x_rpcs s) fuel + (3 - t) \<le> fuel" "t < 3"
  shows "attempt_loop fuel env act j a c n t s \<noteq> None"
  using assms
proof (induction fuel arbitrary: n t s)
  case (Suc fuel)
  obtain r s1 where st: "attempt_step env act j a c n t s = (r, s1)" by fastforce
  show ?case
  proof (cases "\<exists>n' t'. r = Inr (Again n' t')")
    case True
    then obtain n' t' where r: "r = Inr (Again n' t')" by blast
    from attempt_step_again [of env act j a c n t s n' t' s1] st r
    have again: "x_rpcs s1 = Suc (x_rpcs s)"
        "if wait_reply env (x_rpcs s) then t' = t else t' = Suc t \<and> t' < 3" by auto
    have "count_waits env (x_rpcs s1) fuel + (3 - t') \<le> fuel" "t' < 3"
      using Suc.prems again by (auto simp: count_waits_Suc split: if_splits)
    then show ?thesis using Suc.IH st r by simp
  next
    case False
    with st show ?thesis by (auto split: sum.splits attempt_next.splits)
  qed
qed simp

lemma attempt_step_calls: "x_rpcs (snd (attempt_step env act j a c n t s)) \<le> Suc (x_rpcs s)"
proof -
  obtain ctl s1 where sl: "xsleep env j (\<lambda>s. remaining_delay (x_sched s)) s = (Inr ctl, s1)"
    by (simp add: xsleep_def split_beta)
  obtain h s2 where h: "handle_control env j a ctl s1 = (h, s2)" by fastforce
  have n1: "x_rpcs s1 = x_rpcs s" "x_rpcs s2 = x_rpcs s1"
    using xrelD [OF calls.rel_xsleep] sl xrelD [OF calls.rel_handle_control] h by (metis snd_conv)+
  let ?s3 = "s2\<lparr>x_sched := mark_attempt (x_sched s2)\<rparr>"
  obtain r s4 where r: "rpc env j act (cd_member c) ?s3 = (Inr r, s4)"
    by (simp add: rpc_def Let_def)
  have n4: "x_rpcs s4 = Suc (x_rpcs s2)" using rpc_calls [of env j act "cd_member c" ?s3] r by simp
  have n5: "x_rpcs (snd (attempt_reply env j a c (n + 1) t r s4)) = x_rpcs s4"
    by (rule xrelD [OF calls_attempt_reply])
  show ?thesis
    using sl h r n1 n4 n5
    by (cases h) (auto simp: attempt_step_def xbind_def xmodify_def xreturn_def)
qed

lemma attempt_loop_calls:
  "attempt_loop fuel env act j a c n t s = Some (r, s') \<Longrightarrow> x_rpcs s' \<le> x_rpcs s + fuel"
proof (induction fuel arbitrary: n t s)
  case (Suc fuel)
  obtain r1 s1 where st: "attempt_step env act j a c n t s = (r1, s1)" by fastforce
  have "x_rpcs s1 \<le> Suc (x_rpcs s)" using attempt_step_calls [of env act j a c n t s] st by simp
  then show ?case
    using Suc.prems Suc.IH [of _ _ s1] st by (fastforce split: sum.splits attempt_next.splits)
qed simp

lemma attempt_v12_calls:
  assumes "attempt_v12 fuel env act j a c s = Some (r, s')"
  shows "x_rpcs s' \<le> x_rpcs s + fuel"
proof -
  obtain r1 s1 where at: "attempt fuel env act j a c s = Some (r1, s1)"
    using assms by (cases "attempt fuel env act j a c s") (auto simp: attempt_v12_def)
  have 1: "x_rpcs s1 \<le> x_rpcs s + fuel"
    using at attempt_loop_calls by (auto simp: attempt_def split: if_splits)
  have "x_rpcs (snd (record_restriction env act j a v s1)) = x_rpcs s1" for v :: "item_update option \<times> bool"
    by (rule xrelD [OF calls.rel_record_restriction])
  with 1 assms at show ?thesis
    by (auto simp: attempt_v12_def split: sum.splits) (metis snd_conv)
qed

text \<open>
  C13. The loop over one candidate ends: if at most \<open>R\<close> of the next \<open>R + 3\<close> replies ask to wait,
  it ends after at most \<open>R + 3\<close> calls, so a candidate is given up after three transient failures.
\<close>

theorem attempt_terminates:
  assumes "count_waits env (x_rpcs s) (R + 3) \<le> R"
  shows "\<exists>r s'. attempt_v12 (R + 3) env action job_id account_id cand s = Some (r, s') \<and>
    x_rpcs s' \<le> x_rpcs s + (R + 3)"
proof -
  have "attempt (R + 3) env action job_id account_id cand s \<noteq> None"
    using attempt_loop_ends [of env s "R + 3" 0] assms by (simp add: attempt_def)
  then obtain r s' where "attempt_v12 (R + 3) env action job_id account_id cand s = Some (r, s')"
    by (fastforce simp: attempt_v12_def split: option.splits sum.splits)
  with attempt_v12_calls show ?thesis by blast
qed

text \<open>An environment in which the second call is answered by a flood wait of twenty seconds.\<close>

definition flood_env :: exec_env where
  "flood_env =
     \<lparr>e_rpc = (\<lambda>n. (0, if n = 1 then Some (flood_wait_exc (Some 20)) else None)), e_req = (\<lambda>_. []),
      e_late = (\<lambda>_. 0), e_utc = (\<lambda>_. 0), e_write = (\<lambda>_. (0, None)), e_mono = (\<lambda>_. 0), e_lock = 0,
      e_metrics = False\<rparr>"

definition sample_state :: exec_state where
  "sample_state =
     \<lparr>x_db = sample_db, x_sched = demo_scheduler, x_stop = False, x_pause = False, x_running = None,
      x_buf = [], x_last_flush = 0, x_flush_due = None, x_perf = 0, x_polls = 0, x_sleeps = 0,
      x_rpcs = 0, x_writes = 0, x_latencies = [], x_trace = []\<rparr>"

lemma flood_env_errors: "rpc_error flood_env n = (if n = 1 then Some (err_map (flood_wait_exc (Some 20))) else None)"
  by (simp add: rpc_error_def rpc_reply_def flood_env_def RPC_WATCHDOG_SECONDS_def)

lemma flood_env_waits: "wait_reply flood_env n \<longleftrightarrow> n = 1"
proof -
  have "de_code (err_map (flood_wait_exc (Some 20))) = RATE_LIMIT" by code_simp
  then show ?thesis by (simp add: wait_reply_def flood_env_errors)
qed

theorem attempt_terminates_witness:
  "\<exists>r s'. attempt_v12 4 flood_env ''INVITE'' 1 1 (row_candidate (hd (pending_rows 1 1 sample_db))) sample_state =
      Some (r, s') \<and> x_rpcs s' \<le> 4"
proof -
  have "count_waits flood_env (x_rpcs sample_state) (1 + 3) \<le> 1"
    by (simp add: count_waits_def flood_env_waits sample_state_def upt_rec)
  from attempt_terminates [OF this, of "''INVITE''" 1 1 "row_candidate (hd (pending_rows 1 1 sample_db))"]
  show ?thesis by (simp add: sample_state_def)
qed

section \<open>A run without interruptions\<close>

text \<open>
  No stop or pause request arrives, no write fails, no reply pauses the job, and the server relents:
  of any \<open>R + 3\<close> replies in a row at most \<open>R\<close> ask to wait.
\<close>

definition calm :: "exec_env \<Rightarrow> nat \<Rightarrow> bool" where
  "calm env R =
     ((\<forall>n. e_req env n = []) \<and> (\<forall>n. snd (e_write env n) = None) \<and>
      (\<forall>n. case rpc_error env n of None \<Rightarrow> True
           | Some e \<Rightarrow> de_code e \<notin> {RATE_LIMIT_INDEFINITE, PERMISSION, AUTH}) \<and>
      (\<forall>n. count_waits env n (R + 3) \<le> R))"

text \<open>
  The invariant of an uninterrupted run, for the candidates up to ordinal \<open>lo\<close> handed out and the
  rows \<open>rest\<close> still to come: a pending item handed out has its result in the buffer, or is the one
  in hand (\<open>busy\<close>).
\<close>

definition going_db :: "int \<Rightarrow> int \<Rightarrow> int \<Rightarrow> int set \<Rightarrow> pending_row list \<Rightarrow> item_update list \<Rightarrow> db \<Rightarrow> bool" where
  "going_db j a lo busy rest buf d =
     (db_wf d \<and> map_option j_state (job_get j d) \<in> {Some JS_RUNNING, Some JS_WAITING_SERVER} \<and>
      (\<forall>u \<in> set buf. iu_ordinal u \<le> lo \<and> is_final (iu_state u)) \<and>
      rows_after j a lo d = rest \<and>
      (\<forall>r \<in> set (pending_items j d). i_ordinal r \<le> lo \<longrightarrow> i_ordinal r \<in> iu_ordinal ` set buf \<union> busy))"

definition going :: "int \<Rightarrow> int \<Rightarrow> int \<Rightarrow> int set \<Rightarrow> pending_row list \<Rightarrow> exec_state \<Rightarrow> bool" where
  "going j a lo busy rest s =
     (going_db j a lo busy rest (x_buf s) (x_db s) \<and> \<not> x_stop s \<and> \<not> x_pause s)"

lemma going_cong:
  "x_db t = x_db s \<Longrightarrow> x_buf t = x_buf s \<Longrightarrow> x_stop t = x_stop s \<Longrightarrow> x_pause t = x_pause s \<Longrightarrow>
     going j a lo busy rest t = going j a lo busy rest s"
  by (simp add: going_def)

lemma going_db_quiet:
  assumes "going_db j a lo busy rest buf d" "db_wf d'" "t_migration_items d' = t_migration_items d"
    "t_members d' = t_members d" "t_peer_cache d' = t_peer_cache d"
    "map_option j_state (job_get j d') \<in> {Some JS_RUNNING, Some JS_WAITING_SERVER}"
  shows "going_db j a lo busy rest buf d'"
  using assms pending_items_cong [OF assms(3), of j] rows_after_cong [OF assms(4,5), of lo j a]
  by (simp add: going_db_def)

text \<open>The writes of the loop succeed and keep the invariant.\<close>

definition op_goes :: "int \<Rightarrow> int \<Rightarrow> int \<Rightarrow> int set \<Rightarrow> pending_row list \<Rightarrow> 'a dbop \<Rightarrow> bool" where
  "op_goes j a lo busy rest op =
     (\<forall>buf d. going_db j a lo busy rest buf d \<longrightarrow> (\<exists>v d'. op d = Inr (v, d') \<and> going_db j a lo busy rest buf d'))"

lemma set_state_result:
  assumes "submit_set_state j st w c cl d = Inr ((), d')"
  shows "map_option j_state (job_get j d') = map_option (\<lambda>_. st) (job_get j d)"
    "t_migration_items d' = t_migration_items d" "t_members d' = t_members d" "t_peer_cache d' = t_peer_cache d"
proof -
  let ?f = "\<lambda>d. state_row st w c cl (db_now d)"
  have d': "d' = d\<lparr>t_jobs := update_where (\<lambda>r. j_id r = j) (?f d) (t_jobs d)\<rparr>"
    using assms by (simp add: submit_set_state_def update_jobs_apply)
  show "map_option j_state (job_get j d') = map_option (\<lambda>_. st) (job_get j d)"
    using job_get_update [where f = ?f and k = j and i = j and d = d]
    by (simp add: d' option.map_comp comp_def)
  show "t_migration_items d' = t_migration_items d" "t_members d' = t_members d" "t_peer_cache d' = t_peer_cache d"
    by (simp_all add: d')
qed

lemma set_state_goes:
  assumes "st \<in> {JS_RUNNING, JS_WAITING_SERVER}"
  shows "op_goes j a lo busy rest (submit_set_state j st w c cl)"
  unfolding op_goes_def
proof (intro allI impI)
  fix buf d assume g: "going_db j a lo busy rest buf d"
  obtain d' where d': "submit_set_state j st w c cl d = Inr ((), d')" using submit_set_state_ok by blast
  have "db_wf d'" using keeps_wfD [OF submit_set_state_wf _ d'] g by (simp add: going_db_def)
  moreover have "map_option j_state (job_get j d') \<in> {Some JS_RUNNING, Some JS_WAITING_SERVER}"
    using set_state_result(1) [OF d'] g assms by (cases "job_get j d") (auto simp: going_db_def)
  ultimately have "going_db j a lo busy rest buf d'"
    using going_db_quiet [OF g] set_state_result [OF d'] by blast
  with d' show "\<exists>v d'. submit_set_state j st w c cl d = Inr (v, d') \<and> going_db j a lo busy rest buf d'" by blast
qed

lemma account_state_goes: "op_goes j a lo busy rest (account_set_state_v12 i st e)"
  unfolding op_goes_def
proof (intro allI impI)
  fix buf d assume g: "going_db j a lo busy rest buf d"
  obtain d' where d': "account_set_state_v12 i st e d = Inr ((), d')"
    by (simp add: account_set_state_v12_def update_accounts_def split_beta)
  have "db_wf d'" using keeps_wfD [OF account_writes_wf(5) _ d'] g by (simp add: going_db_def)
  moreover have "t_migration_items d' = t_migration_items d" "t_members d' = t_members d"
      "t_peer_cache d' = t_peer_cache d" "t_jobs d' = t_jobs d"
    using d' by (auto simp: account_set_state_v12_def update_accounts_def split: prod.splits)
  ultimately have "going_db j a lo busy rest buf d'"
    using going_db_quiet [OF g] g by (simp add: going_db_def job_get_def)
  with d' show "\<exists>v d'. account_set_state_v12 i st e d = Inr (v, d') \<and> going_db j a lo busy rest buf d'" by blast
qed

lemma event_goes: "op_goes j a lo busy rest (submit_event j l ec m mid)"
  unfolding op_goes_def
proof (intro allI impI)
  fix buf d assume g: "going_db j a lo busy rest buf d"
  then have "job_get j d \<noteq> None" by (auto simp: going_db_def)
  then have "j \<in> job_ids d" by (auto dest: job_get_SomeD)
  then obtain v d' where d': "submit_event j l ec m mid d = Inr (v, d')"
      and f: "t_migration_items d' = t_migration_items d" "t_members d' = t_members d"
      "t_peer_cache d' = t_peer_cache d" "t_jobs d' = t_jobs d"
    by (simp add: submit_event_def insert_event_def Let_def)
  have "db_wf d'" using keeps_wfD [OF submit_event_wf _ d'] g by (simp add: going_db_def)
  with f have "going_db j a lo busy rest buf d'"
    using going_db_quiet [OF g] g by (simp add: going_db_def job_get_def)
  with d' show "\<exists>v d'. submit_event j l ec m mid d = Inr (v, d') \<and> going_db j a lo busy rest buf d'" by blast
qed

lemma retry_goes:
  assumes "lo \<in> busy"
  shows "op_goes j a lo busy rest (submit_mark_retry j lo n ec et nx)"
  unfolding op_goes_def
proof (intro allI impI)
  fix buf d assume g: "going_db j a lo busy rest buf d"
  obtain d' where d': "submit_mark_retry j lo n ec et nx d = Inr ((), d')"
    by (simp add: submit_mark_retry_def update_items_apply)
  note eff = retry_effect [OF d']
  have "db_wf d'" using keeps_wfD [OF submit_mark_retry_wf _ d'] g by (simp add: going_db_def)
  moreover have "rows_after j a lo d' = rest"
    using rows_after_cong [OF eff(3,4,1)] g by (simp add: going_db_def)
  ultimately have "going_db j a lo busy rest buf d'"
    using g eff(2,5) assms by (auto simp: going_db_def)
  with d' show "\<exists>v d'. submit_mark_retry j lo n ec et nx d = Inr (v, d') \<and> going_db j a lo busy rest buf d'" by blast
qed

lemma batch_goes:
  assumes "going_db j a lo busy rest buf d"
  shows "\<exists>d'. submit_update_items_batch j buf c d = Inr ((), d') \<and> going_db j a lo busy rest [] d'"
proof -
  obtain d' where d': "submit_update_items_batch j buf c d = Inr ((), d')"
    using submit_update_items_batch_ok by blast
  have fin: "\<forall>u \<in> set buf. is_final (iu_state u)" and le: "\<forall>u \<in> set buf. iu_ordinal u \<le> lo"
    using assms by (auto simp: going_db_def)
  note eff = batch_effect [OF fin d']
  have "db_wf d'" using keeps_wfD [OF submit_update_items_batch_wf _ d'] assms by (simp add: going_db_def)
  moreover have "filter (\<lambda>r. lo < i_ordinal r) (pending_items j d') = filter (\<lambda>r. lo < i_ordinal r) (pending_items j d)"
    unfolding eff(1) filter_filter by (rule filter_cong) (use le in fastforce)+
  then have "rows_after j a lo d' = rest"
    using rows_after_cong [OF eff(2,3)] assms by (simp add: going_db_def)
  ultimately have "going_db j a lo busy rest [] d'"
    using assms eff(1,4) by (auto simp: going_db_def)
  with d' show ?thesis by blast
qed

section \<open>The operations of the loop, uninterrupted\<close>

definition xgo :: "int \<Rightarrow> int \<Rightarrow> int \<Rightarrow> int set \<Rightarrow> pending_row list \<Rightarrow> 'a xm \<Rightarrow> ('a \<Rightarrow> bool) \<Rightarrow> bool" where
  "xgo j a lo busy rest m Q =
     (\<forall>s. going j a lo busy rest s \<longrightarrow> (\<exists>v s'. m s = (Inr v, s') \<and> Q v \<and> going j a lo busy rest s'))"

lemma xgoI:
  "(\<And>s. going j a lo busy rest s \<Longrightarrow> \<exists>v s'. m s = (Inr v, s') \<and> Q v \<and> going j a lo busy rest s') \<Longrightarrow>
     xgo j a lo busy rest m Q"
  by (simp add: xgo_def)

lemma xgoD:
  "xgo j a lo busy rest m Q \<Longrightarrow> going j a lo busy rest s \<Longrightarrow>
     \<exists>v s'. m s = (Inr v, s') \<and> Q v \<and> going j a lo busy rest s'"
  by (simp add: xgo_def)

lemma xgo_return: "Q v \<Longrightarrow> xgo j a lo busy rest (xreturn v) Q"
  by (simp add: xgo_def xreturn_def)

lemma xgo_bind:
  "xgo j a lo busy rest m P \<Longrightarrow> (\<And>v. P v \<Longrightarrow> xgo j a lo busy rest (f v) Q) \<Longrightarrow>
     xgo j a lo busy rest (xbind m f) Q"
  unfolding xgo_def xbind_def by fastforce

lemma xgo_modify:
  "(\<And>s. x_db (f s) = x_db s \<and> x_buf (f s) = x_buf s \<and> x_stop (f s) = x_stop s \<and> x_pause (f s) = x_pause s) \<Longrightarrow>
     xgo j a lo busy rest (xmodify f) (\<lambda>_. True)"
  by (simp add: xgo_def xmodify_def going_def)

lemma xgo_log: "xgo j a lo busy rest (xlog ev) (\<lambda>_. True)"
  unfolding xlog_def by (rule xgo_modify) simp

lemma going_elapse: "going j a lo busy rest (elapse dt s) = going j a lo busy rest s"
  by (rule going_cong) (simp_all add: elapse_def)

lemma write_op_calm:
  assumes "calm env R" "op (x_db s) = Inr (v, d')"
  shows "\<exists>s'. write_op env op s = (Inr v, s') \<and> x_db s' = d' \<and> x_buf s' = x_buf s \<and> x_stop s' = x_stop s \<and>
    x_pause s' = x_pause s \<and> x_flush_due s' = x_flush_due s"
proof -
  obtain dt where "e_write env (x_writes s) = (dt, None)"
    using assms(1) by (metis calm_def prod.collapse)
  with assms(2) show ?thesis by (simp add: write_op_def elapse_def)
qed

lemma flush_raw_goes:
  assumes "calm env R" "going j a lo busy rest s"
  shows "\<exists>s'. flush_raw env j f s = (Inr (), s') \<and> going j a lo busy rest s' \<and> (f \<longrightarrow> x_buf s' = [])"
proof (cases "x_buf s = [] \<or> (\<not> f \<and> length (x_buf s) < MIGRATION_DB_BATCH_SIZE \<and>
      py_monotonic env s - x_last_flush s < MIGRATION_DB_MAX_FLUSH_SECONDS)")
  case True
  with assms(2) show ?thesis by (auto simp: flush_raw_def)
next
  case False
  let ?c = "Some (last_ordinal_checkpoint (iu_ordinal (last (x_buf s))))"
  obtain d' where d': "submit_update_items_batch j (x_buf s) ?c (x_db s) = Inr ((), d')"
      and g: "going_db j a lo busy rest [] d'"
    using batch_goes assms(2) unfolding going_def by blast
  obtain s1 where w: "write_op env (submit_update_items_batch j (x_buf s) ?c) (s\<lparr>x_buf := []\<rparr>) = (Inr (), s1)"
      and s1: "x_db s1 = d'" "x_buf s1 = []" "x_stop s1 = x_stop s" "x_pause s1 = x_pause s"
    using write_op_calm [OF assms(1), of "submit_update_items_batch j (x_buf s) ?c" "s\<lparr>x_buf := []\<rparr>"] d' by auto
  have "flush_raw env j f s = (Inr (), s1\<lparr>x_last_flush := py_monotonic env s1\<rparr>)"
    using False w by (auto simp: flush_raw_def flush_now_def Let_def xbind_def xmodify_def)
  moreover have "going j a lo busy rest (s1\<lparr>x_last_flush := py_monotonic env s1\<rparr>)"
    using g s1 assms(2) by (simp add: going_def)
  ultimately show ?thesis using s1 by simp
qed

lemma run_due_goes:
  assumes "calm env R" "going j a lo busy rest s"
  shows "going j a lo busy rest (run_due env j s)" "x_buf s = [] \<Longrightarrow> x_buf (run_due env j s) = []"
proof -
  obtain s' where s': "flush_raw env j True s = (Inr (), s')" "going j a lo busy rest s'" "x_buf s' = []"
    using flush_raw_goes [OF assms, of True] by auto
  have "going j a lo busy rest (s'\<lparr>x_flush_due := None\<rparr>)" using s'(2) by (simp add: going_def)
  with s' assms(2) show "going j a lo busy rest (run_due env j s)" "x_buf s = [] \<Longrightarrow> x_buf (run_due env j s) = []"
    by (auto simp: run_due_def split: option.split)
qed

lemma await_write_goes:
  assumes "calm env R" "op_goes j a lo busy rest op"
  shows "xgo j a lo busy rest (await_write env j op) (\<lambda>_. True)"
proof (rule xgoI)
  fix s assume g: "going j a lo busy rest s"
  then obtain v d' where d': "op (x_db s) = Inr (v, d')" "going_db j a lo busy rest (x_buf s) d'"
    using assms(2) unfolding op_goes_def going_def by blast
  obtain s1 where w: "write_op env op s = (Inr v, s1)" and s1: "x_db s1 = d'" "x_buf s1 = x_buf s"
      "x_stop s1 = x_stop s" "x_pause s1 = x_pause s"
    using write_op_calm [where op = op and s = s and v = v and d' = d', OF assms(1) d'(1)] by blast
  have "going j a lo busy rest s1" using d'(2) s1 g by (simp add: going_def)
  from run_due_goes(1) [OF assms(1) this] w
  show "\<exists>v s'. await_write env j op s = (Inr v, s') \<and> True \<and> going j a lo busy rest s'"
    by (simp add: await_write_def)
qed

lemma flush_goes:
  assumes "calm env R"
  shows "xgo j a lo busy rest (flush env j f) (\<lambda>_. True)"
proof (rule xgoI)
  fix s assume "going j a lo busy rest s"
  from flush_raw_goes [OF assms this, of f] run_due_goes(1) [OF assms]
  show "\<exists>v s'. flush env j f s = (Inr v, s') \<and> True \<and> going j a lo busy rest s'"
    by (auto simp: flush_def)
qed

lemma set_job_goes:
  assumes "calm env R" "st \<in> {JS_RUNNING, JS_WAITING_SERVER}"
  shows "xgo j a lo busy rest (set_job env j st w c cl) (\<lambda>_. True)"
  unfolding set_job_def
  by (rule xgo_bind [OF await_write_goes [OF assms(1) set_state_goes [OF assms(2)]]]) (rule xgo_log)

lemma set_account_goes:
  assumes "calm env R"
  shows "xgo j a lo busy rest (set_account env j i st e) (\<lambda>_. True)"
  unfolding set_account_def
  by (rule xgo_bind [OF await_write_goes [OF assms account_state_goes]]) (rule xgo_log)

lemma poll_goes:
  assumes "calm env R" "going j a lo busy rest s"
  shows "\<exists>s'. poll_control env s = (None, s') \<and> going j a lo busy rest s'"
  using assms by (auto simp: poll_control_def Let_def calm_def going_def)

lemma nap_goes:
  assumes "calm env R" "going j a lo busy rest s"
  shows "going j a lo busy rest (nap env j secs s)"
  unfolding nap_def by (rule run_due_goes(1) [OF assms(1)]) (use assms(2) in \<open>simp add: going_def\<close>)

lemma sleep_loop_goes:
  assumes "calm env R" "going j a lo busy rest s"
  shows "\<exists>s'. sleep_loop env j deadline s = (None, s') \<and> going j a lo busy rest s'"
  using assms
proof (induction env j deadline s rule: sleep_loop.induct)
  case (1 env j deadline s)
  obtain s1 where p: "poll_control env s = (None, s1)" and g: "going j a lo busy rest s1"
    using poll_goes [OF 1(2,3)] by blast
  show ?case
  proof (cases "deadline - x_now s1 \<le> 0")
    case True
    then show ?thesis using p g by (subst sleep_loop.simps) simp
  next
    case False
    have "\<exists>s'. sleep_loop env j deadline (nap env j (min (1/4) (deadline - x_now s1)) s1) = (None, s') \<and>
        going j a lo busy rest s'"
      using 1(1) [OF p [symmetric]] False 1(2) nap_goes [OF 1(2) g] by simp
    then show ?thesis using p False by (subst sleep_loop.simps) (simp add: Let_def)
  qed
qed

lemma xsleep_goes:
  assumes "calm env R"
  shows "xgo j a lo busy rest (xsleep env j f) (\<lambda>c. c = None)"
proof (rule xgoI)
  fix s assume g: "going j a lo busy rest s"
  have "\<exists>s'. sleep env j (f s) s = (None, s') \<and> going j a lo busy rest s'"
    using sleep_loop_goes [OF assms g] poll_goes [OF assms nap_goes [OF assms g]] by (simp add: sleep_def)
  then show "\<exists>v s'. xsleep env j f s = (Inr v, s') \<and> v = None \<and> going j a lo busy rest s'"
    by (auto simp: xsleep_def)
qed

lemma control_goes: "xgo j a lo busy rest (handle_control env j b None) (\<lambda>v. \<not> v)"
  by (simp add: handle_control_def xgo_return)

section \<open>One candidate, uninterrupted\<close>

text \<open>What a reply leads to when it neither pauses the job nor stops the loop.\<close>

definition next_ok :: "candidate \<Rightarrow> attempt_next \<Rightarrow> bool" where
  "next_ok c nx =
     (case nx of
        Again _ _ \<Rightarrow> True
      | Done u stop \<Rightarrow> \<not> stop \<and> (\<exists>r. u = Some r \<and> iu_ordinal r = cd_ordinal c \<and> is_final (iu_state r)))"

lemma next_ok_simps [simp]:
  "next_ok c (Again n t)"
  "next_ok c (Done (Some (result_of c st n e)) False) \<longleftrightarrow> is_final st"
  by (auto simp: next_ok_def result_of_def)

lemma flood_wait_goes:
  assumes "calm env R" "cd_ordinal c \<in> busy"
  shows "xgo j a (cd_ordinal c) busy rest (flood_wait env j i c n t e) (next_ok c)"
  unfolding flood_wait_def Let_def mark_retry_def
  apply (rule xgo_bind [OF xgo_modify], simp)
  apply (rule xgo_bind [where P = "\<lambda>_. True"], simp add: xgo_def xlog_def xmodify_def going_def)
  apply (rule xgo_bind [where P = "\<lambda>_. True"], simp add: xgo_def xreturn_def)
  apply (rule xgo_bind [OF flush_goes [OF assms(1)]])
  apply (rule xgo_bind [OF await_write_goes [OF assms(1) retry_goes [OF assms(2)]]])
  apply (rule xgo_bind [OF set_account_goes [OF assms(1)]])
  apply (rule xgo_bind [OF set_job_goes [OF assms(1)]], simp)
  apply (rule xgo_bind [OF await_write_goes [OF assms(1) event_goes]])
  apply (rule xgo_bind [OF xsleep_goes [OF assms(1)]], simp only:)
  apply (rule xgo_bind [OF control_goes], simp only: if_False)
  apply (rule xgo_bind [OF set_job_goes [OF assms(1)]], simp)
  apply (rule xgo_bind [OF set_account_goes [OF assms(1)]])
  apply (rule xgo_return, simp)
  done

lemma transient_goes:
  assumes "calm env R"
  shows "xgo j a lo busy rest (transient_failure env j i c n t e) (next_ok c)"
proof -
  have "xgo j a lo busy rest (xbind (xsleep env j f) (\<lambda>ctl. xbind (handle_control env j i ctl) (\<lambda>stopped.
      if stopped then xreturn (Done None True) else xreturn v))) (next_ok c)" if "next_ok c v" for f v
    by (rule xgo_bind [OF xsleep_goes [OF assms]], simp only:, rule xgo_bind [OF control_goes])
      (simp add: xgo_return that)
  then show ?thesis
    by (auto simp: transient_failure_def is_final_def intro!: xgo_return cong: if_cong)
qed

lemma attempt_reply_goes:
  assumes "calm env R" "cd_ordinal c \<in> busy" "r = rpc_error env k"
  shows "xgo j a (cd_ordinal c) busy rest (attempt_reply env j i c n t r) (next_ok c)"
proof -
  have stable: "xgo j a (cd_ordinal c) busy rest (xbind mark_stable (\<lambda>_. xreturn v)) (next_ok c)"
    if "next_ok c v" for v
    unfolding mark_stable_def by (rule xgo_bind [OF xgo_modify]) (simp_all add: xgo_return that)
  have ok: "de_code e \<notin> {RATE_LIMIT_INDEFINITE, PERMISSION, AUTH}" if "r = Some e" for e
    using assms(1,3) that unfolding calm_def by (metis option.case(2))
  show ?thesis
  proof (cases r)
    case None
    then show ?thesis by (simp add: attempt_reply_def stable is_final_def)
  next
    case (Some e)
    have "\<not> cr_pause_job (classify r)" "is_final (cr_state (classify r)) \<or>
        de_code e \<in> {RATE_LIMIT, NETWORK_TRANSIENT, SERVER_TRANSIENT}"
      "de_code e \<in> {NETWORK_TRANSIENT, SERVER_TRANSIENT} \<Longrightarrow> cr_retry (classify r)"
      using ok [OF Some] Some by (auto simp: classify_def is_final_def)
    then show ?thesis
      using Some ok [OF Some] flood_wait_goes [OF assms(1,2)] transient_goes [OF assms(1)] stable
      by (auto simp: attempt_reply_def Let_def)
  qed
qed

lemma attempt_step_goes:
  assumes "calm env R" "cd_ordinal c \<in> busy"
  shows "xgo j a (cd_ordinal c) busy rest (attempt_step env act j i c n t) (next_ok c)"
proof -
  have rpc: "xgo j a (cd_ordinal c) busy rest (rpc env j act m) (\<lambda>r. \<exists>k. r = rpc_error env k)" for m
  proof (rule xgoI)
    fix s assume g: "going j a (cd_ordinal c) busy rest s"
    let ?s1 = "s\<lparr>x_trace := x_trace s @ [TRpc act (mb_telegram_user_id m) (x_now s)], x_rpcs := x_rpcs s + 1\<rparr>"
    let ?s2 = "run_due env j (elapse (fst (rpc_reply env (x_rpcs s))) ?s1)"
    have "going j a (cd_ordinal c) busy rest ?s1" using g by (simp add: going_def)
    then have "going j a (cd_ordinal c) busy rest ?s2"
      using run_due_goes(1) [OF assms(1)] going_elapse by blast
    then have "going j a (cd_ordinal c) busy rest ?s2" "going j a (cd_ordinal c) busy rest (?s2\<lparr>x_latencies := ls\<rparr>)" for ls
      by (simp_all add: going_def)
    then show "\<exists>v s'. rpc env j act m s = (Inr v, s') \<and> (\<exists>k. v = rpc_error env k) \<and>
        going j a (cd_ordinal c) busy rest s'"
      by (auto simp: rpc_def Let_def)
  qed
  show ?thesis
    unfolding attempt_step_def
    apply (rule xgo_bind [OF xsleep_goes [OF assms(1)]], simp only:)
    apply (rule xgo_bind [OF control_goes], simp only: if_False)
    apply (rule xgo_bind [OF xgo_modify], simp)
    apply (rule xgo_bind [OF rpc])
    apply (erule exE, rule attempt_reply_goes [OF assms], assumption)
    done
qed

lemma attempt_loop_goes:
  assumes "calm env R" "cd_ordinal c \<in> busy" "going j a (cd_ordinal c) busy rest s"
    and "attempt_loop fuel env act j i c n t s = Some (r, s')"
  shows "\<exists>u. r = Inr (Some u, False) \<and> iu_ordinal u = cd_ordinal c \<and> is_final (iu_state u) \<and>
    going j a (cd_ordinal c) busy rest s'"
  using assms(3,4)
proof (induction fuel arbitrary: n t s)
  case (Suc fuel)
  obtain nx s1 where st: "attempt_step env act j i c n t s = (Inr nx, s1)" "next_ok c nx"
      "going j a (cd_ordinal c) busy rest s1"
    using attempt_step_goes [OF assms(1,2)] Suc.prems(1) unfolding xgo_def by blast
  then show ?case using Suc.IH [of s1] Suc.prems(2) by (cases nx) (auto simp: next_ok_def)
qed simp

lemma attempt_v12_goes:
  assumes "calm env R" "cd_ordinal c \<in> busy" "going j a (cd_ordinal c) busy rest s"
  shows "\<exists>u s'. attempt_v12 (R + 3) env act j i c s = Some (Inr (Some u, False), s') \<and>
    iu_ordinal u = cd_ordinal c \<and> is_final (iu_state u) \<and> going j a (cd_ordinal c) busy rest s'"
proof -
  have "count_waits env (x_rpcs s) (R + 3) + (3 - 0) \<le> R + 3" using assms(1) by (simp add: calm_def)
  then obtain r s1 where l: "attempt_loop (R + 3) env act j i c (cd_persisted_attempts c) 0 s = Some (r, s1)"
    using attempt_loop_ends [of env s "R + 3" 0 act j i c] by fastforce
  obtain u s1 where at: "attempt (R + 3) env act j i c s = Some (Inr (Some u, False), s1)"
      "iu_ordinal u = cd_ordinal c" "is_final (iu_state u)" "going j a (cd_ordinal c) busy rest s1"
  proof (cases "mb_telegram_user_id (cd_member c) = None \<or> mb_access_hash (cd_member c) = None")
    case True
    with assms(3) show ?thesis by (intro that) (auto simp: attempt_def is_final_def)
  next
    case False
    with attempt_loop_goes [OF assms l] l show ?thesis by (auto simp: attempt_def intro: that)
  qed
  have "record_restriction env act j i v s1 = (Inr v, s1)" for v :: "item_update option \<times> bool"
    using at(4) by (auto simp: record_restriction_def going_def going_db_def split: option.split)
  with at show ?thesis by (simp add: attempt_v12_def)
qed

section \<open>The whole run, uninterrupted\<close>

lemma going_advance:
  assumes "going j a lo {} (x # xs) s"
  shows "going j a (pr_ordinal x) {pr_ordinal x} xs s"
proof -
  let ?d = "x_db s" and ?P = "pending_items j (x_db s)"
  have g: "going_db j a lo {} (x # xs) (x_buf s) ?d" using assms by (simp add: going_def)
  then have wf: "db_wf ?d" by (simp add: going_db_def)
  from g obtain r0 rs where items: "filter (\<lambda>r. lo < i_ordinal r) ?P = r0 # rs"
      and x: "the (join_pending a ?d r0) = x" and xs: "map (\<lambda>r. the (join_pending a ?d r)) rs = xs"
    by (auto simp: going_db_def rows_after_def map_eq_Cons_conv)
  have "r0 \<in> set (filter (\<lambda>r. lo < i_ordinal r) ?P)" unfolding items by simp
  then have r0: "r0 \<in> set ?P" "lo < i_ordinal r0" by simp_all
  then have ord: "pr_ordinal x = i_ordinal r0"
    using join_pending_total [OF wf, of r0 a] x by (auto simp: pending_items_set)
  have "sorted_wrt (<) (map i_ordinal (r0 # rs))"
    unfolding items [symmetric] using pending_items_sorted [OF wf, of j]
    by (simp add: sorted_wrt_map sorted_wrt_filter)
  then have above: "\<forall>r \<in> set rs. i_ordinal r0 < i_ordinal r" by auto
  have "filter (\<lambda>r. i_ordinal r0 < i_ordinal r) ?P =
      filter (\<lambda>r. i_ordinal r0 < i_ordinal r) (filter (\<lambda>r. lo < i_ordinal r) ?P)"
    unfolding filter_filter by (rule filter_cong) (use r0(2) in auto)
  also have "\<dots> = rs" unfolding items using above by (simp add: filter_True)
  finally have "rows_after j a (pr_ordinal x) ?d = xs" using xs by (simp add: rows_after_def ord)
  moreover have "i_ordinal r \<in> iu_ordinal ` set (x_buf s) \<union> {pr_ordinal x}"
    if "r \<in> set ?P" "i_ordinal r \<le> pr_ordinal x" for r
  proof (cases "i_ordinal r \<le> lo")
    case True
    with g that(1) show ?thesis by (auto simp: going_db_def)
  next
    case False
    with that(1) have "r \<in> set (filter (\<lambda>r. lo < i_ordinal r) ?P)" by simp
    with above that(2) show ?thesis unfolding items ord by auto
  qed
  ultimately show ?thesis
    using assms r0(2) ord by (fastforce simp: going_def going_db_def)
qed

lemma record_result_goes:
  assumes "calm env R" "going j a lo {lo} rest s" "iu_ordinal u = lo" "is_final (iu_state u)"
  shows "\<exists>s'. record_result env j u b s = (Inr (), s') \<and> going j a lo {} rest s'"
proof -
  have "going j a lo {} rest (s\<lparr>x_buf := x_buf s @ [u]\<rparr>)"
    using assms(2-4) by (auto simp: going_def going_db_def)
  moreover have "xgo j a lo {} rest (xbind (flush env j False) (\<lambda>_. xbind (xmodify schedule_flush) (\<lambda>_.
      xlog (TItemCompleted j (iu_ordinal u) (iu_state u) (depth b))))) (\<lambda>_. True)"
    by (rule xgo_bind [OF flush_goes [OF assms(1)]], rule xgo_bind [OF xgo_modify])
      (simp_all add: schedule_flush_def xgo_log)
  ultimately show ?thesis
    by (auto simp: record_result_def xbind_modify xgo_def)
qed

lemma going_rows:
  assumes "going j a lo busy rest s"
  shows "filter (\<lambda>r. lo < pr_ordinal r) (pending_rows j a (x_db s)) = rest" "db_wf (x_db s)"
  using assms rows_after_eq [of "x_db s" j a lo] by (simp_all add: going_def going_db_def)

lemma run_loop_goes:
  assumes "calm env R" "going j a lo {} rest s" "buffer_holds j a lo rest b" "length rest < n"
  shows "\<exists>lo' s'. run_loop n (R + 3) env act j a b s = Some (Inr False, s') \<and> going j a lo' {} [] s'"
  using assms(2-4)
proof (induction rest arbitrary: lo s b n)
  case Nil
  obtain m where n: "n = Suc m" using Nil.prems(3) by (cases n) auto
  obtain s0 where p: "poll_control env s = (None, s0)" and g: "going j a lo {} [] s0"
    using poll_goes [OF assms(1) Nil.prems(1)] by blast
  obtain r b1 where pop: "pop (x_db s0) b = (r, b1)" by fastforce
  with pop_holds [OF Nil.prems(2) going_rows(2,1) [OF g] pop] have "pop (x_db s0) b = (None, b1)" by simp
  then have "run_loop n (R + 3) env act j a b s = Some (Inr False, s0)"
    using p n by (simp add: handle_control_def xreturn_def)
  with g show ?case by blast
next
  case (Cons x xs)
  obtain m where n: "n = Suc m" using Cons.prems(3) by (cases n) auto
  obtain s0 where p: "poll_control env s = (None, s0)" and g: "going j a lo {} (x # xs) s0"
    using poll_goes [OF assms(1) Cons.prems(1)] by blast
  obtain r b1 where pop0: "pop (x_db s0) b = (r, b1)" by fastforce
  from pop_holds [OF Cons.prems(2) going_rows(2,1) [OF g] pop0] pop0
  have pop: "pop (x_db s0) b = (Some (row_candidate x), b1)" and b1: "buffer_holds j a (pr_ordinal x) xs b1"
    by simp_all
  obtain u s2 where at: "attempt_v12 (R + 3) env act j a (row_candidate x) s0 = Some (Inr (Some u, False), s2)"
      and u: "iu_ordinal u = pr_ordinal x" "is_final (iu_state u)" and g2: "going j a (pr_ordinal x) {pr_ordinal x} xs s2"
    using attempt_v12_goes [OF assms(1), of "row_candidate x" "{pr_ordinal x}" j a xs s0 act a] going_advance [OF g]
    by auto
  obtain s3 where rec: "record_result env j u b1 s2 = (Inr (), s3)" and g3: "going j a (pr_ordinal x) {} xs s3"
    using record_result_goes [OF assms(1) g2 u] by blast
  have "\<exists>lo' s'. run_loop m (R + 3) env act j a b1 s3 = Some (Inr False, s') \<and> going j a lo' {} [] s'"
    using Cons.IH [OF g3 b1] Cons.prems(3) n by simp
  then show ?case using p pop at rec n by (simp add: handle_control_def xreturn_def)
qed

lemma going_done:
  assumes "going j a lo {} [] s" "x_buf s = []"
  shows "pending_items j (x_db s) = []"
proof -
  have "filter (\<lambda>r. lo < i_ordinal r) (pending_items j (x_db s)) = []"
    using assms(1) by (simp add: going_def going_db_def rows_after_def)
  moreover have "\<not> i_ordinal r \<le> lo" if "r \<in> set (pending_items j (x_db s))" for r
    using assms that by (auto simp: going_def going_db_def)
  ultimately show ?thesis unfolding filter_empty_conv by (metis last_in_set not_le)
qed

lemma run_due_empty:
  "x_buf s = [] \<Longrightarrow> x_db (run_due env j s) = x_db s \<and> x_buf (run_due env j s) = [] \<and>
     x_stop (run_due env j s) = x_stop s \<and> x_pause (run_due env j s) = x_pause s"
  by (simp add: run_due_def flush_raw_def split: option.split)

lemma await_write_empty:
  assumes "calm env R" "x_buf s = []" "op (x_db s) = Inr (v, d')"
  shows "\<exists>s'. await_write env j op s = (Inr v, s') \<and> x_db s' = d' \<and> x_buf s' = [] \<and>
    x_stop s' = x_stop s \<and> x_pause s' = x_pause s"
  using write_op_calm [where op = op and s = s, OF assms(1,3)] run_due_empty assms(2)
  by (fastforce simp: await_write_def)

lemma complete_run_goes:
  assumes "calm env R" "going j a lo {} [] s"
  shows "\<exists>s' row. complete_run env j i s = (Inr (), s') \<and> pending_items j (x_db s') = [] \<and>
    job_get j (x_db s') = Some row \<and> j_state row \<in> {JS_COMPLETED, JS_COMPLETED_WITH_ERRORS} \<and> x_buf s' = []"
proof -
  obtain s0 where f: "flush_raw env j True s = (Inr (), s0)" "going j a lo {} [] s0" "x_buf s0 = []"
    using flush_raw_goes [OF assms, of True] by auto
  let ?s1 = "run_due env j s0"
  have g1: "going j a lo {} [] ?s1" "x_buf ?s1 = []" using run_due_goes [OF assms(1) f(2)] f(3) by auto
  have none: "pending_items j (x_db ?s1) = []" by (rule going_done [OF g1])
  define fin where "fin = (if sm_failed (summary j (x_db ?s1)) \<noteq> 0 then JS_COMPLETED_WITH_ERRORS else JS_COMPLETED)"
  obtain d2 where d2: "submit_set_state j fin None None True (x_db ?s1) = Inr ((), d2)"
    using submit_set_state_ok by blast
  obtain s2 where s2: "await_write env j (submit_set_state j fin None None True) ?s1 = (Inr (), s2)"
      "x_db s2 = d2" "x_buf s2 = []"
    using await_write_empty [where op = "submit_set_state j fin None None True", OF assms(1) g1(2) d2] by blast
  let ?s2 = "s2\<lparr>x_trace := x_trace s2 @ [TJobState j fin None]\<rparr>"
  obtain d3 where d3: "account_set_state_v12 i AS_READY None (x_db ?s2) = Inr ((), d3)"
      and fr: "t_jobs d3 = t_jobs (x_db ?s2)" "t_migration_items d3 = t_migration_items (x_db ?s2)"
    by (simp add: account_set_state_v12_def update_accounts_def split_beta)
  have "x_buf ?s2 = []" using s2(3) by simp
  from await_write_empty [where op = "account_set_state_v12 i AS_READY None", OF assms(1) this d3]
  obtain s3 where s3: "await_write env j (account_set_state_v12 i AS_READY None) ?s2 = (Inr (), s3)"
      "x_db s3 = d3" "x_buf s3 = []" by blast
  let ?s4 = "s3\<lparr>x_trace := x_trace s3 @ [TAccountState i AS_READY None,
      TMigrationCompleted j (summary j (x_db ?s1)) fin]\<rparr>"
  have run: "complete_run env j i s = (Inr (), ?s4)"
    using f(1) s2(1) s3(1)
    by (simp add: complete_run_def flush_def xbind_def xreturn_def set_job_def set_account_def xlog_def
        xmodify_def Let_def fin_def)
  have "pending_items j d3 = []"
    using pending_items_cong [of d2 "x_db ?s1" j] set_state_result(2) [OF d2] none fr(2) s2(2)
    by (simp add: pending_items_def)
  moreover have "\<exists>row. job_get j d3 = Some row \<and> j_state row = fin"
    using set_state_result(1) [OF d2] g1(1) fr(1) s2(2)
    by (auto simp: going_def going_db_def job_get_def)
  ultimately show ?thesis using run s3 by (auto simp: fin_def)
qed

text \<open>
  An uninterrupted run of an idle executor on a job with candidates numbered from zero returns
  normally, with a final result for every pending item and the job in a completed state.
\<close>

lemma run_completes:
  assumes "calm env R" "x_running s = None" "db_wf (x_db s)" "job_get job_id (x_db s) \<noteq> None"
    and "\<forall>r \<in> set (pending_rows job_id account_id (x_db s)). 0 \<le> pr_ordinal r"
    and "length (pending_rows job_id account_id (x_db s)) < n"
  shows "\<exists>s' row. run n (R + 3) env action job_id account_id s = Some (Inr (), s') \<and>
    pending_items job_id (x_db s') = [] \<and> job_get job_id (x_db s') = Some row \<and>
    j_state row \<in> {JS_COMPLETED, JS_COMPLETED_WITH_ERRORS} \<and> x_buf s' = [] \<and> x_running s' = None"
proof -
  let ?s0 = "start_run env job_id s" and ?rows = "pending_rows job_id account_id (x_db s)"
  have s0: "x_buf ?s0 = []" "x_db ?s0 = x_db s" by (simp_all add: start_run_def)
  obtain d1 where d1: "submit_set_state job_id JS_RUNNING None None False (x_db ?s0) = Inr ((), d1)"
    using submit_set_state_ok by blast
  obtain s1 where s1: "await_write env job_id (submit_set_state job_id JS_RUNNING None None False) ?s0 = (Inr (), s1)"
      "x_db s1 = d1" "x_buf s1 = []" "\<not> x_stop s1" "\<not> x_pause s1"
    using await_write_empty [where op = "submit_set_state job_id JS_RUNNING None None False", OF assms(1) s0(1) d1]
    by (auto simp: start_run_def)
  let ?s1 = "s1\<lparr>x_trace := x_trace s1 @ [TJobState job_id JS_RUNNING None]\<rparr>"
  note res = set_state_result [OF d1, unfolded s0(2)]
  have wf1: "db_wf d1" using keeps_wfD [OF submit_set_state_wf _ d1] assms(3) s0(2) by simp
  have rows: "rows_after job_id account_id (-1) d1 = ?rows"
  proof -
    have "rows_after job_id account_id (-1) d1 = rows_after job_id account_id (-1) (x_db s)"
      using rows_after_cong [OF res(3,4)] pending_items_cong [OF res(2)] by simp
    also have "\<dots> = ?rows"
      unfolding rows_after_eq [OF assms(3)] using assms(5) by (intro filter_True) auto
    finally show ?thesis .
  qed
  have "\<not> i_ordinal r \<le> -1" if "r \<in> set (pending_items job_id d1)" for r
  proof -
    have "r \<in> set (pending_items job_id (x_db s))" using that pending_items_cong [OF res(2)] by simp
    then have "i_ordinal r \<in> set (map pr_ordinal ?rows)" by (simp add: pending_rows_ordinals [OF assms(3)])
    with assms(5) show ?thesis by auto
  qed
  moreover have "map_option j_state (job_get job_id d1) = Some JS_RUNNING"
    using res(1) assms(4) by auto
  ultimately have "going_db job_id account_id (-1) {} ?rows [] d1"
    using wf1 rows by (simp add: going_db_def)
  then have g1: "going job_id account_id (-1) {} ?rows ?s1"
    using s1(2-5) by (simp add: going_def)
  obtain s2 where s2: "set_account env job_id account_id AS_BUSY None ?s1 = (Inr (), s2)"
      and g2: "going job_id account_id (-1) {} ?rows s2"
    using xgoD [OF set_account_goes [OF assms(1)] g1, of account_id AS_BUSY None] by auto
  have began: "begin_run env job_id account_id ?s0 = (Inr (), s2)"
    using s1(1) s2 by (simp add: begin_run_def set_job_def xbind_def xlog_def xmodify_def)
  let ?s3 = "run_due env job_id (elapse (e_lock env) s2)"
  have g3: "going job_id account_id (-1) {} ?rows ?s3"
    using run_due_goes(1) [OF assms(1)] g2 going_elapse by blast
  have buf: "buffer_holds job_id account_id (-1) ?rows
      (prime (x_db s2) (CandidateBuffer job_id account_id CANDIDATE_PREFETCH_MIN))"
    by (rule prime_holds [OF new_buffer_holds [OF assms(5)] going_rows(2,1) [OF g2]])
  obtain lo' s4 where loop: "run_loop n (R + 3) env action job_id account_id
        (prime (x_db s2) (CandidateBuffer job_id account_id CANDIDATE_PREFETCH_MIN)) ?s3 = Some (Inr False, s4)"
      and g4: "going job_id account_id lo' {} [] s4"
    using run_loop_goes [OF assms(1) g3 buf assms(6)] by blast
  from complete_run_goes [OF assms(1) g4, of account_id] obtain s5 row
    where c: "complete_run env job_id account_id s4 = (Inr (), s5)" "pending_items job_id (x_db s5) = []"
      "job_get job_id (x_db s5) = Some row" "j_state row \<in> {JS_COMPLETED, JS_COMPLETED_WITH_ERRORS}" "x_buf s5 = []"
    by blast
  have "run n (R + 3) env action job_id account_id s = Some (Inr (), finish_run s5)"
    using assms(2) began loop c(1) by (simp add: run_def end_run_def)
  with c show ?thesis by (intro exI [of _ "finish_run s5"] exI [of _ row]) (simp add: finish_run_def)
qed

text \<open>
  C6. A run that nobody interrupts finishes its work: without stop or pause requests, failing
  writes or replies that pause the job, and with a server that does not ask to wait for ever, the
  run returns normally, no item of the job is left pending, the job is completed, no result is left
  in memory, and the executor is free again.
\<close>

theorem run_completes_all_items:
  assumes "calm env R" "x_running s = None" "db_wf (x_db s)" "job_get job_id (x_db s) \<noteq> None"
    and "\<forall>r \<in> set (pending_rows job_id account_id (x_db s)). 0 \<le> pr_ordinal r"
    and "length (pending_rows job_id account_id (x_db s)) < n"
  shows "\<exists>s' row. run n (R + 3) env action job_id account_id s = Some (Inr (), s') \<and>
    pending_items job_id (x_db s') = [] \<and> job_get job_id (x_db s') = Some row \<and>
    j_state row \<in> {JS_COMPLETED, JS_COMPLETED_WITH_ERRORS} \<and> x_buf s' = [] \<and> x_running s' = None"
  by (rule run_completes [OF assms])

lemma flood_env_calm: "calm flood_env 1"
proof -
  have code: "de_code (err_map (flood_wait_exc (Some 20))) = RATE_LIMIT" by code_simp
  have "count_waits flood_env n 4 \<le> 1" for n
  proof -
    have "filter (wait_reply flood_env) [n..<n + 4] = filter (\<lambda>i. i = 1) [n..<n + 4]"
      by (rule filter_cong) (simp_all add: flood_env_waits)
    then show ?thesis unfolding count_waits_def by (auto simp: upt_rec)
  qed
  then show ?thesis
    using code by (simp add: calm_def flood_env_errors) (simp add: flood_env_def)
qed

lemma sample_state_ready:
  "x_running sample_state = None" "db_wf (x_db sample_state)" "job_get 1 (x_db sample_state) \<noteq> None"
  "\<forall>r \<in> set (pending_rows 1 1 (x_db sample_state)). 0 \<le> pr_ordinal r"
  "length (pending_rows 1 1 (x_db sample_state)) < 3"
proof -
  show "x_running sample_state = None" "db_wf (x_db sample_state)"
    using sample_db_wf by (simp_all add: sample_state_def)
  show "job_get 1 (x_db sample_state) \<noteq> None" by (simp add: sample_state_def job_get_def sample_defs)
  show "\<forall>r \<in> set (pending_rows 1 1 (x_db sample_state)). 0 \<le> pr_ordinal r"
    "length (pending_rows 1 1 (x_db sample_state)) < 3"
    by code_simp+
qed

theorem run_completes_all_items_witness:
  "\<exists>s'. run 3 4 flood_env ''INVITE'' 1 1 sample_state = Some (Inr (), s') \<and> pending_items 1 (x_db s') = []"
  using run_completes_all_items [OF flood_env_calm sample_state_ready, of "''INVITE''"] by auto

end
