(* ===== verification/Executor_Pacing.thy ===== *)
theory Executor_Pacing
  imports Executor_Completion
begin

text \<open>
  The executor never calls Telegram faster than the scheduler allows: the interpretation of
  \<open>exec_frame\<close> on the part of the state the pacing depends on, and the invariant of the trace.
\<close>

section \<open>What the pacing depends on\<close>

definition pace_view ::
  "exec_state \<Rightarrow> seconds \<times> seconds \<times> seconds option \<times> seconds \<times> seconds list \<times> trace_event list" where
  "pace_view s =
     (let sc = x_sched s in
      (sc_interval sc, sc_target_interval sc, sc_last_attempt sc, sc_server_wait_until sc,
       sc_recovery_steps sc, filter (\<lambda>e. \<not> plain_event e) (x_trace s)))"

definition pace_le :: "exec_state \<Rightarrow> exec_state \<Rightarrow> bool" where
  "pace_le s t = (pace_view t = pace_view s \<and> x_now s \<le> x_now t)"

interpretation pace: exec_frame pace_le
proof
  fix s late secs
  show "pace_le s (s\<lparr>x_sched := sched_sleep late secs (x_sched s)\<rparr>)"
    using clock_sleep_mono [of "sc_clock (x_sched s)" late secs]
    by (simp add: pace_le_def pace_view_def x_now_def sched_sleep_def clock_monotonic_def Let_def)
qed (auto simp: pace_le_def pace_view_def x_now_def)

text \<open>
  The order a trace of calls must have: two calls are at least the minimal interval apart, and a
  call comes no earlier than the deadline of a server wait before it.
\<close>

fun admits :: "trace_event \<Rightarrow> trace_event \<Rightarrow> bool" where
  "admits (TRpc _ _ t) (TRpc _ _ t') = (t + MIN_INVITE_INTERVAL_SECONDS \<le> t')"
| "admits (TGate deadline) (TRpc _ _ t') = (deadline \<le> t')"
| "admits _ _ = True"

definition paced :: "trace_event list \<Rightarrow> bool" where
  "paced tr = sorted_wrt admits tr"

lemma admits_plain: "plain_event a \<or> plain_event b \<Longrightarrow> admits a b"
  by (cases a; cases b) auto

lemma paced_filter: "paced tr \<longleftrightarrow> paced (filter (\<lambda>e. \<not> plain_event e) tr)"
  unfolding paced_def by (induction tr) (auto simp: admits_plain)

text \<open>The invariant: recorded calls and deadlines are remembered by the scheduler.\<close>

fun remembered :: "scheduler \<Rightarrow> trace_event \<Rightarrow> bool" where
  "remembered sc (TRpc _ _ t) = (case sc_last_attempt sc of None \<Rightarrow> False | Some l \<Rightarrow> t \<le> l)"
| "remembered sc (TGate deadline) = (deadline \<le> sc_server_wait_until sc)"
| "remembered sc _ = True"

definition pace_inv :: "exec_state \<Rightarrow> bool" where
  "pace_inv s =
     (sched_inv (x_sched s) \<and> paced (x_trace s) \<and> (\<forall>e \<in> set (x_trace s). remembered (x_sched s) e))"

lemma remembered_plain: "plain_event e \<Longrightarrow> remembered sc e"
  by (cases e) auto

lemma remembered_cong:
  "sc_last_attempt sc = sc_last_attempt sc' \<Longrightarrow> sc_server_wait_until sc = sc_server_wait_until sc' \<Longrightarrow>
     remembered sc e = remembered sc' e"
  by (cases e) auto

lemma remembered_filter:
  "(\<forall>e \<in> set tr. remembered sc e) \<longleftrightarrow> (\<forall>e \<in> set (filter (\<lambda>e. \<not> plain_event e) tr). remembered sc e)"
  using remembered_plain by auto

lemma pace_inv_le:
  assumes "pace_le s t" "pace_inv s"
  shows "pace_inv t"
proof -
  have v: "pace_view t = pace_view s" using assms(1) by (simp add: pace_le_def)
  then have "sched_inv (x_sched t) = sched_inv (x_sched s)" and
      f: "filter (\<lambda>e. \<not> plain_event e) (x_trace t) = filter (\<lambda>e. \<not> plain_event e) (x_trace s)" and
      sc: "sc_last_attempt (x_sched t) = sc_last_attempt (x_sched s)"
      "sc_server_wait_until (x_sched t) = sc_server_wait_until (x_sched s)"
    by (auto simp: pace_view_def Let_def sched_inv_def)
  moreover have "paced (x_trace t)"
    using assms(2) f paced_filter [of "x_trace s"] paced_filter [of "x_trace t"] by (simp add: pace_inv_def)
  moreover have "\<forall>e \<in> set (x_trace t). remembered (x_sched t) e"
    using assms(2) f remembered_cong [OF sc]
    unfolding pace_inv_def remembered_filter [of "x_trace t"] remembered_filter [of "x_trace s"] by simp
  ultimately show ?thesis using assms(2) by (simp add: pace_inv_def)
qed

section \<open>A call is only made when it is due\<close>

lemma sleep_loop_deadline: "sleep_loop env j deadline s = (None, s') \<Longrightarrow> deadline \<le> x_now s'"
proof (induction env j deadline s rule: sleep_loop.induct)
  case (1 env j deadline s)
  obtain c s1 where p: "poll_control env s = (c, s1)" by fastforce
  show ?case
    using 1 p by (subst (asm) sleep_loop.simps) (auto simp: Let_def split: option.splits if_splits)
qed

lemma sleep_until: "sleep env j secs s = (None, s') \<Longrightarrow> x_now s + secs \<le> x_now s'"
proof (cases "is_real s")
  case True
  assume "sleep env j secs s = (None, s')"
  with True have "sleep_loop env j (x_now s + max 0 secs) s = (None, s')" by (simp add: sleep_def)
  from sleep_loop_deadline [OF this] show ?thesis by simp
next
  case False
  assume "sleep env j secs s = (None, s')"
  with False have p: "poll_control env (nap env j (max 0 secs) s) = (None, s')" by (simp add: sleep_def)
  from poll_control_now [OF p] nap_now [of s "max 0 secs" env j] show ?thesis by simp
qed

definition call_due :: "exec_state \<Rightarrow> bool" where
  "call_due s =
     (\<forall>e \<in> set (x_trace s). \<forall>action uid. admits e (TRpc action uid (x_now s)))"

lemma sleep_makes_due:
  assumes "pace_inv s" "sleep env j (remaining_delay (x_sched s)) s = (None, s')"
  shows "pace_inv s'" "call_due s'"
proof -
  have le: "pace_le s s'" using pace.rel_sleep [of s env j] assms(2) by (metis snd_conv)
  show inv': "pace_inv s'" by (rule pace_inv_le [OF le assms(1)])
  have v: "sc_interval (x_sched s') = sc_interval (x_sched s)"
      "sc_last_attempt (x_sched s') = sc_last_attempt (x_sched s)"
      "sc_server_wait_until (x_sched s') = sc_server_wait_until (x_sched s)"
    using le by (auto simp: pace_le_def pace_view_def Let_def)
  have now: "x_now s + remaining_delay (x_sched s) \<le> x_now s'" by (rule sleep_until [OF assms(2)])
  have gate: "sc_server_wait_until (x_sched s') \<le> x_now s'"
    using remaining_delay_bounds(2) [of "x_sched s"] now v(3) by (simp add: x_now_def)
  have cadence: "l + MIN_INVITE_INTERVAL_SECONDS \<le> x_now s'" if "sc_last_attempt (x_sched s') = Some l" for l
  proof -
    have "l + sc_interval (x_sched s) \<le> x_now s'"
      using remaining_delay_bounds(3) [of "x_sched s" l] now that v(2) by (simp add: x_now_def)
    moreover have "MIN_INVITE_INTERVAL_SECONDS \<le> sc_interval (x_sched s)"
      using assms(1) by (simp add: pace_inv_def sched_inv_def valid_interval_def)
    ultimately show ?thesis by simp
  qed
  have "admits e (TRpc action uid (x_now s'))" if "e \<in> set (x_trace s')" for e action uid
  proof -
    have "remembered (x_sched s') e" using inv' that by (simp add: pace_inv_def)
    then show ?thesis
      using gate cadence by (cases e) (auto split: option.splits intro: order_trans add_mono)
  qed
  then show "call_due s'" by (simp add: call_due_def)
qed

definition xkeeps :: "(exec_state \<Rightarrow> bool) \<Rightarrow> 'a xm \<Rightarrow> bool" where
  "xkeeps P m = (\<forall>s. P s \<longrightarrow> P (snd (m s)))"

lemma xkeeps_pace: "xrel pace_le m \<Longrightarrow> xkeeps pace_inv m"
  by (auto simp: xkeeps_def xrel_def intro: pace_inv_le)

lemma xkeeps_bind: "xkeeps P m \<Longrightarrow> (\<And>v. xkeeps P (f v)) \<Longrightarrow> xkeeps P (xbind m f)"
  by (auto simp: xkeeps_def xbind_def split: prod.splits sum.splits)

lemma xkeeps_modify: "(\<And>s. P s \<Longrightarrow> P (f s)) \<Longrightarrow> xkeeps P (xmodify f)"
  by (simp add: xkeeps_def xmodify_def)

lemma mark_stable_keeps: "xkeeps pace_inv mark_stable"
  unfolding mark_stable_def
proof (rule xkeeps_modify)
  fix s assume inv: "pace_inv s"
  let ?sc = "mark_stable_candidate (x_sched s)"
  have "sched_inv ?sc" using inv sched_step_inv [OF sched_step.stable] by (simp add: pace_inv_def)
  moreover have "sc_last_attempt ?sc = sc_last_attempt (x_sched s)"
      "sc_server_wait_until ?sc = sc_server_wait_until (x_sched s)"
    by (simp_all add: mark_stable_candidate_def)
  moreover from this have "remembered ?sc e = remembered (x_sched s) e" for e
    by (rule remembered_cong)
  ultimately show "pace_inv (s\<lparr>x_sched := ?sc\<rparr>)" using inv by (simp add: pace_inv_def)
qed

text \<open>Applying a server wait and recording its deadline.\<close>

lemma server_wait_keeps:
  assumes "pace_inv s"
  shows "pace_inv (s\<lparr>x_sched := apply_server_wait w (x_sched s),
           x_trace := x_trace s @ [TGate (x_now s + max 0 w)]\<rparr>)"
proof -
  let ?sc = "apply_server_wait w (x_sched s)"
  have "sched_inv ?sc" using assms sched_step_inv [OF sched_step.server_wait] by (simp add: pace_inv_def)
  moreover have "remembered ?sc e" if "remembered (x_sched s) e" for e
    using that by (cases e) (auto simp: apply_server_wait_def split: option.splits)
  moreover have "remembered ?sc (TGate (x_now s + max 0 w))"
    by (simp add: apply_server_wait_def x_now_def)
  moreover have "admits e (TGate t)" for e t by (cases e) auto
  ultimately show ?thesis using assms by (auto simp: pace_inv_def paced_def sorted_wrt_append)
qed

lemma flood_wait_keeps: "xkeeps pace_inv (flood_wait env j a c n t e)"
proof -
  let ?w = "case de_wait_seconds e of None \<Rightarrow> 0 | Some w \<Rightarrow> w"
  let ?rest = "\<lambda>u. xbind (flush env j True) (\<lambda>_.
      xbind (mark_retry env j c n e (Some u)) (\<lambda>_.
      xbind (set_account env j a AS_WAITING_SERVER (Some (de_text e))) (\<lambda>_.
      xbind (set_job env j JS_WAITING_SERVER (Some u) (before_checkpoint c) False) (\<lambda>_.
      xbind (await_write env j (submit_event j ''WARN'' ''FLOOD_WAIT''
               (Some (''WAIT '' @ int_str ?w @ ''s; retry same candidate''))
               (mb_telegram_user_id (cd_member c)))) (\<lambda>_.
      xbind (xsleep env j (\<lambda>s. remaining_delay (x_sched s))) (\<lambda>ctl.
      xbind (handle_control env j a ctl) (\<lambda>stopped.
      if stopped then xreturn (Done None True)
      else
        xbind (set_job env j JS_RUNNING None None True) (\<lambda>_.
        xbind (set_account env j a AS_BUSY None) (\<lambda>_.
        xreturn (Again n t))))))))))"
  have "xrel pace_le (?rest u)" for u
    by (intro pace.rel_bind pace.rel_flush pace.rel_mark_retry pace.rel_set_account pace.rel_set_job
        pace.rel_await_write pace.rel_xsleep pace.rel_handle_control)
      (simp add: pace.rel_return pace.rel_bind pace.rel_set_job pace.rel_set_account)
  then have rest: "xkeeps pace_inv (?rest u)" for u by (rule xkeeps_pace)
  show ?thesis
    unfolding xkeeps_def
  proof (intro allI impI)
    fix s assume "pace_inv s"
    let ?s1 = "s\<lparr>x_sched := apply_server_wait (of_int ?w) (x_sched s),
        x_trace := x_trace s @ [TGate (x_now s + max 0 (of_int ?w))]\<rparr>"
    have now: "x_now (s\<lparr>x_sched := apply_server_wait v (x_sched s)\<rparr>) = x_now s" for v
      by (simp add: x_now_def apply_server_wait_def)
    have "flood_wait env j a c n t e s = ?rest (utc_wait_until env ?w ?s1) ?s1"
      unfolding flood_wait_def Let_def xbind_modify xbind_log_at xbind_get now by simp
    moreover have "pace_inv ?s1" using server_wait_keeps [OF \<open>pace_inv s\<close>] by simp
    ultimately show "pace_inv (snd (flood_wait env j a c n t e s))"
      using rest unfolding xkeeps_def by metis
  qed
qed

lemma attempt_reply_keeps: "xkeeps pace_inv (attempt_reply env j a c n t r)"
proof -
  have ret: "xkeeps pace_inv (xbind mark_stable (\<lambda>_. xreturn v))" for v :: attempt_next
    by (intro xkeeps_bind mark_stable_keeps xkeeps_pace pace.rel_return)
  show ?thesis
    unfolding attempt_reply_def Let_def
    by (auto split: option.split intro!: ret flood_wait_keeps xkeeps_pace pace.rel_rate_limited
        pace.rel_pause_job pace.rel_transient)
qed

lemma call_keeps:
  assumes "pace_inv s" "call_due s"
  shows "pace_inv (snd (rpc env j act m (s\<lparr>x_sched := mark_attempt (x_sched s)\<rparr>)))"
proof -
  let ?s0 = "s\<lparr>x_sched := mark_attempt (x_sched s)\<rparr>"
  let ?s1 = "?s0\<lparr>x_trace := x_trace s @ [TRpc act (mb_telegram_user_id m) (x_now s)], x_rpcs := x_rpcs s + 1\<rparr>"
  have now: "x_now ?s0 = x_now s" by (simp add: x_now_def mark_attempt_def)
  have "sched_inv (mark_attempt (x_sched s))"
    using assms(1) sched_step_inv [OF sched_step.attempt] by (simp add: pace_inv_def)
  moreover have "remembered (mark_attempt (x_sched s)) e" if "e \<in> set (x_trace s)" for e
  proof -
    have "remembered (x_sched s) e" using assms(1) that by (simp add: pace_inv_def)
    moreover have "admits e (TRpc act None (x_now s))" using assms(2) that by (simp add: call_due_def)
    ultimately show ?thesis
      by (cases e) (auto simp: mark_attempt_def x_now_def interval_constants)
  qed
  moreover have "remembered (mark_attempt (x_sched s)) (TRpc act (mb_telegram_user_id m) (x_now s))"
    by (simp add: mark_attempt_def x_now_def)
  ultimately have 1: "pace_inv ?s1"
    using assms by (auto simp: pace_inv_def paced_def sorted_wrt_append call_due_def)
  let ?s2 = "run_due env j (elapse (fst (rpc_reply env (x_rpcs s))) ?s1)"
  have "pace_le ?s1 ?s2" using pace.r_trans pace.rel_elapse pace.rel_run_due by blast
  then have 2: "pace_inv ?s2" using pace_inv_le 1 by blast
  then have "pace_inv (?s2\<lparr>x_latencies := ls\<rparr>)" for ls using pace_inv_le pace.rel_latencies by blast
  with 2 show ?thesis by (simp add: rpc_def Let_def now)
qed

lemma attempt_step_keeps: "xkeeps pace_inv (attempt_step env act j a c n t)"
  unfolding xkeeps_def
proof (intro allI impI)
  fix s assume inv: "pace_inv s"
  obtain ctl s1 where sl: "sleep env j (remaining_delay (x_sched s)) s = (ctl, s1)" by fastforce
  have inv1: "pace_inv s1" using pace_inv_le [OF pace.rel_sleep inv] sl by (metis snd_conv)
  show "pace_inv (snd (attempt_step env act j a c n t s))"
  proof (cases ctl)
    case None
    let ?out = "rpc env j act (cd_member c) (s1\<lparr>x_sched := mark_attempt (x_sched s1)\<rparr>)"
    have out: "pace_inv (snd ?out)"
      using call_keeps [OF sleep_makes_due [OF inv]] sl None by simp
    obtain r s2 where r: "?out = (Inr r, s2)" by (simp add: rpc_def Let_def)
    have "attempt_step env act j a c n t s = attempt_reply env j a c (n + 1) t r s2"
      using sl None r
      by (simp add: attempt_step_def xbind_def xsleep_def handle_control_def xreturn_def xmodify_def)
    then show ?thesis using out r attempt_reply_keeps unfolding xkeeps_def by (metis snd_conv)
  next
    case (Some x)
    obtain r s2 where h: "handle_control env j a (Some x) s1 = (r, s2)" by fastforce
    have "pace_inv s2"
      using pace_inv_le [OF xrelD [OF pace.rel_handle_control] inv1] h by (metis snd_conv)
    moreover have "r = Inr b \<Longrightarrow> b" for b
      using h by (cases x) (auto simp: handle_control_def xbind_def xreturn_def split: prod.splits sum.splits)
    ultimately show ?thesis
      using sl Some h by (cases r) (auto simp: attempt_step_def xbind_def xsleep_def xreturn_def)
  qed
qed

section \<open>Runs\<close>

lemma attempt_loop_keeps:
  "attempt_loop fuel env act j a c n t s = Some (r, s') \<Longrightarrow> pace_inv s \<Longrightarrow> pace_inv s'"
proof (induction fuel arbitrary: n t s)
  case (Suc fuel)
  obtain r1 s1 where st: "attempt_step env act j a c n t s = (r1, s1)" by fastforce
  have "pace_inv s1" using attempt_step_keeps Suc.prems(2) st unfolding xkeeps_def by (metis snd_conv)
  then show ?case
    using Suc.prems(1) Suc.IH st by (auto split: sum.splits attempt_next.splits)
qed simp

lemma attempt_v12_keeps:
  assumes "attempt_v12 fuel env act j a c s = Some (r, s')" "pace_inv s"
  shows "pace_inv s'"
proof -
  obtain r1 s1 where at: "attempt fuel env act j a c s = Some (r1, s1)"
    using assms(1) by (cases "attempt fuel env act j a c s") (auto simp: attempt_v12_def)
  have 1: "pace_inv s1"
    using at assms(2) attempt_loop_keeps by (auto simp: attempt_def split: if_splits)
  then have "pace_inv (snd (record_restriction env act j a v s1))" for v :: "item_update option \<times> bool"
    by (rule pace_inv_le [OF xrelD [OF pace.rel_record_restriction]])
  with 1 assms(1) at show ?thesis
    by (auto simp: attempt_v12_def split: sum.splits) (metis snd_conv)
qed

lemma run_loop_keeps:
  "run_loop n fuel env act j a b s = Some (r, s') \<Longrightarrow> pace_inv s \<Longrightarrow> pace_inv s'"
proof (induction n arbitrary: b s)
  case (Suc n)
  obtain c s0 where p: "poll_control env s = (c, s0)" by fastforce
  obtain h s1 where h: "handle_control env j a c s0 = (h, s1)" by fastforce
  have "pace_inv s0" using pace_inv_le [OF pace.rel_poll Suc.prems(2)] p by (metis snd_conv)
  then have 1: "pace_inv s1" using pace_inv_le [OF xrelD [OF pace.rel_handle_control]] h by (metis snd_conv)
  have 2: "pace_inv s2" if "attempt_v12 fuel env act j a cand s1 = Some (x, s2)" for cand x s2
    using attempt_v12_keeps [OF that 1] .
  have 3: "pace_inv s3" if "pace_inv s2" "record_result env j u b1 s2 = (x, s3)" for u b1 s2 x s3
    using pace_inv_le [OF xrelD [OF pace.rel_record_result] that(1)] that(2) by (metis snd_conv)
  have next_candidate: ?case if F: "h = Inr False"
  proof -
    obtain x b1 where pop: "pop (x_db s1) b = (x, b1)" by fastforce
    show ?thesis
    proof (cases x)
      case None
      then show ?thesis using Suc.prems(1) 1 p h F pop by simp
    next
      case (Some cand)
      then obtain y s2 where at: "attempt_v12 fuel env act j a cand s1 = Some (y, s2)"
        using Suc.prems(1) p h F pop by (cases "attempt_v12 fuel env act j a cand s1") auto
      note s2 = 2 [OF at]
      show ?thesis
      proof (cases y)
        case (Inl e)
        then show ?thesis using Suc.prems(1) s2 p h F pop Some at by simp
      next
        case (Inr us)
        obtain u stop where us: "us = (u, stop)" by fastforce
        note run = Suc.prems(1) [unfolded run_loop.simps p h F pop Some at Inr us prod.case sum.case bool.case option.case]
        show ?thesis
        proof (cases u)
          case None
          then show ?thesis using run s2 Suc.IH by (cases stop) auto
        next
          case (Some upd)
          obtain z s3 where rec: "record_result env j upd b1 s2 = (z, s3)" by fastforce
          show ?thesis using run s2 3 [OF s2 rec] Suc.IH rec Some by (cases stop; cases z) auto
        qed
      qed
    qed
  qed
  show ?case
  proof (cases h)
    case (Inl e)
    then show ?thesis using Suc.prems(1) 1 p h by simp
  next
    case (Inr v)
    then show ?thesis using Suc.prems(1) 1 p h next_candidate by (cases v) simp_all
  qed
qed simp

lemma rel_begin_run: "xrel pace_le (begin_run env j a)"
  unfolding begin_run_def by (intro pace.rel_bind pace.rel_set_job pace.rel_set_account)

lemma end_run_keeps:
  assumes "pace_inv s"
  shows "pace_inv (snd (end_run env j a r s))"
proof -
  have fin: "pace_inv (finish_run t)" if "pace_inv t" for t
    using that by (simp add: pace_inv_def finish_run_def)
  have fail: "pace_inv (finish_run (snd (fail_run env j a e t)))" if "pace_inv t" for t e
    by (rule fin) (rule pace_inv_le [OF xrelD [OF pace.rel_fail_run] that])
  obtain rc sc where c: "complete_run env j a s = (rc, sc)" by fastforce
  have "pace_inv sc" using pace_inv_le [OF xrelD [OF pace.rel_complete_run] assms] c by (metis snd_conv)
  with fin fail assms c show ?thesis
    by (cases r; cases rc) (auto simp: end_run_def Let_def split_beta)
qed

text \<open>
  C1. Whatever Telegram replies, the user requests and the database does, a run of the executor
  never calls Telegram within three seconds of its previous call, and never before the deadline
  of a server wait it has received, retries of the same candidate included.
\<close>

theorem run_paced:
  assumes "sched_reachable (x_sched s)" "x_trace s = []"
    and "run n fuel env action job_id account_id s = Some (r, s')"
  shows "paced (x_trace s')"
proof -
  have paced: "paced (x_trace t)" if "pace_inv t" for t using that by (simp add: pace_inv_def)
  obtain r1 s1 where b: "begin_run env job_id account_id (start_run env job_id s) = (r1, s1)" by fastforce
  have "pace_inv (start_run env job_id s)"
    using sched_reachable_inv [OF assms(1)] assms(2)
    by (simp add: pace_inv_def start_run_def paced_def)
  then have 1: "pace_inv s1"
    using pace_inv_le [OF xrelD [OF rel_begin_run]] b by (metis snd_conv)
  let ?s1 = "run_due env job_id (elapse (e_lock env) s1)"
  have lock: "pace_inv ?s1" using pace_inv_le [OF pace.r_trans [OF pace.rel_elapse pace.rel_run_due] 1] .
  show ?thesis
  proof (cases "x_running s = None \<and> r1 = Inr ()")
    case True
    then obtain r2 s2 where l: "run_loop n fuel env action job_id account_id
          (prime (x_db s1) (CandidateBuffer job_id account_id CANDIDATE_PREFETCH_MIN)) ?s1 = Some (r2, s2)"
        and s': "s' = snd (end_run env job_id account_id r2 s2)"
      using assms(3) b by (auto simp: run_def Let_def split: option.splits)
    show ?thesis using paced [OF end_run_keeps [OF run_loop_keeps [OF l lock]]] s' by simp
  next
    case False
    then have "s' = s \<or> s' = s1" using assms(3) b by (cases r1) (auto simp: run_def split: if_splits)
    then show ?thesis using assms(2) paced [OF 1] by (auto simp: paced_def)
  qed
qed

text \<open>An execution in which the second call is answered by a flood wait of twenty seconds.\<close>

theorem run_paced_witness:
  "\<exists>r s'. run 3 4 flood_env ''INVITE'' 1 1 sample_state = Some (r, s') \<and> paced (x_trace s')"
proof -
  obtain s' where out: "run 3 (1 + 3) flood_env ''INVITE'' 1 1 sample_state = Some (Inr (), s')"
    using run_completes [OF flood_env_calm sample_state_ready, of "''INVITE''"] by blast
  have "sched_reachable (x_sched sample_state)"
    using demo_scheduler_created by (simp add: sample_state_def) (rule sched_reachable.create)
  moreover have "x_trace sample_state = []" by (simp add: sample_state_def)
  ultimately have "paced (x_trace s')" by (rule run_paced [OF _ _ out])
  with out show ?thesis by (simp add: eval_nat_numeral)
qed

end
