(* ===== verification/Programs.thy ===== *)
theory Programs
  imports Statements
begin

text \<open>
  Services run several transactions one after the other: each \<open>submit(...).result()\<close> commits or
  rolls back on its own.  A \<open>dbprog\<close> threads the database through such a sequence and, unlike a
  single write operation, keeps what was committed before an error.
\<close>

type_synonym 'a dbprog = "db \<Rightarrow> (exn + 'a) \<times> db"

definition preturn :: "'a \<Rightarrow> 'a dbprog" where
  "preturn x d = (Inr x, d)"

definition praise :: "exn \<Rightarrow> 'a dbprog" where
  "praise e d = (Inl e, d)"

definition pbind :: "'a dbprog \<Rightarrow> ('a \<Rightarrow> 'b dbprog) \<Rightarrow> 'b dbprog" where
  "pbind m f d = (case m d of (Inl e, d') \<Rightarrow> (Inl e, d') | (Inr x, d') \<Rightarrow> f x d')"

definition pselect :: "(db \<Rightarrow> 'a) \<Rightarrow> 'a dbprog" where
  "pselect q d = (Inr (q d), d)"

text \<open>One transaction of the writer: committed on success, rolled back on an error.\<close>

definition transact :: "'a dbop \<Rightarrow> 'a dbprog" where
  "transact m d = (case m d of Inl e \<Rightarrow> (Inl e, d) | Inr (x, d') \<Rightarrow> (Inr x, d'))"

lemma prog_simps [simp]:
  "preturn x d = (Inr x, d)"
  "praise e d = (Inl e, d)"
  "pselect q d = (Inr (q d), d)"
  "pbind (pselect q) f d = f (q d) d"
  "pbind (preturn x) f d = f x d"
  "pbind (praise e) f d = (Inl e, d)"
  "m d = Inl e \<Longrightarrow> transact m d = (Inl e, d)"
  "m d = Inr (x, d') \<Longrightarrow> transact m d = (Inr x, d')"
  by (simp_all add: preturn_def praise_def pselect_def pbind_def transact_def)

lemma pbind_Inr [simp]: "m d = (Inr x, d') \<Longrightarrow> pbind m f d = f x d'"
  by (simp add: pbind_def)

lemma pbind_Inl [simp]: "m d = (Inl e, d') \<Longrightarrow> pbind m f d = (Inl e, d')"
  by (simp add: pbind_def)

definition prog_wf :: "'a dbprog \<Rightarrow> bool" where
  "prog_wf m = (\<forall>d. db_wf d \<longrightarrow> db_wf (snd (m d)))"

lemma prog_wfI: "(\<And>d. db_wf d \<Longrightarrow> db_wf (snd (m d))) \<Longrightarrow> prog_wf m"
  by (simp add: prog_wf_def)

lemma prog_wfD: "prog_wf m \<Longrightarrow> db_wf d \<Longrightarrow> db_wf (snd (m d))"
  by (simp add: prog_wf_def)

lemma prog_wf_transact [wf_intros]: "keeps_wf m \<Longrightarrow> prog_wf (transact m)"
  by (auto simp: prog_wf_def transact_def keeps_wf_def split: sum.splits prod.splits)

lemma prog_wf_basic [wf_intros]:
  "prog_wf (preturn x)" "prog_wf (praise e)" "prog_wf (pselect q)"
  by (simp_all add: prog_wf_def)

lemma prog_wf_pbind [wf_intros]: "prog_wf m \<Longrightarrow> (\<And>x. prog_wf (f x)) \<Longrightarrow> prog_wf (pbind m f)"
  unfolding prog_wf_def pbind_def by (auto split: prod.splits sum.splits)

lemma prog_wf_if [wf_intros]: "prog_wf m \<Longrightarrow> prog_wf m' \<Longrightarrow> prog_wf (if b then m else m')"
  by simp

lemma prog_wf_case_option [wf_intros]:
  "prog_wf m \<Longrightarrow> (\<And>x. prog_wf (f x)) \<Longrightarrow> prog_wf (case v of None \<Rightarrow> m | Some x \<Rightarrow> f x)"
  by (cases v) auto

text \<open>The monad laws, used to compare programs.\<close>

lemma pbind_assoc: "pbind (pbind m f) g = pbind m (\<lambda>x. pbind (f x) g)"
  by (rule ext) (auto simp: pbind_def split: prod.splits sum.splits)

lemma pbind_preturn: "pbind (preturn x) f = f x"
  by (rule ext) simp

lemma pbind_cong_at: "m d = m' d \<Longrightarrow> pbind m f d = pbind m' f d"
  by (simp add: pbind_def)

end
