(* ===== verification/Recovery.thy ===== *)
theory Recovery
  imports Job_Store Programs
begin

text \<open>
  \<open>migration/recovery.py\<close>: at start-up no executor is alive, so the jobs the last session left
  running are made explicitly paused; a job that waits for a server deadline still ahead keeps
  waiting.  The current instant is an argument (in microseconds, like the \<open>waiting_until\<close> texts).
\<close>

section \<open>The service\<close>

definition recoverable_jobs :: "db \<Rightarrow> int list" where
  "recoverable_jobs d = recoverable d"

text \<open>The deadline as an instant; a text that is no date counts as now.\<close>

definition wait_instant :: "int \<Rightarrow> iso_text \<Rightarrow> int" where
  "wait_instant now w = (case w of IsoUtc t \<Rightarrow> t | IsoNaive t \<Rightarrow> t | NotIso \<Rightarrow> now)"

definition still_waiting :: "int \<Rightarrow> job_row \<Rightarrow> bool" where
  "still_waiting now r =
     (j_state r = JS_WAITING_SERVER \<and>
      (case j_waiting_until r of None \<Rightarrow> False | Some w \<Rightarrow> now < wait_instant now w))"

definition recovered_checkpoint :: "checkpoint \<Rightarrow> checkpoint" where
  "recovered_checkpoint c = dict_set ''recovered_after_restart'' (JBool True) c"

definition recover_job :: "int \<Rightarrow> int \<Rightarrow> bool dbprog" where
  "recover_job now job_id =
     pbind (pselect (job_get job_id)) (\<lambda>row.
       case row of
         None \<Rightarrow> preturn False
       | Some r \<Rightarrow>
           if still_waiting now r then preturn True
           else if j_state r \<in> {JS_RUNNING, JS_WAITING_SERVER}
           then pbind (pselect (get_checkpoint job_id)) (\<lambda>c.
                pbind (transact (submit_set_state job_id JS_PAUSED None
                         (Some (recovered_checkpoint c)) False)) (\<lambda>_.
                preturn True))
           else preturn True)"

fun recover_loop :: "int \<Rightarrow> int list \<Rightarrow> int list dbprog" where
  "recover_loop now [] = preturn []"
| "recover_loop now (i # is) =
     pbind (recover_job now i) (\<lambda>ok. pbind (recover_loop now is) (\<lambda>rest.
       preturn (if ok then i # rest else rest)))"

definition normalize_after_restart :: "int \<Rightarrow> int list dbprog" where
  "normalize_after_restart now = pbind (pselect recoverable_jobs) (recover_loop now)"

section \<open>The effect on one row\<close>

definition row_checkpoint :: "job_row \<Rightarrow> checkpoint" where
  "row_checkpoint r = (case j_checkpoint_json r of Some (CkptJson c) \<Rightarrow> c | _ \<Rightarrow> [])"

text \<open>What a restart does to a job, as a function of its row.\<close>

definition recovered_row :: "int \<Rightarrow> job_row \<Rightarrow> job_row" where
  "recovered_row now r =
     (if j_state r \<in> {JS_RUNNING, JS_WAITING_SERVER} \<and> \<not> still_waiting now r
      then r\<lparr>j_state := JS_PAUSED, j_checkpoint_json := Some (CkptJson (recovered_checkpoint (row_checkpoint r)))\<rparr>
      else r)"

lemma recovered_row_id [simp]: "j_id (recovered_row now r) = j_id r"
  by (simp add: recovered_row_def)

lemma recovered_row_idem [simp]: "recovered_row now (recovered_row now r) = recovered_row now r"
  by (simp add: recovered_row_def)

lemma update_where_unique:
  assumes "distinct (map k rows)" "r \<in> set rows" "f r = g r" "k r = i"
  shows "update_where (\<lambda>x. k x = i) f rows = update_where (\<lambda>x. k x = i) g rows"
  using assms(1,2)
proof (induction rows)
  case (Cons y ys)
  have *: "update_where (\<lambda>x. k x = i) h ys = ys" if "y = r" for h
    using Cons.prems(1) that assms(4) by (intro update_where_none) (auto simp: image_iff)
  show ?case
  proof (cases "y = r")
    case True
    with * [OF True] assms(3) show ?thesis by simp
  next
    case False
    with Cons.prems assms(4) have "k y \<noteq> i" by auto
    with Cons False show ?thesis by simp
  qed
qed simp

lemma recover_job_effect:
  assumes "distinct (map j_id (t_jobs d))" "i \<in> job_ids d"
  shows "recover_job now i d =
    (Inr True, d\<lparr>t_jobs := update_where (\<lambda>r. j_id r = i) (recovered_row now) (t_jobs d)\<rparr>)"
proof -
  obtain r where r: "r \<in> set (t_jobs d)" "j_id r = i" using assms(2) by auto
  have get: "job_get i d = Some r"
    using find_row_Some_key [OF assms(1) r(1)] r(2) by (simp add: job_get_def)
  have same: "update_where (\<lambda>r. j_id r = i) f (t_jobs d) = update_where (\<lambda>r. j_id r = i) (recovered_row now) (t_jobs d)"
    if "f r = recovered_row now r" for f
    by (rule update_where_unique [where k = j_id and r = r]) (use assms(1) r that in auto)
  have keep: "update_where (\<lambda>r. j_id r = i) (recovered_row now) (t_jobs d) = t_jobs d"
    if "recovered_row now r = r"
  proof -
    have "update_where (\<lambda>r. j_id r = i) (\<lambda>x. x) (t_jobs d) = t_jobs d" by (simp add: update_where_def)
    then show ?thesis using same [of "\<lambda>x. x"] that by simp
  qed
  have ck: "get_checkpoint i d = row_checkpoint r"
    by (simp add: get_checkpoint_def get row_checkpoint_def)
  show ?thesis
  proof (cases "j_state r \<in> {JS_RUNNING, JS_WAITING_SERVER} \<and> \<not> still_waiting now r")
    case True
    have "state_row JS_PAUSED None (Some (recovered_checkpoint (row_checkpoint r))) False t r = recovered_row now r" for t
      using True by (auto simp: state_row_def recovered_row_def)
    then show ?thesis
      using True same [of "state_row JS_PAUSED None (Some (recovered_checkpoint (row_checkpoint r))) False (db_now d)"]
      by (auto simp: recover_job_def get ck submit_set_state_def update_jobs_apply)
  next
    case False
    then show ?thesis
      using keep by (auto simp: recover_job_def get recovered_row_def)
  qed
qed

lemma update_where_or:
  "(\<And>r. k (f r) = k r) \<Longrightarrow> (\<And>r. f (f r) = f r) \<Longrightarrow>
     update_where (\<lambda>r. k r \<in> S) f (update_where (\<lambda>r. k r = i) f rows) = update_where (\<lambda>r. k r \<in> insert i S) f rows"
  by (induction rows) auto

lemma recover_loop_effect:
  "distinct (map j_id (t_jobs d)) \<Longrightarrow> set is \<subseteq> job_ids d \<Longrightarrow>
     recover_loop now is d =
       (Inr is, d\<lparr>t_jobs := update_where (\<lambda>r. j_id r \<in> set is) (recovered_row now) (t_jobs d)\<rparr>)"
proof (induction "is" arbitrary: d)
  case Nil
  have "update_where (\<lambda>r. False) (recovered_row now) (t_jobs d) = t_jobs d" by simp
  then show ?case by simp
next
  case (Cons i "is")
  let ?d = "d\<lparr>t_jobs := update_where (\<lambda>r. j_id r = i) (recovered_row now) (t_jobs d)\<rparr>"
  have "distinct (map j_id (t_jobs ?d))" "job_ids ?d = job_ids d"
    using Cons.prems(1) by (simp_all add: map_update_where_key image_id_update_where)
  with Cons have rest: "recover_loop now is ?d =
      (Inr is, ?d\<lparr>t_jobs := update_where (\<lambda>r. j_id r \<in> set is) (recovered_row now) (t_jobs ?d)\<rparr>)"
    by auto
  show ?case
    using recover_job_effect [OF Cons.prems(1), of i now] Cons.prems(2) rest
    by (simp add: update_where_or)
qed

lemma normalize_effect:
  assumes "db_wf d"
  shows "normalize_after_restart now d =
    (Inr (recoverable d), d\<lparr>t_jobs := map (recovered_row now) (t_jobs d)\<rparr>)"
proof -
  have dist: "distinct (map j_id (t_jobs d))"
    using assms by (simp add: db_wf_def jobs_wf_def ids_ok_def)
  have sub: "set (recoverable d) \<subseteq> job_ids d" by (auto simp: recoverable_def)
  have all: "update_where (\<lambda>r. j_id r \<in> set (recoverable d)) (recovered_row now) (t_jobs d) =
      map (recovered_row now) (t_jobs d)"
    unfolding update_where_def
    by (rule map_cong) (auto simp: recoverable_def recovered_row_def)
  show ?thesis
    using recover_loop_effect [OF dist sub] all
    by (simp add: normalize_after_restart_def recoverable_jobs_def)
qed

section \<open>Restart\<close>

lemma recovered_db_wf:
  assumes "db_wf d"
  shows "db_wf (d\<lparr>t_jobs := map (recovered_row now) (t_jobs d)\<rparr>)"
proof -
  have "j_id ` set (map (recovered_row now) (t_jobs d)) = job_ids d" by (simp add: image_image)
  moreover have "j_account_id (recovered_row now r) = j_account_id r"
    "j_source_dataset_id (recovered_row now r) = j_source_dataset_id r"
    "j_target_group_id (recovered_row now r) = j_target_group_id r" for r
    by (simp_all add: recovered_row_def)
  ultimately show ?thesis
    using assms by (simp add: db_wf_def jobs_wf_def comp_def image_image)
qed

lemma recovered_not_running: "j_state (recovered_row now r) \<noteq> JS_RUNNING"
  by (auto simp: recovered_row_def still_waiting_def)



end
