(* ===== verification/Member_Store.thy ===== *)
theory Member_Store
  imports Members Programs
begin

text \<open>
  \<open>members/repository.py\<close>: storing scanned members under one local row per Telegram identity,
  merging a row known by user name only into the row of its user id, ingesting a batch into a
  dataset in one transaction, and reading a dataset page by page.  Ids are unbounded: the
  \<open>OverflowError\<close> of SQLite for an imported id beyond 64 bits is not modelled.
\<close>

section \<open>Upserting one member\<close>

definition clean_username :: "string option \<Rightarrow> string option" where
  "clean_username v =
     (if truthy_str v
      then let cleaned = py_lstrip_char (CHR ''@'') (py_strip (or_empty v)) in
           if cleaned = [] then None else Some cleaned
      else None)"

text \<open>\<open>member.username = cls._clean_username(member.username)\<close>: the member itself is changed.\<close>

definition clean_member :: "member \<Rightarrow> member" where
  "clean_member m = m\<lparr>mb_username := clean_username (mb_username m)\<rparr>"

text \<open>The tuple \<open>values\<close> written into a row.\<close>

definition set_values :: "member \<Rightarrow> member_row \<Rightarrow> member_row" where
  "set_values m r =
     r\<lparr>m_username := mb_username m, m_first_name := mb_first_name m, m_last_name := mb_last_name m,
       m_phone := mb_phone m, m_bot := mb_bot m, m_deleted := mb_deleted m,
       m_activity_status := mb_activity_status m, m_last_seen := mb_last_seen m\<rparr>"

definition new_member_row :: "member \<Rightarrow> int \<Rightarrow> member_row" where
  "new_member_row m i =
     \<lparr>m_id = i, m_telegram_user_id = mb_telegram_user_id m, m_username = mb_username m,
      m_first_name = mb_first_name m, m_last_name = mb_last_name m, m_phone = mb_phone m,
      m_bot = mb_bot m, m_deleted = mb_deleted m, m_activity_status = mb_activity_status m,
      m_last_seen = mb_last_seen m\<rparr>"

definition find_user :: "int \<Rightarrow> db \<Rightarrow> int option" where
  "find_user uid d = map_option m_id (find_row (\<lambda>r. m_telegram_user_id r = Some uid) (t_members d))"

definition is_fallback :: "string \<Rightarrow> member_row \<Rightarrow> bool" where
  "is_fallback name r =
     (m_telegram_user_id r = None \<and> map_option py_lower (m_username r) = Some (py_lower name))"

definition find_fallback :: "string option \<Rightarrow> db \<Rightarrow> int option" where
  "find_fallback name d =
     (case name of
        None \<Rightarrow> None
      | Some u \<Rightarrow> map_option m_id (find_row (is_fallback u) (t_members d)))"

definition ignore_result :: "'a dbop \<Rightarrow> unit dbop" where
  "ignore_result m = dbind m (\<lambda>_. dreturn ())"

definition merge_fallback_row :: "int \<Rightarrow> int \<Rightarrow> unit dbop" where
  "merge_fallback_row fallback_id canonical_id =
     (if fallback_id = canonical_id then dreturn ()
      else
        dbind (dselect (\<lambda>d. filter (\<lambda>r. dm_member_id r = fallback_id) (t_dataset_members d))) (\<lambda>ms.
        dbind (dfold (\<lambda>r. ignore_result (insert_dataset_member_or_ignore (r\<lparr>dm_member_id := canonical_id\<rparr>))) ms) (\<lambda>_.
        dbind (dselect (\<lambda>d. filter (\<lambda>r. dp_member_id r = fallback_id) (t_dataset_provenance d))) (\<lambda>ps.
        dbind (dfold (\<lambda>r. insert_provenance_or_ignore (r\<lparr>dp_member_id := canonical_id\<rparr>)) ps) (\<lambda>_.
          delete_member_row fallback_id)))))"

text \<open>\<open>INSERT INTO members ... ON CONFLICT(telegram_user_id) DO UPDATE\<close>.\<close>

definition upsert_user_row :: "int \<Rightarrow> member \<Rightarrow> unit dbop" where
  "upsert_user_row uid m d =
     (case find_user uid d of
        Some i \<Rightarrow> update_member i (set_values m) d
      | None \<Rightarrow> ignore_result (insert_member (new_member_row m)) d)"

definition upsert_user :: "int \<Rightarrow> member \<Rightarrow> int option dbop" where
  "upsert_user uid m =
     dbind (dselect (find_user uid)) (\<lambda>existing.
     dbind (dselect (find_fallback (mb_username m))) (\<lambda>fallback.
       case (existing, fallback) of
         (None, Some local_id) \<Rightarrow>
           dbind (update_member local_id (\<lambda>r. set_values m (r\<lparr>m_telegram_user_id := Some uid\<rparr>))) (\<lambda>_.
             dreturn (Some local_id))
       | _ \<Rightarrow>
           dbind (upsert_user_row uid m) (\<lambda>_.
           dbind (dselect (find_user uid)) (\<lambda>row.
             case row of
               None \<Rightarrow> dreturn None
             | Some local_id \<Rightarrow>
                 (case fallback of
                    Some f \<Rightarrow>
                      if f \<noteq> local_id
                      then dbind (merge_fallback_row f local_id) (\<lambda>_. dreturn (Some local_id))
                      else dreturn (Some local_id)
                  | None \<Rightarrow> dreturn (Some local_id))))))"

definition upsert_named :: "member \<Rightarrow> int option dbop" where
  "upsert_named m =
     dbind (dselect (find_fallback (mb_username m))) (\<lambda>row.
       case row of
         Some local_id \<Rightarrow>
           dbind (update_member local_id (set_values m)) (\<lambda>_. dreturn (Some local_id))
       | None \<Rightarrow> dbind (insert_member (new_member_row m)) (\<lambda>i. dreturn (Some i)))"

definition upsert_one :: "member \<Rightarrow> int option dbop" where
  "upsert_one member =
     (let m = clean_member member in
      case mb_telegram_user_id m of
        Some uid \<Rightarrow> upsert_user uid m
      | None \<Rightarrow> if truthy_str (mb_username m) then upsert_named m else dreturn None)"

fun upsert_many_loop :: "(identity_key \<times> int) list \<Rightarrow> member list \<Rightarrow> (identity_key \<times> int) list dbop" where
  "upsert_many_loop mapping [] = dreturn mapping"
| "upsert_many_loop mapping (m # ms) =
     dbind (upsert_one m) (\<lambda>local_id.
       case (local_id, identity_key (clean_member m)) of
         (Some i, Some key) \<Rightarrow> upsert_many_loop (dict_set key i mapping) ms
       | _ \<Rightarrow> upsert_many_loop mapping ms)"

definition submit_upsert_many :: "member list \<Rightarrow> (identity_key \<times> int) list dbop" where
  "submit_upsert_many members = upsert_many_loop [] members"

section \<open>Ingesting a batch\<close>

record ingest_summary =
  is_accepted :: int
  is_invalid :: int
  is_local_member_ids :: "int list"

definition member_peer :: "int \<Rightarrow> int \<Rightarrow> member \<Rightarrow> peer_row" where
  "member_peer account_id uid m =
     \<lparr>p_account_id = account_id, p_peer_id = uid, p_peer_type = ''User'', p_access_hash = mb_access_hash m,
      p_username = mb_username m, p_title = None\<rparr>"

definition cache_member :: "int option \<Rightarrow> member \<Rightarrow> unit dbop" where
  "cache_member account_id m =
     (case (account_id, mb_telegram_user_id m, mb_access_hash m) of
        (Some a, Some uid, Some h) \<Rightarrow>
          upsert_peer (member_peer a uid m) (\<lambda>x. x\<lparr>p_peer_type := ''User'', p_access_hash := Some h,
            p_username := mb_username m\<rparr>)
      | _ \<Rightarrow> dreturn ())"

definition ingest_one ::
  "int \<Rightarrow> int option \<Rightarrow> int option \<Rightarrow> string option \<Rightarrow> member \<Rightarrow> ingest_summary \<Rightarrow> ingest_summary dbop" where
  "ingest_one dataset_id source_group_id account_id source_label member s =
     dbind (upsert_one member) (\<lambda>local_id.
       case local_id of
         None \<Rightarrow> dreturn (s\<lparr>is_invalid := is_invalid s + 1\<rparr>)
       | Some i \<Rightarrow>
           dbind (insert_dataset_member_or_ignore \<lparr>dm_dataset_id = dataset_id, dm_member_id = i,
                    dm_source_group_id = source_group_id\<rparr>) (\<lambda>rowcount.
           dbind (insert_provenance_or_ignore \<lparr>dp_dataset_id = dataset_id, dp_member_id = i,
                    dp_source_dataset_id = None, dp_source_group_id = source_group_id,
                    dp_source_label = source_label\<rparr>) (\<lambda>_.
           dbind (cache_member account_id (clean_member member)) (\<lambda>_.
             dreturn (s\<lparr>is_accepted := is_accepted s + max 0 rowcount,
                        is_local_member_ids := is_local_member_ids s @ [i]\<rparr>)))))"

fun ingest_loop ::
  "int \<Rightarrow> int option \<Rightarrow> int option \<Rightarrow> string option \<Rightarrow> member list \<Rightarrow> ingest_summary \<Rightarrow> ingest_summary dbop" where
  "ingest_loop dataset_id g a label [] s = dreturn s"
| "ingest_loop dataset_id g a label (m # ms) s =
     dbind (ingest_one dataset_id g a label m s) (ingest_loop dataset_id g a label ms)"

definition count_members :: "int \<Rightarrow> db \<Rightarrow> int" where
  "count_members dataset_id d =
     int (length (filter (\<lambda>r. dm_dataset_id r = dataset_id) (t_dataset_members d)))"

definition recount :: "int \<Rightarrow> unit dbop" where
  "recount dataset_id =
     update_datasets (\<lambda>r. d_id r = dataset_id) (\<lambda>d r. r\<lparr>d_member_count := count_members dataset_id d\<rparr>)"

definition submit_ingest_batch ::
  "int \<Rightarrow> member list \<Rightarrow> int option \<Rightarrow> int option \<Rightarrow> string option \<Rightarrow> ingest_summary dbop" where
  "submit_ingest_batch dataset_id members source_group_id account_id source_label =
     dbind (ingest_loop dataset_id source_group_id account_id source_label members
              \<lparr>is_accepted = 0, is_invalid = 0, is_local_member_ids = []\<rparr>) (\<lambda>s.
     dbind (recount dataset_id) (\<lambda>_. dreturn s))"

section \<open>Reading\<close>

definition member_from_row :: "member_row \<Rightarrow> member" where
  "member_from_row r =
     \<lparr>mb_telegram_user_id = m_telegram_user_id r, mb_username = m_username r,
      mb_first_name = m_first_name r, mb_last_name = m_last_name r, mb_phone = m_phone r,
      mb_bot = m_bot r, mb_deleted = m_deleted r, mb_activity_status = m_activity_status r,
      mb_last_seen = m_last_seen r, mb_access_hash = None\<rparr>"

text \<open>The members of a dataset in the order of their ids.\<close>

definition dataset_member_rows :: "int \<Rightarrow> db \<Rightarrow> member_row list" where
  "dataset_member_rows dataset_id d =
     List.map_filter (\<lambda>dm. find_row (\<lambda>m. m_id m = dm_member_id dm) (t_members d))
       (sort_key dm_member_id (filter (\<lambda>dm. dm_dataset_id dm = dataset_id) (t_dataset_members d)))"

definition page :: "int \<Rightarrow> int \<Rightarrow> int option \<Rightarrow> db \<Rightarrow> member list \<times> int" where
  "page offset limit dataset_id d =
     (let safe_limit = max 1 (min 1000 limit); safe_offset = max 0 offset;
          (rows, count) =
            (case dataset_id of
               None \<Rightarrow> (sort_key m_id (t_members d), int (length (t_members d)))
             | Some s \<Rightarrow> (dataset_member_rows s d, count_members s d))
      in (map member_from_row (take (nat safe_limit) (drop (nat safe_offset) rows)), count))"

text \<open>
  The generator \<open>iter_dataset_rows\<close>: the chunks it yields on a database nobody changes meanwhile.
  Every chunk is at least one row further, so the loop ends.
\<close>

function iter_from :: "db \<Rightarrow> int \<Rightarrow> int \<Rightarrow> nat \<Rightarrow> member list list" where
  "iter_from d dataset_id chunk_size offset =
     (let rows = fst (page (int offset) chunk_size (Some dataset_id) d) in
      if rows = [] then [] else rows # iter_from d dataset_id chunk_size (offset + length rows))"
  by pat_completeness auto

termination
proof (relation "measure (\<lambda>(d, s, c, off). length (dataset_member_rows s d) - off)")
  fix d s c off rows
  assume r: "rows = fst (page (int off) c (Some s) d)" and ne: "rows \<noteq> []"
  have len: "length rows \<le> length (dataset_member_rows s d) - off"
    using r by (simp add: page_def Let_def)
  have "length rows > 0" using ne by simp
  with len show "((d, s, c, off + length rows), d, s, c, off)
      \<in> measure (\<lambda>(d, s, c, off). length (dataset_member_rows s d) - off)"
    by (simp del: length_greater_0_conv)
qed simp

declare iter_from.simps [simp del]

definition iter_dataset_rows :: "int \<Rightarrow> int \<Rightarrow> db \<Rightarrow> member list list" where
  "iter_dataset_rows dataset_id chunk_size d = iter_from d dataset_id chunk_size 0"

section \<open>Paging\<close>

lemma iter_from_concat:
  "concat (iter_from d s c off) = map member_from_row (drop off (dataset_member_rows s d)) \<and>
   (\<forall>chunk \<in> set (iter_from d s c off). chunk \<noteq> [] \<and> length chunk \<le> 1000)"
proof (induction d s c off rule: iter_from.induct)
  case (1 d s c off)
  let ?all = "dataset_member_rows s d" and ?k = "nat (max 1 (min 1000 c))"
  define rows where "rows = fst (page (int off) c (Some s) d)"
  have rows: "rows = map member_from_row (take ?k (drop off ?all))"
    by (simp add: rows_def page_def Let_def)
  have small: "length rows \<le> 1000" unfolding rows by simp
  show ?case
  proof (cases "rows = []")
    case True
    then have "drop off ?all = []" unfolding rows by auto
    moreover have "iter_from d s c off = []" using True by (subst iter_from.simps) (simp add: rows_def)
    ultimately show ?thesis by simp
  next
    case False
    have step: "iter_from d s c off = rows # iter_from d s c (off + length rows)"
      using False by (subst iter_from.simps) (simp add: rows_def Let_def)
    have "rows @ map member_from_row (drop (off + length rows) ?all) = map member_from_row (drop off ?all)"
    proof -
      have "length rows = length (take ?k (drop off ?all))" by (simp add: rows)
      then have "drop (off + length rows) ?all = drop ?k (drop off ?all)"
        by (cases "?k \<le> length (drop off ?all)") (auto simp: min_def add.commute)
      then have "rows @ map member_from_row (drop (off + length rows) ?all) =
          map member_from_row (take ?k (drop off ?all) @ drop ?k (drop off ?all))"
        by (simp only: rows map_append)
      then show ?thesis by (simp only: append_take_drop_id)
    qed
    with 1 [OF rows_def False] False small show ?thesis by (simp add: step)
  qed
qed

text \<open>
  C35. Exporting a dataset page by page reads every member of it exactly once and in the order of
  the ids, whatever chunk size is asked for, in non-empty chunks of at most a thousand members.
\<close>

theorem iter_dataset_rows_complete:
  "concat (iter_dataset_rows dataset_id chunk_size d) = map member_from_row (dataset_member_rows dataset_id d) \<and>
   list_all (\<lambda>chunk. 0 < length chunk \<and> length chunk \<le> 1000) (iter_dataset_rows dataset_id chunk_size d)"
  using iter_from_concat [of d dataset_id chunk_size 0] by (simp add: iter_dataset_rows_def list_all_iff)

section \<open>Unique keys under an update\<close>

lemma distinct_map_filter_update:
  assumes "distinct (map ident rows)" "distinct (List.map_filter k rows)"
    and "\<And>r. r \<in> set rows \<Longrightarrow> ident r = i \<Longrightarrow> k (f r) = None \<or> k (f r) = k r \<or> k (f r) \<notin> k ` set rows"
  shows "distinct (List.map_filter k (update_where (\<lambda>r. ident r = i) f rows))"
  using assms
proof (induction rows)
  case (Cons y ys)
  have tail: "set (List.map_filter k (update_where (\<lambda>r. ident r = i) f ys)) =
      set (List.map_filter k ys)" if "ident y = i"
  proof -
    have "update_where (\<lambda>r. ident r = i) f ys = ys"
      using Cons.prems(1) that by (intro update_where_none) (auto simp: image_iff)
    then show ?thesis by simp
  qed
  have IH: "distinct (List.map_filter k (update_where (\<lambda>r. ident r = i) f ys))"
    using Cons by (auto simp: List.map_filter_simps split: option.splits)
  have sub: "x \<in> set (List.map_filter k ys)" if "k y = Some x" "ident y \<noteq> i"
      "x \<in> set (List.map_filter k (update_where (\<lambda>r. ident r = i) f ys))" for x
    using that Cons.prems(3) by (fastforce simp: set_map_filter_iff set_update_where)
  show ?case
  proof (cases "ident y = i")
    case True
    then show ?thesis
      using Cons.prems(2,3) IH tail by (fastforce simp: List.map_filter_simps set_map_filter_iff image_iff split: option.splits)
  next
    case False
    then show ?thesis
      using Cons.prems(2) IH sub by (auto simp: List.map_filter_simps split: option.splits)
  qed
qed (simp add: List.map_filter_simps)

lemma update_member_ok:
  assumes "db_wf d" "r \<in> set (t_members d)" "m_id r = i"
    and "m_telegram_user_id (f r) = m_telegram_user_id r \<or> m_telegram_user_id (f r) \<notin> m_telegram_user_id ` set (t_members d)"
    and "fallback_key (f r) = None \<or> fallback_key (f r) = fallback_key r"
    and "\<And>x. m_id (f x) = m_id x"
  shows "update_member i f d = Inr ((), d\<lparr>t_members := update_where (\<lambda>r. m_id r = i) f (t_members d)\<rparr>)"
proof -
  have ids: "distinct (map m_id (t_members d))" and uids: "distinct (List.map_filter m_telegram_user_id (t_members d))"
    and names: "distinct (List.map_filter fallback_key (t_members d))"
    using assms(1) by (simp_all add: db_wf_def members_wf_def ids_ok_def)
  have one: "x = r" if "x \<in> set (t_members d)" "m_id x = i" for x
    using ids that assms(2,3) by (auto simp: distinct_map inj_on_def)
  have same: "(f x)\<lparr>m_id := m_id x\<rparr> = f x" for x using assms(6) by (metis (no_types) member_row.surjective member_row.update_convs(1))
  have "distinct (List.map_filter m_telegram_user_id (update_where (\<lambda>r. m_id r = i) f (t_members d)))"
    using one assms(4) by (intro distinct_map_filter_update [OF ids uids]) auto
  moreover have "distinct (List.map_filter fallback_key (update_where (\<lambda>r. m_id r = i) f (t_members d)))"
    using one assms(5) by (intro distinct_map_filter_update [OF ids names]) auto
  ultimately show ?thesis by (simp add: update_member_def Let_def same)
qed

section \<open>User names\<close>

lemma lower_char_space [simp]: "lower_char c = CHR '' '' \<longleftrightarrow> c = CHR '' ''"
proof -
  have "of_char (lower_char c) = (32::nat) \<longleftrightarrow> of_char c = (32::nat)"
    by (auto simp: lower_char_def Let_def)
  moreover have "(x = CHR '' '') = (of_char x = (32::nat))" for x
    using of_char_eq_iff [of x "CHR '' ''", where 'a = nat] by simp
  ultimately show ?thesis by simp
qed

lemma sql_trim_Nil: "sql_trim u = [] \<longleftrightarrow> (\<forall>c \<in> set u. c = CHR '' '')"
proof -
  have "sql_trim u = [] \<longleftrightarrow> (\<forall>c \<in> set (dropWhile (\<lambda>c. c = CHR '' '') u). c = CHR '' '')"
    by (simp add: sql_trim_def)
  also have "\<dots> \<longleftrightarrow> (\<forall>c \<in> set u. c = CHR '' '')"
    by (induction u) auto
  finally show ?thesis .
qed

lemma sql_trim_lower: "py_lower u = py_lower v \<Longrightarrow> sql_trim u = [] \<longleftrightarrow> sql_trim v = []"
proof -
  assume eq: "py_lower u = py_lower v"
  have "(\<forall>c \<in> set w. c = CHR '' '') \<longleftrightarrow> (\<forall>c \<in> set (py_lower w). c = CHR '' '')" for w
    by (simp add: py_lower_def)
  from this [of u] this [of v] eq show ?thesis by (simp only: sql_trim_Nil)
qed

text \<open>A cleaned name ends in a character that is no space, so the fallback index applies to it.\<close>

lemma dropWhile_last: "dropWhile P xs \<noteq> [] \<Longrightarrow> last (dropWhile P xs) = last xs"
  by (induction xs) (auto split: if_splits)

lemma clean_username_trim: "clean_username v = Some u \<Longrightarrow> sql_trim u \<noteq> []"
proof -
  assume c: "clean_username v = Some u"
  let ?s = "py_strip (or_empty v)"
  have u: "u = dropWhile (\<lambda>x. x = CHR ''@'') ?s" "u \<noteq> []"
    using c by (auto simp: clean_username_def py_lstrip_char_def Let_def split: if_splits)
  have ne: "?s \<noteq> []" using u by (metis dropWhile.simps(1))
  have "last u = last ?s" using u dropWhile_last by metis
  moreover have "\<not> is_space (last ?s)"
    using ne hd_dropWhile [of is_space "rev (dropWhile is_space (or_empty v))"]
    by (simp add: py_strip_def last_rev)
  moreover have "is_space (CHR '' '')" by (simp add: is_space_def)
  ultimately have "last u \<noteq> CHR '' ''" by metis
  with u(2) show ?thesis unfolding sql_trim_Nil by (metis last_in_set)
qed

lemma fallback_key_named:
  "m_telegram_user_id r = None \<Longrightarrow> m_username r = Some u \<Longrightarrow> sql_trim u \<noteq> [] \<Longrightarrow> fallback_key r = Some (py_lower u)"
  by (simp add: fallback_key_def)

lemma fallback_key_user [simp]: "m_telegram_user_id r = Some uid \<Longrightarrow> fallback_key r = None"
  by (simp add: fallback_key_def)

lemma is_fallback_key:
  assumes "sql_trim u \<noteq> []"
  shows "is_fallback u r \<longleftrightarrow> fallback_key r = Some (py_lower u)"
proof (cases "m_username r")
  case (Some v)
  then show ?thesis
    using assms sql_trim_lower [of v u] by (cases "m_telegram_user_id r") (auto simp: is_fallback_def fallback_key_def)
qed (auto simp: is_fallback_def fallback_key_def split: option.splits)

section \<open>The effect of an upsert\<close>

lemma set_values_simps [simp]:
  "m_id (set_values m r) = m_id r" "m_telegram_user_id (set_values m r) = m_telegram_user_id r"
  "m_username (set_values m r) = mb_username m"
  "member_from_row (set_values m r) = m\<lparr>mb_telegram_user_id := m_telegram_user_id r, mb_access_hash := None\<rparr>"
  by (simp_all add: set_values_def member_from_row_def)

lemma new_member_row_simps [simp]:
  "m_id (new_member_row m i) = i" "m_telegram_user_id (new_member_row m i) = mb_telegram_user_id m"
  "m_username (new_member_row m i) = mb_username m"
  "member_from_row (new_member_row m i) = m\<lparr>mb_access_hash := None\<rparr>"
  by (simp_all add: new_member_row_def member_from_row_def)

text \<open>The row of the local id holds exactly the data of the member.\<close>

definition stored :: "member \<Rightarrow> int \<Rightarrow> db \<Rightarrow> bool" where
  "stored m i d = (\<exists>r \<in> set (t_members d). m_id r = i \<and> member_from_row r = m\<lparr>mb_access_hash := None\<rparr>)"

lemma stored_update:
  assumes "r \<in> set (t_members d)" "m_id r = i" "member_from_row (f r) = m\<lparr>mb_access_hash := None\<rparr>" "m_id (f r) = i"
  shows "stored m i (d\<lparr>t_members := update_where (\<lambda>x. m_id x = i) f (t_members d)\<rparr>)"
  using assms unfolding stored_def by (intro bexI [of _ "f r"]) (auto simp: set_update_where)

text \<open>The rows with a user id: no operation changes or removes one of these identities.\<close>

definition user_rows :: "member_row list \<Rightarrow> (int \<times> int) set" where
  "user_rows rows = {(m_id r, u) | r u. r \<in> set rows \<and> m_telegram_user_id r = Some u}"

lemma user_rows_append: "user_rows rows \<subseteq> user_rows (rows @ rows2)"
  by (auto simp: user_rows_def)

lemma user_rows_update:
  assumes "\<And>r u. m_telegram_user_id r = Some u \<Longrightarrow> r \<in> set rows \<Longrightarrow> p r \<Longrightarrow> m_telegram_user_id (f r) = Some u"
    and "\<And>r. m_id (f r) = m_id r"
  shows "user_rows rows \<subseteq> user_rows (update_where p f rows)"
proof
  fix q assume "q \<in> user_rows rows"
  then obtain r u where r: "q = (m_id r, u)" "r \<in> set rows" "m_telegram_user_id r = Some u"
    by (auto simp: user_rows_def)
  let ?r = "if p r then f r else r"
  have "?r \<in> set (update_where p f rows)" using r(2) by (simp add: update_where_def)
  moreover have "m_id ?r = m_id r" "m_telegram_user_id ?r = Some u" using assms r by auto
  ultimately show "q \<in> user_rows (update_where p f rows)"
    unfolding user_rows_def r(1) by (intro CollectI exI [of _ ?r] exI [of _ u]) simp
qed

lemma user_rows_filter: "user_rows (filter (\<lambda>r. m_id r \<noteq> i) rows) = {q \<in> user_rows rows. fst q \<noteq> i}"
  by (auto simp: user_rows_def)

lemma find_userD:
  "find_user uid d = Some i \<Longrightarrow> \<exists>r \<in> set (t_members d). m_id r = i \<and> m_telegram_user_id r = Some uid"
  by (auto simp: find_user_def dest: find_row_SomeD)

lemma find_user_None: "find_user uid d = None \<longleftrightarrow> Some uid \<notin> m_telegram_user_id ` set (t_members d)"
  by (auto simp: find_user_def find_row_None_iff image_iff)

lemma find_fallbackD:
  "find_fallback n d = Some i \<Longrightarrow> \<exists>u. n = Some u \<and> (\<exists>r \<in> set (t_members d). m_id r = i \<and> is_fallback u r)"
  by (auto simp: find_fallback_def split: option.splits dest: find_row_SomeD)

lemma find_fallback_None:
  "find_fallback (Some u) d = None \<Longrightarrow> sql_trim u \<noteq> [] \<Longrightarrow> Some (py_lower u) \<notin> fallback_key ` set (t_members d)"
  by (auto simp: find_fallback_def find_row_None_iff is_fallback_key image_iff)

lemma upsert_named_ok:
  assumes "db_wf d" "mb_telegram_user_id m = None" "mb_username m = Some u" "sql_trim u \<noteq> []"
  shows "\<exists>i ms sq. upsert_named m d = Inr (Some i, d\<lparr>t_members := ms, seq_members := sq\<rparr>) \<and>
    stored m i (d\<lparr>t_members := ms, seq_members := sq\<rparr>) \<and> user_rows (t_members d) \<subseteq> user_rows ms"
proof (cases "find_fallback (Some u) d")
  case None
  let ?r = "new_member_row m (seq_members d + 1)"
  have "fallback_key ?r = Some (py_lower u)"
    using assms by (intro fallback_key_named) simp_all
  then have "insert_member (new_member_row m) d =
      Inr (seq_members d + 1, d\<lparr>t_members := t_members d @ [?r], seq_members := seq_members d + 1\<rparr>)"
    using find_fallback_None [OF None assms(4)] assms(2)
    by (simp add: insert_member_def Let_def new_member_row_def)
  then show ?thesis
    using None assms(3) user_rows_append [of "t_members d" "[?r]"]
    by (intro exI [of _ "seq_members d + 1"] exI [of _ "t_members d @ [?r]"])
      (auto simp: upsert_named_def dbind_def stored_def)
next
  case (Some i)
  then obtain r where r: "r \<in> set (t_members d)" "m_id r = i" "is_fallback u r"
    by (auto dest: find_fallbackD)
  have "m_telegram_user_id r = None" using r(3) by (simp add: is_fallback_def)
  moreover have "fallback_key (set_values m r) = fallback_key r"
    using assms(3,4) r(3) by (simp add: is_fallback_key [OF assms(4)] fallback_key_named calculation)
  ultimately have up: "update_member i (set_values m) d =
      Inr ((), d\<lparr>t_members := update_where (\<lambda>r. m_id r = i) (set_values m) (t_members d)\<rparr>)"
    using r by (intro update_member_ok [OF assms(1) r(1,2)]) simp_all
  have "stored m i (d\<lparr>t_members := update_where (\<lambda>r. m_id r = i) (set_values m) (t_members d)\<rparr>)"
    using r(2) \<open>m_telegram_user_id r = None\<close> assms(2) by (intro stored_update [OF r(1)]) simp_all
  with up Some assms(3) user_rows_update [of "t_members d" "\<lambda>r. m_id r = i" "set_values m"] show ?thesis
    by - (rule exI [of _ i], rule exI [of _ "update_where (\<lambda>r. m_id r = i) (set_values m) (t_members d)"],
        rule exI [of _ "seq_members d"], simp add: upsert_named_def dbind_def)
qed

lemma upsert_user_row_ok:
  assumes "db_wf d" "mb_telegram_user_id m = Some uid"
  shows "\<exists>i ms sq. upsert_user_row uid m d = Inr ((), d\<lparr>t_members := ms, seq_members := sq\<rparr>) \<and>
    stored m i (d\<lparr>t_members := ms, seq_members := sq\<rparr>) \<and>
    find_user uid (d\<lparr>t_members := ms, seq_members := sq\<rparr>) = Some i \<and>
    insert i (member_ids d) = m_id ` set ms \<and> (find_user uid d = None \<or> find_user uid d = Some i) \<and>
    user_rows (t_members d) \<subseteq> user_rows ms"
proof (cases "find_user uid d")
  case None
  let ?r = "new_member_row m (seq_members d + 1)"
  have "fallback_key ?r = None" using assms(2) by (simp add: fallback_key_def)
  then have "insert_member (new_member_row m) d =
      Inr (seq_members d + 1, d\<lparr>t_members := t_members d @ [?r], seq_members := seq_members d + 1\<rparr>)"
    using None assms(2) by (simp add: find_user_None insert_member_def Let_def new_member_row_def)
  moreover have "find_row (\<lambda>r. m_telegram_user_id r = Some uid) (t_members d) = None"
    using None by (simp add: find_user_def)
  ultimately show ?thesis
    using None assms(2) user_rows_append [of "t_members d" "[?r]"]
    by (intro exI [of _ "seq_members d + 1"] exI [of _ "t_members d @ [?r]"])
      (auto simp: upsert_user_row_def ignore_result_def dbind_def stored_def find_user_def find_row_append)
next
  case (Some i)
  then obtain r where r: "r \<in> set (t_members d)" "m_id r = i" "m_telegram_user_id r = Some uid"
    by (auto dest: find_userD)
  let ?ms = "update_where (\<lambda>r. m_id r = i) (set_values m) (t_members d)"
  have up: "update_member i (set_values m) d = Inr ((), d\<lparr>t_members := ?ms\<rparr>)"
    using r by (intro update_member_ok [OF assms(1) r(1,2)]) simp_all
  moreover have "stored m i (d\<lparr>t_members := ?ms\<rparr>)"
    using r(2,3) assms(2) by (intro stored_update [OF r(1)]) simp_all
  moreover have "find_user uid (d\<lparr>t_members := ?ms\<rparr>) = Some i"
    using Some by (auto simp: find_user_def find_row_update_where split: option.splits)
  moreover have "insert i (member_ids d) = m_id ` set ?ms"
    using r by (auto simp: image_id_update_where)
  ultimately show ?thesis
    using Some user_rows_update [of "t_members d" "\<lambda>r. m_id r = i" "set_values m"]
    by - (rule exI [of _ i], rule exI [of _ ?ms], rule exI [of _ "seq_members d"],
      simp add: upsert_user_row_def)
qed

section \<open>Merging a fallback row\<close>

definition membership :: "dataset_member_row \<Rightarrow> int \<times> int" where
  "membership r = (dm_dataset_id r, dm_member_id r)"

abbreviation memberships :: "db \<Rightarrow> (int \<times> int) set" where
  "memberships d \<equiv> membership ` set (t_dataset_members d)"

lemma dfold_map: "dfold (\<lambda>x. f (g x)) xs = dfold f (map g xs)"
  by (induction xs) simp_all

text \<open>Inserting rows whose references exist never fails, and inserts the ones that are missing.\<close>

lemma insert_memberships:
  assumes "\<forall>r \<in> set rs. dm_dataset_id r \<in> dataset_ids d \<and> dm_member_id r \<in> member_ids d \<and>
      fk_opt (group_ids d) (dm_source_group_id r)"
  shows "\<exists>X. dfold (\<lambda>r. ignore_result (insert_dataset_member_or_ignore r)) rs d =
      Inr ((), d\<lparr>t_dataset_members := X\<rparr>) \<and> membership ` set X = memberships d \<union> membership ` set rs"
  using assms
proof (induction rs arbitrary: d)
  case Nil
  have "d = d\<lparr>t_dataset_members := t_dataset_members d\<rparr>" by simp
  then show ?case by (intro exI [of _ "t_dataset_members d"]) simp
next
  case (Cons r rs)
  obtain Y where Y: "ignore_result (insert_dataset_member_or_ignore r) d = Inr ((), d\<lparr>t_dataset_members := Y\<rparr>)"
      "membership ` set Y = insert (membership r) (memberships d)"
  proof (cases "membership r \<in> memberships d")
    case True
    have "d = d\<lparr>t_dataset_members := t_dataset_members d\<rparr>" by simp
    with True show thesis
      by (intro that [of "t_dataset_members d"])
        (auto simp: ignore_result_def dbind_def insert_dataset_member_or_ignore_def membership_def image_iff)
  next
    case False
    with Cons.prems show thesis
      by (intro that [of "t_dataset_members d @ [r]"])
        (auto simp: ignore_result_def dbind_def insert_dataset_member_or_ignore_def membership_def)
  qed
  have "\<exists>X. dfold (\<lambda>r. ignore_result (insert_dataset_member_or_ignore r)) rs
        (d\<lparr>t_dataset_members := Y\<rparr>) = Inr ((), d\<lparr>t_dataset_members := X\<rparr>) \<and>
      membership ` set X = membership ` set Y \<union> membership ` set rs"
    using Cons.IH [of "d\<lparr>t_dataset_members := Y\<rparr>"] Cons.prems by simp
  with Y show ?case by (auto simp: dbind_def)
qed

lemma insert_provenances:
  assumes "\<forall>r \<in> set ps. dp_dataset_id r \<in> dataset_ids d \<and> dp_member_id r \<in> member_ids d \<and>
      fk_opt (dataset_ids d) (dp_source_dataset_id r) \<and> fk_opt (group_ids d) (dp_source_group_id r)"
  shows "\<exists>X. dfold insert_provenance_or_ignore ps d = Inr ((), d\<lparr>t_dataset_provenance := X\<rparr>) \<and>
    provenance_key ` set X = provenance_key ` set (t_dataset_provenance d) \<union> provenance_key ` set ps"
  using assms
proof (induction ps arbitrary: d)
  case Nil
  have "d = d\<lparr>t_dataset_provenance := t_dataset_provenance d\<rparr>" by simp
  then show ?case by (intro exI [of _ "t_dataset_provenance d"]) simp
next
  case (Cons r rs)
  let ?P = "t_dataset_provenance d"
  let ?Y = "if provenance_key r \<in> provenance_key ` set ?P then ?P else ?P @ [r]"
  have same: "d = d\<lparr>t_dataset_provenance := ?P\<rparr>" by simp
  have "insert_provenance_or_ignore r d = Inr ((), d\<lparr>t_dataset_provenance := ?Y\<rparr>)"
    using Cons.prems same by (simp add: insert_provenance_or_ignore_def)
  moreover have "provenance_key ` set ?Y = insert (provenance_key r) (provenance_key ` set ?P)" by auto
  ultimately show ?case
    using Cons.IH [of "d\<lparr>t_dataset_provenance := ?Y\<rparr>"] Cons.prems by (auto simp: dbind_def)
qed

text \<open>Memberships with the fallback id replaced.\<close>

definition renamed :: "int option \<Rightarrow> int \<Rightarrow> (int \<times> int) set \<Rightarrow> (int \<times> int) set" where
  "renamed f i M = {(s, if Some k = f then i else k) | s k. (s, k) \<in> M}"

lemma renamed_same [simp]: "renamed None i M = M" "renamed (Some i) i M = M"
  by (auto simp: renamed_def)

lemma rename_second:
  assumes "f \<noteq> c"
  shows "{p \<in> M \<union> {(s, c) | s. (s, f) \<in> M}. snd p \<noteq> f} = renamed (Some f) c M"
proof (rule set_eqI)
  fix p :: "int \<times> int"
  obtain s i where p: "p = (s, i)" by (cases p)
  show "p \<in> {p \<in> M \<union> {(s, c) | s. (s, f) \<in> M}. snd p \<noteq> f} \<longleftrightarrow> p \<in> renamed (Some f) c M"
    unfolding p renamed_def option.inject using assms by (cases "i = c") auto
qed

lemma merge_outcome:
  assumes "db_wf d" "c \<in> member_ids d" "f \<in> member_ids d" "f \<noteq> c"
  shows "if f \<in> i_member_id ` set (t_migration_items d)
    then merge_fallback_row f c d = Inl (integrity ''FOREIGN KEY migration_items.member_id'')
    else \<exists>d'. merge_fallback_row f c d = Inr ((), d') \<and> t_members d' = filter (\<lambda>r. m_id r \<noteq> f) (t_members d) \<and>
      memberships d' = renamed (Some f) c (memberships d)"
proof -
  let ?ms = "filter (\<lambda>r. dm_member_id r = f) (t_dataset_members d)"
  let ?ps = "filter (\<lambda>r. dp_member_id r = f) (t_dataset_provenance d)"
  let ?dm = "\<lambda>r. r\<lparr>dm_member_id := c\<rparr>" and ?dp = "\<lambda>r. r\<lparr>dp_member_id := c\<rparr>"
  obtain X where X: "dfold (\<lambda>r. ignore_result (insert_dataset_member_or_ignore r)) (map ?dm ?ms) d =
      Inr ((), d\<lparr>t_dataset_members := X\<rparr>)"
      "membership ` set X = memberships d \<union> membership ` set (map ?dm ?ms)"
    using insert_memberships [of "map ?dm ?ms" d] assms(1,2) by (auto simp: db_wf_def dmembers_wf_def)
  obtain Y where Y: "dfold insert_provenance_or_ignore (map ?dp ?ps) (d\<lparr>t_dataset_members := X\<rparr>) =
      Inr ((), d\<lparr>t_dataset_members := X, t_dataset_provenance := Y\<rparr>)"
    using insert_provenances [of "map ?dp ?ps" "d\<lparr>t_dataset_members := X\<rparr>"] assms(1,2)
    by (auto simp: db_wf_def provenance_wf_def)
  have run: "merge_fallback_row f c d = delete_member_row f (d\<lparr>t_dataset_members := X, t_dataset_provenance := Y\<rparr>)"
    using X(1) Y assms(4)
    by (simp add: merge_fallback_row_def dbind_def dfold_map [of _ ?dp]
        dfold_map [of "\<lambda>r. ignore_result (insert_dataset_member_or_ignore r)" ?dm])
  have moved: "membership ` set (map ?dm ?ms) = {(s, c) | s. (s, f) \<in> memberships d}"
    by (auto simp: membership_def image_iff)
  have "membership ` set (filter (\<lambda>r. dm_member_id r \<noteq> f) X) = {p \<in> membership ` set X. snd p \<noteq> f}"
    by (auto simp: membership_def)
  also have "\<dots> = renamed (Some f) c (memberships d)"
    unfolding X(2) moved by (rule rename_second [OF assms(4)])
  finally have "membership ` set (filter (\<lambda>r. dm_member_id r \<noteq> f) X) =
      renamed (Some f) c (memberships d)" .
  moreover have "(\<exists>r \<in> set (t_migration_items d). i_member_id r = f) \<longleftrightarrow> f \<in> i_member_id ` set (t_migration_items d)"
    by auto
  ultimately show ?thesis using assms(3) by (simp add: run delete_member_row_def)
qed

section \<open>The outcome of an upsert\<close>

lemma upsert_user_row_wf [wf_intros]: "keeps_wf (upsert_user_row uid n)"
proof (rule keeps_wfI)
  fix d x d' assume wf: "db_wf d" and eq: "upsert_user_row uid n d = Inr (x, d')"
  have ins: "keeps_wf (ignore_result (insert_member (new_member_row n)))"
    unfolding ignore_result_def by (intro wf_intros)
  show "db_wf d'"
    using eq keeps_wfD [OF ins wf] keeps_wfD [OF update_member_wf wf]
    by (cases "find_user uid d") (auto simp: upsert_user_row_def)
qed

lemma upsert_writes_wf [wf_intros]:
  "keeps_wf (upsert_one m)" "keeps_wf (cache_member a m)" "keeps_wf (recount s)"
proof -
  have merge: "keeps_wf (merge_fallback_row f c)" for f c
    unfolding merge_fallback_row_def ignore_result_def by (intro wf_intros)
  show "keeps_wf (upsert_one m)"
    unfolding upsert_one_def upsert_user_def upsert_named_def Let_def
    by (auto intro!: wf_intros merge split: option.splits)
  show "keeps_wf (cache_member a m)"
    unfolding cache_member_def by (auto intro!: wf_intros split: option.splits)
  show "keeps_wf (recount s)" unfolding recount_def by (rule update_datasets_wf) simp
qed

text \<open>
  The one case an upsert cannot handle: the member is stored under its id and under its name, and
  the row of the name is an item of some job.
\<close>

definition merge_blocked :: "member \<Rightarrow> db \<Rightarrow> bool" where
  "merge_blocked m d =
     (case mb_telegram_user_id m of
        None \<Rightarrow> False
      | Some uid \<Rightarrow>
          (case find_fallback (mb_username m) d of
             None \<Rightarrow> False
           | Some f \<Rightarrow> find_user uid d \<noteq> None \<and> f \<in> i_member_id ` set (t_migration_items d)))"

lemma one_row: "db_wf d \<Longrightarrow> r \<in> set (t_members d) \<Longrightarrow> x \<in> set (t_members d) \<Longrightarrow> m_id x = m_id r \<Longrightarrow> x = r"
  by (auto simp: db_wf_def members_wf_def ids_ok_def distinct_map inj_on_def)

lemma upsert_user_outcome:
  assumes "db_wf d" "mb_telegram_user_id m = Some uid"
  shows "if merge_blocked m d then \<exists>e. upsert_user uid m d = Inl e
    else \<exists>i d'. upsert_user uid m d = Inr (Some i, d') \<and> stored m i d' \<and>
      user_rows (t_members d) \<subseteq> user_rows (t_members d') \<and>
      memberships d' = renamed (find_fallback (mb_username m) d) i (memberships d)"
proof (cases "find_user uid d = None \<and> find_fallback (mb_username m) d \<noteq> None")
  case True
  then obtain f where f: "find_fallback (mb_username m) d = Some f" by auto
  then obtain r where r: "r \<in> set (t_members d)" "m_id r = f" "m_telegram_user_id r = None"
    by (auto dest!: find_fallbackD simp: is_fallback_def)
  let ?g = "\<lambda>r. set_values m (r\<lparr>m_telegram_user_id := Some uid\<rparr>)"
  have "update_member f ?g d = Inr ((), d\<lparr>t_members := update_where (\<lambda>r. m_id r = f) ?g (t_members d)\<rparr>)"
    using True by (intro update_member_ok [OF assms(1) r(1,2)]) (simp_all add: find_user_None)
  moreover have "stored m f (d\<lparr>t_members := update_where (\<lambda>r. m_id r = f) ?g (t_members d)\<rparr>)"
    using r assms(2) by (intro stored_update [OF r(1)]) simp_all
  moreover have "user_rows (t_members d) \<subseteq> user_rows (update_where (\<lambda>r. m_id r = f) ?g (t_members d))"
    using one_row [OF assms(1) r(1)] r(2,3) by (intro user_rows_update) auto
  ultimately show ?thesis
    using True f assms(2) by (auto simp: upsert_user_def merge_blocked_def)
next
  case False
  obtain i ms sq where up: "upsert_user_row uid m d = Inr ((), d\<lparr>t_members := ms, seq_members := sq\<rparr>)"
      and st: "stored m i (d\<lparr>t_members := ms, seq_members := sq\<rparr>)"
      and fu: "find_user uid (d\<lparr>t_members := ms, seq_members := sq\<rparr>) = Some i"
      and ids: "insert i (member_ids d) = m_id ` set ms" and old: "find_user uid d = None \<or> find_user uid d = Some i"
      and users: "user_rows (t_members d) \<subseteq> user_rows ms"
    using upsert_user_row_ok [OF assms] by blast
  let ?d = "d\<lparr>t_members := ms, seq_members := sq\<rparr>"
  have wf: "db_wf ?d" by (rule keeps_wfD [OF upsert_user_row_wf assms(1) up])
  show ?thesis
  proof (cases "find_fallback (mb_username m) d")
    case None
    then show ?thesis
      using up fu st assms(2) False users
      by (cases "find_user uid d") (auto simp: upsert_user_def merge_blocked_def dbind_def)
  next
    case (Some f)
    then have ex: "find_user uid d = Some i" using False old by auto
    obtain r where r: "r \<in> set (t_members d)" "m_id r = f" "m_telegram_user_id r = None"
      using Some by (auto dest!: find_fallbackD simp: is_fallback_def)
    obtain r' where r': "r' \<in> set (t_members d)" "m_id r' = i" "m_telegram_user_id r' = Some uid"
      using find_userD [OF ex] by auto
    have ne: "f \<noteq> i"
      using assms(1) r r' by (auto simp: db_wf_def members_wf_def ids_ok_def distinct_map inj_on_def)
    have run: "upsert_user uid m d = dbind (merge_fallback_row f i) (\<lambda>_. dreturn (Some i)) ?d"
      using up fu ne Some ex by (simp add: upsert_user_def dbind_def)
    have in_ms: "i \<in> member_ids ?d" "f \<in> member_ids ?d"
      using ids r by auto
    have users': "user_rows (t_members d) \<subseteq> user_rows (filter (\<lambda>r. m_id r \<noteq> f) ms)"
    proof -
      have "fst q \<noteq> f" if "q \<in> user_rows (t_members d)" for q
        using that one_row [OF assms(1) r(1)] r(2,3) by (fastforce simp: user_rows_def)
      with users show ?thesis by (auto simp: user_rows_filter)
    qed
    have keep: "stored m i d'" if "t_members d' = filter (\<lambda>r. m_id r \<noteq> f) ms" for d'
      using st ne that by (auto simp: stored_def)
    show ?thesis
      using merge_outcome [OF wf in_ms ne] ex assms(2) Some keep users'
      by (auto simp: run merge_blocked_def dbind_def split: if_splits)
  qed
qed

lemma upsert_outcome:
  assumes "db_wf d"
  shows "if identity_key (clean_member m) = None then upsert_one m d = Inr (None, d)
    else if merge_blocked (clean_member m) d then \<exists>e. upsert_one m d = Inl e
    else \<exists>i d'. upsert_one m d = Inr (Some i, d') \<and> db_wf d' \<and> stored (clean_member m) i d' \<and>
      user_rows (t_members d) \<subseteq> user_rows (t_members d') \<and>
      memberships d' = renamed (find_fallback (mb_username (clean_member m)) d) i (memberships d)"
proof (cases "mb_telegram_user_id m")
  case None
  let ?m = "clean_member m"
  have uid: "mb_telegram_user_id ?m = None" using None by (simp add: clean_member_def)
  show ?thesis
  proof (cases "mb_username ?m")
    case None
    with uid show ?thesis by (simp add: upsert_one_def identity_key_def)
  next
    case (Some u)
    then have "clean_username (mb_username m) = Some u" by (simp add: clean_member_def)
    then have trim: "sql_trim u \<noteq> []" by (rule clean_username_trim)
    then have "u \<noteq> []" by (auto simp: sql_trim_Nil)
    then have run: "upsert_one m = upsert_named ?m" and key: "identity_key ?m \<noteq> None"
      using uid Some by (simp_all add: upsert_one_def identity_key_def)
    obtain i ms sq where ok: "upsert_named ?m d = Inr (Some i, d\<lparr>t_members := ms, seq_members := sq\<rparr>)"
        "stored ?m i (d\<lparr>t_members := ms, seq_members := sq\<rparr>)" "user_rows (t_members d) \<subseteq> user_rows ms"
      using upsert_named_ok [OF assms uid Some trim] by blast
    have "find_fallback (mb_username ?m) d = None \<or> find_fallback (mb_username ?m) d = Some i"
      using ok(1) by (auto simp: upsert_named_def dbind_def split: option.splits sum.splits)
    then have "memberships (d\<lparr>t_members := ms, seq_members := sq\<rparr>) =
        renamed (find_fallback (mb_username ?m) d) i (memberships d)"
      by auto
    moreover have "db_wf (d\<lparr>t_members := ms, seq_members := sq\<rparr>)"
      using keeps_wfD [OF upsert_writes_wf(1) assms] ok(1) run by metis
    ultimately show ?thesis using ok key uid by (auto simp: run merge_blocked_def)
  qed
next
  case (Some uid)
  let ?m = "clean_member m"
  have uid: "mb_telegram_user_id ?m = Some uid" using Some by (simp add: clean_member_def)
  then have run: "upsert_one m = upsert_user uid ?m" and key: "identity_key ?m \<noteq> None"
    by (simp_all add: upsert_one_def identity_key_def)
  show ?thesis
    using upsert_user_outcome [OF assms uid] keeps_wfD [OF upsert_writes_wf(1) [of m] assms] key
    by (auto simp: run)
qed

text \<open>
  C26. Storing a member keeps one row per identity.  A member without a user id and without a name is
  reported as invalid and nothing is written.  Otherwise the returned row holds exactly the data of
  the member, every key of the schema stays unique, and the row that was known by the name only is
  absorbed: the datasets contain the returned row wherever they contained it or the absorbed one.
  No user id moves to another row or disappears.
  The only failure is an absorbed row that is an item of a job: then the transaction is refused.
\<close>

theorem upsert_one_outcome:
  assumes "db_wf d"
  shows "if identity_key (clean_member m) = None then upsert_one m d = Inr (None, d)
    else if merge_blocked (clean_member m) d then \<exists>e. upsert_one m d = Inl e
    else \<exists>i d'. upsert_one m d = Inr (Some i, d') \<and> db_wf d' \<and> stored (clean_member m) i d' \<and>
      user_rows (t_members d) \<subseteq> user_rows (t_members d') \<and>
      memberships d' = renamed (find_fallback (mb_username (clean_member m)) d) i (memberships d)"
  by (rule upsert_outcome [OF assms])

text \<open>On the sample data: the member known as \<open>eve\<close> turns out to have the user id 300.\<close>

definition sample_found :: member where
  "sample_found =
     \<lparr>mb_telegram_user_id = Some 300, mb_username = Some ''@Eve '', mb_first_name = None,
      mb_last_name = None, mb_phone = None, mb_bot = False, mb_deleted = False,
      mb_activity_status = None, mb_last_seen = None, mb_access_hash = None\<rparr>"

theorem upsert_one_outcome_witness:
  "\<exists>i d'. upsert_one sample_found sample_db = Inr (Some i, d') \<and> db_wf d' \<and> stored (clean_member sample_found) i d'"
proof -
  have "identity_key (clean_member sample_found) \<noteq> None" "\<not> merge_blocked (clean_member sample_found) sample_db"
    by code_simp+
  with upsert_one_outcome [OF sample_db_wf, of sample_found] show ?thesis by auto
qed

section \<open>Ingesting\<close>

text \<open>The dataset contains the row of the user id.\<close>

definition user_in :: "int \<Rightarrow> int \<Rightarrow> db \<Rightarrow> bool" where
  "user_in s u d = (\<exists>i. (i, u) \<in> user_rows (t_members d) \<and> (s, i) \<in> memberships d)"

lemma user_in_mono:
  "user_in s u d \<Longrightarrow> user_rows (t_members d) \<subseteq> user_rows (t_members d') \<Longrightarrow> memberships d \<subseteq> memberships d' \<Longrightarrow> user_in s u d'"
  unfolding user_in_def by blast

lemma upsert_keeps_user_in:
  assumes "db_wf d" "upsert_one m d = Inr (x, d')" "user_in s u d"
  shows "user_in s u d'"
proof -
  obtain k where k: "(k, u) \<in> user_rows (t_members d)" "(s, k) \<in> memberships d"
    using assms(3) by (auto simp: user_in_def)
  let ?f = "find_fallback (mb_username (clean_member m)) d"
  have nf: "?f \<noteq> Some k"
  proof
    assume "?f = Some k"
    then obtain r where "r \<in> set (t_members d)" "m_id r = k" "m_telegram_user_id r = None"
      by (auto dest!: find_fallbackD simp: is_fallback_def)
    with k(1) one_row [OF assms(1)] show False by (fastforce simp: user_rows_def)
  qed
  have "(s, k) \<in> renamed ?f i (memberships d)" for i
    unfolding renamed_def using k(2) nf by (intro CollectI exI [of _ s] exI [of _ k]) auto
  with upsert_outcome [OF assms(1), of m] assms(2,3) k(1) show ?thesis
    by (auto simp: user_in_def split: if_splits)
qed

lemma upsert_result:
  assumes "db_wf d" "upsert_one m d = Inr (x, d')"
  shows "x = None \<longleftrightarrow> identity_key (clean_member m) = None"
    and "x = Some i \<Longrightarrow> mb_telegram_user_id m = Some u \<Longrightarrow> (i, u) \<in> user_rows (t_members d')"
proof -
  show "x = None \<longleftrightarrow> identity_key (clean_member m) = None"
    using upsert_outcome [OF assms(1), of m] assms(2) by (auto split: if_splits)
  assume x: "x = Some i" and u: "mb_telegram_user_id m = Some u"
  then have "stored (clean_member m) i d'"
    using upsert_outcome [OF assms(1), of m] assms(2) by (auto split: if_splits)
  then obtain r where "r \<in> set (t_members d')" "m_id r = i"
      "member_from_row r = (clean_member m)\<lparr>mb_access_hash := None\<rparr>"
    by (auto simp: stored_def)
  moreover from this(3) have "mb_telegram_user_id (member_from_row r) = Some u"
    using u by (simp add: clean_member_def)
  then have "m_telegram_user_id r = Some u" by (simp add: member_from_row_def)
  ultimately show "(i, u) \<in> user_rows (t_members d')" by (auto simp: user_rows_def)
qed

lemma cache_member_frame:
  "cache_member a m d = Inr (x, d') \<Longrightarrow> t_members d' = t_members d \<and> t_dataset_members d' = t_dataset_members d"
  by (auto simp: cache_member_def upsert_peer_def split: option.splits if_splits)

lemma membership_simps [simp]:
  "membership \<lparr>dm_dataset_id = s, dm_member_id = i, dm_source_group_id = g\<rparr> = (s, i)"
  by (simp add: membership_def)

lemma insert_dataset_member_effect:
  "insert_dataset_member_or_ignore r d = Inr (n, d') \<Longrightarrow>
     t_members d' = t_members d \<and> memberships d' = insert (membership r) (memberships d) \<and> (n = 0 \<or> n = 1)"
  by (auto simp: insert_dataset_member_or_ignore_def membership_def image_iff split: if_splits)

lemma insert_provenance_frame:
  "insert_provenance_or_ignore r d = Inr (x, d') \<Longrightarrow> t_members d' = t_members d \<and> t_dataset_members d' = t_dataset_members d"
  by (auto simp: insert_provenance_or_ignore_def split: if_splits)

lemma ingest_one_wf [wf_intros]: "keeps_wf (ingest_one s g a l m z)"
  unfolding ingest_one_def by (intro wf_intros)

lemma ingest_one_effect:
  assumes "db_wf d" "ingest_one s g a l m z d = Inr (z', d')"
  shows "user_in s u d \<Longrightarrow> user_in s u d'" "mb_telegram_user_id m = Some u \<Longrightarrow> user_in s u d'"
    and "if identity_key (clean_member m) = None
         then z' = z\<lparr>is_invalid := is_invalid z + 1\<rparr>
         else is_invalid z' = is_invalid z \<and> length (is_local_member_ids z') = length (is_local_member_ids z) + 1 \<and>
           is_accepted z' \<in> {is_accepted z, is_accepted z + 1}"
proof -
  obtain x d1 where up: "upsert_one m d = Inr (x, d1)"
    and rest: "(case x of None \<Rightarrow> dreturn (z\<lparr>is_invalid := is_invalid z + 1\<rparr>)
       | Some i \<Rightarrow>
           dbind (insert_dataset_member_or_ignore \<lparr>dm_dataset_id = s, dm_member_id = i, dm_source_group_id = g\<rparr>) (\<lambda>rowcount.
           dbind (insert_provenance_or_ignore \<lparr>dp_dataset_id = s, dp_member_id = i,
                    dp_source_dataset_id = None, dp_source_group_id = g, dp_source_label = l\<rparr>) (\<lambda>_.
           dbind (cache_member a (clean_member m)) (\<lambda>_.
             dreturn (z\<lparr>is_accepted := is_accepted z + max 0 rowcount,
                        is_local_member_ids := is_local_member_ids z @ [i]\<rparr>))))) d1 = Inr (z', d')"
    using assms(2) unfolding ingest_one_def dbind_Inr by blast
  note res = upsert_result [OF assms(1) up]
  have eff: "t_members d' = t_members d1 \<and> memberships d' = (case x of None \<Rightarrow> memberships d1 | Some i \<Rightarrow> insert (s, i) (memberships d1))"
  proof (cases x)
    case None
    with rest show ?thesis by simp
  next
    case (Some i)
    with rest obtain n d2 y d3 w where "insert_dataset_member_or_ignore
          \<lparr>dm_dataset_id = s, dm_member_id = i, dm_source_group_id = g\<rparr> d1 = Inr (n, d2)"
        and "insert_provenance_or_ignore \<lparr>dp_dataset_id = s, dp_member_id = i,
          dp_source_dataset_id = None, dp_source_group_id = g, dp_source_label = l\<rparr> d2 = Inr (y, d3)"
        and "cache_member a (clean_member m) d3 = Inr (w, d')"
      by (auto simp: dbind_Inr)
    from insert_dataset_member_effect [OF this(1)] insert_provenance_frame [OF this(2)]
      cache_member_frame [OF this(3)] Some show ?thesis
      by simp
  qed
  have "memberships d1 \<subseteq> memberships d'" using eff by (auto split: option.splits)
  then show "user_in s u d \<Longrightarrow> user_in s u d'"
    using user_in_mono [OF upsert_keeps_user_in [OF assms(1) up]] eff by simp
  show "user_in s u d'" if "mb_telegram_user_id m = Some u"
  proof (cases x)
    case None
    with res(1) that show ?thesis by (simp add: identity_key_def clean_member_def)
  next
    case (Some i)
    with res(2) [OF Some that] eff show ?thesis by (auto simp: user_in_def)
  qed
  show "if identity_key (clean_member m) = None
         then z' = z\<lparr>is_invalid := is_invalid z + 1\<rparr>
         else is_invalid z' = is_invalid z \<and> length (is_local_member_ids z') = length (is_local_member_ids z) + 1 \<and>
           is_accepted z' \<in> {is_accepted z, is_accepted z + 1}"
    using rest res(1)
    by (auto simp: dbind_Inr split: option.splits dest!: insert_dataset_member_effect)
qed

lemma ingest_loop_effect:
  assumes "db_wf d" "ingest_loop s g a l ms z d = Inr (z', d')"
  shows "db_wf d' \<and> (\<forall>u. user_in s u d \<longrightarrow> user_in s u d') \<and>
    (\<forall>m \<in> set ms. \<forall>u. mb_telegram_user_id m = Some u \<longrightarrow> user_in s u d') \<and>
    is_invalid z' = is_invalid z + int (length (filter (\<lambda>m. identity_key (clean_member m) = None) ms)) \<and>
    int (length (is_local_member_ids z')) + is_invalid z' =
      int (length (is_local_member_ids z)) + is_invalid z + int (length ms) \<and>
    is_accepted z \<le> is_accepted z' \<and>
    is_accepted z' - is_accepted z \<le> int (length (is_local_member_ids z')) - int (length (is_local_member_ids z))"
  using assms
proof (induction ms arbitrary: z d)
  case (Cons m ms)
  obtain z1 d1 where one: "ingest_one s g a l m z d = Inr (z1, d1)" and rest: "ingest_loop s g a l ms z1 d1 = Inr (z', d')"
    using Cons.prems(2) by (auto simp: dbind_Inr)
  have wf: "db_wf d1" by (rule keeps_wfD [OF ingest_one_wf Cons.prems(1) one])
  note eff = ingest_one_effect [OF Cons.prems(1) one]
  show ?case
    using Cons.IH [OF wf rest] eff by (cases "identity_key (clean_member m)") auto
qed simp

text \<open>
  C25. A batch that is ingested is accounted for: every member counts as invalid (no user id and no
  name) or gives a local id, at most that many memberships are new, every user id of the batch is in
  the dataset, and so is every user id that was there before; the stored member count of the
  dataset is the number of its memberships.
\<close>

theorem ingest_batch_accounted:
  assumes "db_wf d" "submit_ingest_batch s ms g a label d = Inr (z, d')"
  shows "db_wf d' \<and> is_invalid z = int (length (filter (\<lambda>m. identity_key (clean_member m) = None) ms)) \<and>
    int (length (is_local_member_ids z)) + is_invalid z = int (length ms) \<and>
    0 \<le> is_accepted z \<and> is_accepted z \<le> int (length (is_local_member_ids z)) \<and>
    {u. user_in s u d} \<union> set (List.map_filter mb_telegram_user_id ms) \<subseteq> {u. user_in s u d'} \<and>
    (\<forall>r \<in> set (t_datasets d'). d_id r = s \<longrightarrow> d_member_count r = count_members s d')"
proof -
  obtain d1 where loop: "ingest_loop s g a label ms \<lparr>is_accepted = 0, is_invalid = 0, is_local_member_ids = []\<rparr> d = Inr (z, d1)"
    and d': "d' = d1\<lparr>t_datasets := update_where (\<lambda>r. d_id r = s) (\<lambda>r. r\<lparr>d_member_count := count_members s d1\<rparr>) (t_datasets d1)\<rparr>"
    using assms(2) by (auto simp: submit_ingest_batch_def dbind_Inr recount_def update_datasets_def)
  note eff = ingest_loop_effect [OF assms(1) loop]
  have wf: "db_wf d'"
    using keeps_wfD [OF upsert_writes_wf(3), of d1 s] eff d'
    by (simp add: recount_def update_datasets_def)
  have "user_in s u d' = user_in s u d1" for u by (simp add: user_in_def d')
  moreover have "count_members s d' = count_members s d1" by (simp add: count_members_def d')
  moreover have "\<forall>r \<in> set (t_datasets d'). d_id r = s \<longrightarrow> d_member_count r = count_members s d1"
  proof (intro ballI impI)
    fix r assume "r \<in> set (t_datasets d')" "d_id r = s"
    then obtain x where "r = x\<lparr>d_member_count := count_members s d1\<rparr>"
      by (auto simp: d' set_update_where)
    then show "d_member_count r = count_members s d1" by simp
  qed
  ultimately show ?thesis
    using eff wf by (auto simp: set_map_filter_iff)
qed

theorem ingest_batch_accounted_witness:
  "\<exists>z d'. submit_ingest_batch 1 [sample_found] None (Some 1) None sample_db = Inr (z, d') \<and>
     is_invalid z = 0 \<and> user_in 1 300 d'"
proof -
  have "\<exists>z d'. submit_ingest_batch 1 [sample_found] None (Some 1) None sample_db = Inr (z, d')"
  proof -
    have "is_ok (submit_ingest_batch 1 [sample_found] None (Some 1) None sample_db)" by code_simp
    then show ?thesis by (auto simp: is_ok_iff)
  qed
  then obtain z d' where run: "submit_ingest_batch 1 [sample_found] None (Some 1) None sample_db = Inr (z, d')"
    by blast
  have "identity_key (clean_member sample_found) \<noteq> None" "mb_telegram_user_id sample_found = Some 300"
    by (simp_all add: identity_key_def clean_member_def sample_found_def)
  with ingest_batch_accounted [OF sample_db_wf run] run show ?thesis
    by (auto simp: List.map_filter_simps)
qed

end
