(* ===== verification/Planner.thy ===== *)
theory Planner
  imports Candidate_Buffer Member_Store
begin

text \<open>
  \<open>migration/models.py\<close>, \<open>migration/precheck.py\<close> and the two planners \<open>migration/planner.py\<close>: the
  scan of the target group, the classification of the source members and the job a plan becomes.
\<close>

section \<open>Precheck of the target group\<close>

record precheck_result =
  pc_target_ids :: "int list"
  pc_coverage :: target_coverage

record plan_summary =
  ps_total_source :: int
  ps_filtered :: int
  ps_already_target :: int
  ps_invalid :: int
  ps_ready :: int

text \<open>
  The gateway's page iterator: the pages it yields, and the exception it ends with, if any.  With a
  governor the same loop runs while one of its read slots is held.
\<close>

definition page_ids :: "member list \<Rightarrow> int list" where
  "page_ids ms = List.map_filter mb_telegram_user_id ms"

definition precheck_run :: "member list list \<times> exn option \<Rightarrow> precheck_result" where
  "precheck_run stream =
     (let ids = remdups (concat (map page_ids (fst stream)));
          coverage = (case snd stream of
                        None \<Rightarrow> COMPLETE
                      | Some _ \<Rightarrow> if ids \<noteq> [] then PARTIAL else UNAVAILABLE)
      in \<lparr>pc_target_ids = ids, pc_coverage = coverage\<rparr>)"

section \<open>Source rows\<close>

record plan_row =
  pl_id :: int
  pl_telegram_user_id :: "int option"
  pl_username :: "string option"
  pl_bot :: bool
  pl_deleted :: bool
  pl_activity_status :: "string option"
  pl_access_hash :: "int option"
  pl_source_labels :: "string option"

definition unit_separator :: char where
  "unit_separator = char_of (31 :: nat)"

fun join_with :: "char \<Rightarrow> string list \<Rightarrow> string" where
  "join_with c [] = []"
| "join_with c [s] = s"
| "join_with c (s # ss) = s @ c # join_with c ss"

text \<open>\<open>GROUP_CONCAT\<close> is \<open>NULL\<close> over no rows.\<close>

definition group_concat :: "string list \<Rightarrow> string option" where
  "group_concat labels = (if labels = [] then None else Some (join_with unit_separator labels))"

definition source_labels_of :: "int \<Rightarrow> int \<Rightarrow> db \<Rightarrow> string list" where
  "source_labels_of dataset_id member_id d =
     map (\<lambda>r. py_lower (or_empty (dp_source_label r)))
       (filter (\<lambda>r. dp_dataset_id r = dataset_id \<and> dp_member_id r = member_id) (t_dataset_provenance d))"

definition plan_row_of :: "int \<Rightarrow> int \<Rightarrow> db \<Rightarrow> member_row \<Rightarrow> plan_row" where
  "plan_row_of account_id dataset_id d m =
     \<lparr>pl_id = m_id m, pl_telegram_user_id = m_telegram_user_id m, pl_username = m_username m,
      pl_bot = m_bot m, pl_deleted = m_deleted m, pl_activity_status = m_activity_status m,
      pl_access_hash = cached_hash account_id (m_telegram_user_id m) d,
      pl_source_labels = group_concat (source_labels_of dataset_id (m_id m) d)\<rparr>"

definition plan_rows :: "int \<Rightarrow> int \<Rightarrow> db \<Rightarrow> plan_row list" where
  "plan_rows account_id dataset_id d =
     map (plan_row_of account_id dataset_id d) (dataset_member_rows dataset_id d)"

section \<open>The V1.2 planner\<close>

fun py_split :: "char \<Rightarrow> string \<Rightarrow> string list" where
  "py_split c [] = [[]]"
| "py_split c (x # xs) =
     (if x = c then [] # py_split c xs
      else (case py_split c xs of [] \<Rightarrow> [[x]] | s # ss \<Rightarrow> (x # s) # ss))"

definition plan_valid :: "filter_spec \<Rightarrow> plan_row \<Rightarrow> bool" where
  "plan_valid spec row =
     (if pl_telegram_user_id row = None \<or> pl_access_hash row = None then False
      else if fs_exclude_bot spec \<and> pl_bot row then False
      else if fs_exclude_deleted spec \<and> pl_deleted row then False
      else if fs_username_required spec \<and> \<not> truthy_str (pl_username row) then False
      else if fs_activity spec \<noteq> [] \<and> or_empty (pl_activity_status row) \<notin> set (fs_activity spec) then False
      else if fs_source spec \<noteq> [] then
        (let allowed = map (\<lambda>v. py_lower (py_strip v)) (fs_source spec);
             present = filter (\<lambda>l. l \<noteq> []) (py_split unit_separator (or_empty (pl_source_labels row)))
         in \<exists>l \<in> set allowed. l \<in> set present)
      else True)"

record plan_acc =
  pa_seen :: "int list"
  pa_invalid :: int
  pa_filtered :: int
  pa_already :: int
  pa_items :: "(int \<times> target_member_state) list"

definition plan_acc0 :: plan_acc where
  "plan_acc0 = \<lparr>pa_seen = [], pa_invalid = 0, pa_filtered = 0, pa_already = 0, pa_items = []\<rparr>"

definition planned_state :: "precheck_result \<Rightarrow> target_member_state" where
  "planned_state precheck =
     (if pc_coverage precheck = COMPLETE then KNOWN_ABSENT else UNKNOWN_TARGET_STATE)"

text \<open>One iteration of the loop of \<open>create_plan\<close>.\<close>

definition plan_step ::
  "filter_spec \<Rightarrow> int list \<Rightarrow> precheck_result \<Rightarrow> plan_row \<Rightarrow> plan_acc \<Rightarrow> plan_acc" where
  "plan_step spec processed precheck row s =
     (case (pl_telegram_user_id row, pl_access_hash row) of
        (Some uid, Some _) \<Rightarrow>
          if uid \<in> set (pa_seen s) \<or> \<not> plan_valid spec row \<or> uid \<in> set processed \<or>
             uid \<in> set (fs_exclude_processed spec) \<or> uid \<in> set (fs_exclude_target spec)
          then s\<lparr>pa_filtered := pa_filtered s + 1\<rparr>
          else let s1 = s\<lparr>pa_seen := uid # pa_seen s\<rparr> in
            if uid \<in> set (pc_target_ids precheck) then s1\<lparr>pa_already := pa_already s1 + 1\<rparr>
            else s1\<lparr>pa_items := pa_items s1 @ [(pl_id row, planned_state precheck)]\<rparr>
      | _ \<Rightarrow> s\<lparr>pa_invalid := pa_invalid s + 1\<rparr>)"

definition acc_summary :: "nat \<Rightarrow> plan_acc \<Rightarrow> plan_summary" where
  "acc_summary n s =
     \<lparr>ps_total_source = int n, ps_filtered = pa_filtered s, ps_already_target = pa_already s,
      ps_invalid = pa_invalid s, ps_ready = int (length (pa_items s))\<rparr>"

definition persist ::
  "int \<Rightarrow> int \<Rightarrow> int \<Rightarrow> (int \<times> target_member_state) list \<Rightarrow> plan_summary \<Rightarrow> string \<Rightarrow>
     (int \<times> plan_summary) dbprog" where
  "persist account_id source_dataset_id target_group_id ready_items summ action =
     pbind (transact (job_create \<lparr>jb_job_type = JT_MIGRATION, jb_state = JS_READY,
        jb_account_id = Some account_id, jb_source_dataset_id = Some source_dataset_id,
        jb_target_group_id = Some target_group_id, jb_total = int (length ready_items)\<rparr>)) (\<lambda>job_id.
     pbind (transact (submit_add_items job_id ready_items)) (\<lambda>_.
     pbind (transact (submit_checkpoint job_id [(''action'', JStr action)])) (\<lambda>_.
     preturn (job_id, summ))))"

definition plan_loop ::
  "filter_spec \<Rightarrow> int list \<Rightarrow> precheck_result \<Rightarrow> plan_row list \<Rightarrow> plan_acc" where
  "plan_loop spec processed precheck rows = fold (plan_step spec processed precheck) rows plan_acc0"

definition spec_or_default :: "filter_spec option \<Rightarrow> filter_spec" where
  "spec_or_default f = (case f of None \<Rightarrow> FilterSpec | Some s \<Rightarrow> s)"

definition create_plan ::
  "int \<Rightarrow> int \<Rightarrow> int \<Rightarrow> precheck_result \<Rightarrow> filter_spec option \<Rightarrow> (int \<times> plan_summary) dbprog" where
  "create_plan account_id source_dataset_id target_group_id precheck filter_spec =
     pbind (pselect (\<lambda>d. (plan_rows account_id source_dataset_id d,
                          processed_user_ids_for_target target_group_id d))) (\<lambda>(rows, processed).
     let acc = plan_loop (spec_or_default filter_spec) processed precheck rows in
     persist account_id source_dataset_id target_group_id (pa_items acc)
       (acc_summary (length rows) acc) ''INVITE'')"

text \<open>The loop of \<open>create_remove_plan\<close>; \<open>pa_already\<close> counts the members not in the target.\<close>

definition remove_step :: "filter_spec \<Rightarrow> precheck_result \<Rightarrow> plan_row \<Rightarrow> plan_acc \<Rightarrow> plan_acc" where
  "remove_step spec precheck row s =
     (case (pl_telegram_user_id row, pl_access_hash row) of
        (Some uid, Some _) \<Rightarrow>
          if uid \<in> set (pa_seen s) \<or> \<not> plan_valid spec row
          then s\<lparr>pa_filtered := pa_filtered s + 1\<rparr>
          else let s1 = s\<lparr>pa_seen := uid # pa_seen s\<rparr> in
            if uid \<notin> set (pc_target_ids precheck) then s1\<lparr>pa_already := pa_already s1 + 1\<rparr>
            else s1\<lparr>pa_items := pa_items s1 @ [(pl_id row, KNOWN_ABSENT)]\<rparr>
      | _ \<Rightarrow> s\<lparr>pa_invalid := pa_invalid s + 1\<rparr>)"

definition remove_loop :: "filter_spec \<Rightarrow> precheck_result \<Rightarrow> plan_row list \<Rightarrow> plan_acc" where
  "remove_loop spec precheck rows = fold (remove_step spec precheck) rows plan_acc0"

definition create_remove_plan ::
  "int \<Rightarrow> int \<Rightarrow> int \<Rightarrow> precheck_result \<Rightarrow> filter_spec option \<Rightarrow> (int \<times> plan_summary) dbprog" where
  "create_remove_plan account_id source_dataset_id target_group_id precheck filter_spec =
     (if pc_coverage precheck = UNAVAILABLE
      then praise (RuntimeError ''target members cannot be verified'')
      else
        pbind (pselect (plan_rows account_id source_dataset_id)) (\<lambda>rows.
        let acc = remove_loop (spec_or_default filter_spec) precheck rows in
        persist account_id source_dataset_id target_group_id (pa_items acc)
          (acc_summary (length rows) acc) ''REMOVE''))"

section \<open>The V1 planner\<close>

text \<open>
  \<open>migration/planner.py\<close> of the V1 tree.  The job repository it calls is not part of that tree, so its
  three operations are an argument, and so is \<open>str.casefold\<close>, which goes beyond ASCII.
\<close>

record jobs_v1 =
  pj_processed_user_ids_for_target :: "int \<Rightarrow> db \<Rightarrow> int list"
  pj_create :: "job \<Rightarrow> int dbop"
  pj_submit_add_items :: "int \<Rightarrow> (int \<times> target_member_state) list \<Rightarrow> unit dbop"

definition source_filter_v1 :: "(string \<Rightarrow> string) \<Rightarrow> filter_spec \<Rightarrow> string list" where
  "source_filter_v1 fold_case spec = map fold_case (filter (\<lambda>v. py_strip v \<noteq> []) (fs_source spec))"

definition source_map_v1 :: "(string \<Rightarrow> string) \<Rightarrow> int \<Rightarrow> db \<Rightarrow> int \<Rightarrow> string list" where
  "source_map_v1 fold_case dataset_id d member_id =
     List.map_filter (\<lambda>r. if dp_dataset_id r = dataset_id \<and> dp_member_id r = member_id
                          then map_option fold_case (dp_source_label r) else None)
       (t_dataset_provenance d)"

definition plan_step_v1 ::
  "(string \<Rightarrow> string) \<Rightarrow> filter_spec \<Rightarrow> int list \<Rightarrow> precheck_result \<Rightarrow> (int \<Rightarrow> string list) \<Rightarrow> plan_row \<Rightarrow> plan_acc \<Rightarrow> plan_acc" where
  "plan_step_v1 fold_case spec processed precheck source_map row s =
     (case pl_telegram_user_id row of
        None \<Rightarrow> s\<lparr>pa_invalid := pa_invalid s + 1\<rparr>
      | Some uid \<Rightarrow>
          if pl_access_hash row = None then s\<lparr>pa_invalid := pa_invalid s + 1\<rparr>
          else if uid \<in> set (pa_seen s) then s\<lparr>pa_filtered := pa_filtered s + 1\<rparr>
          else
            let s1 = s\<lparr>pa_seen := uid # pa_seen s\<rparr>;
                drop = s1\<lparr>pa_filtered := pa_filtered s1 + 1\<rparr>
            in
            if fs_exclude_bot spec \<and> pl_bot row then drop
            else if fs_exclude_deleted spec \<and> pl_deleted row then drop
            else if fs_username_required spec \<and> \<not> truthy_str (pl_username row) then drop
            else if fs_activity spec \<noteq> [] \<and> or_empty (pl_activity_status row) \<notin> set (fs_activity spec)
            then drop
            else if source_filter_v1 fold_case spec \<noteq> [] \<and>
                    \<not> (\<exists>l \<in> set (source_map (pl_id row)). l \<in> set (source_filter_v1 fold_case spec)) then drop
            else if uid \<in> set processed \<or> uid \<in> set (fs_exclude_processed spec) then drop
            else if uid \<in> set (fs_exclude_target spec) then drop
            else if uid \<in> set (pc_target_ids precheck) then s1\<lparr>pa_already := pa_already s1 + 1\<rparr>
            else s1\<lparr>pa_items := pa_items s1 @ [(pl_id row, planned_state precheck)]\<rparr>)"

definition plan_loop_v1 ::
  "(string \<Rightarrow> string) \<Rightarrow> filter_spec \<Rightarrow> int list \<Rightarrow> precheck_result \<Rightarrow> (int \<Rightarrow> string list) \<Rightarrow> plan_row list \<Rightarrow> plan_acc" where
  "plan_loop_v1 fold_case spec processed precheck source_map rows =
     fold (plan_step_v1 fold_case spec processed precheck source_map) rows plan_acc0"

definition create_plan_v1 ::
  "jobs_v1 \<Rightarrow> (string \<Rightarrow> string) \<Rightarrow> int \<Rightarrow> int \<Rightarrow> int \<Rightarrow> precheck_result \<Rightarrow> filter_spec option \<Rightarrow> (int \<times> plan_summary) dbprog" where
  "create_plan_v1 jobs fold_case account_id source_dataset_id target_group_id precheck filter_spec =
     pbind (pselect (\<lambda>d. (plan_rows account_id source_dataset_id d,
                          pj_processed_user_ids_for_target jobs target_group_id d,
                          source_map_v1 fold_case source_dataset_id d))) (\<lambda>(rows, processed, source_map).
     let acc = plan_loop_v1 fold_case (spec_or_default filter_spec) processed precheck source_map rows in
     pbind (transact (pj_create jobs \<lparr>jb_job_type = JT_MIGRATION, jb_state = JS_READY,
        jb_account_id = Some account_id, jb_source_dataset_id = Some source_dataset_id,
        jb_target_group_id = Some target_group_id, jb_total = int (length (pa_items acc))\<rparr>)) (\<lambda>job_id.
     pbind (transact (pj_submit_add_items jobs job_id (pa_items acc))) (\<lambda>_.
     preturn (job_id, acc_summary (length rows) acc))))"

section \<open>Plans keep the schema invariant\<close>

lemma persist_wf [wf_intros]: "prog_wf (persist a s g its summ act)"
  unfolding persist_def by (intro wf_intros)

lemma create_plan_wf [wf_intros]: "prog_wf (create_plan a s g pre f)"
  unfolding create_plan_def Let_def
  by (intro prog_wf_pbind prog_wf_basic) (simp add: split_beta persist_wf)

lemma create_remove_plan_wf [wf_intros]: "prog_wf (create_remove_plan a s g pre f)"
  unfolding create_remove_plan_def Let_def by (intro wf_intros)

section \<open>What the three loops have in common\<close>

datatype verdict = V_invalid | V_filtered | V_already | V_ready

text \<open>
  Each loop gives every row one verdict and reacts to it in the same way, as long as the user id
  of the row has not been met before.
\<close>

definition fresh_row :: "plan_row \<Rightarrow> plan_acc \<Rightarrow> bool" where
  "fresh_row row s = (set_option (pl_telegram_user_id row) \<inter> set (pa_seen s) = {})"

definition count_verdict :: "(plan_row \<Rightarrow> verdict) \<Rightarrow> verdict \<Rightarrow> plan_row list \<Rightarrow> int" where
  "count_verdict f v rows = int (length (filter (\<lambda>r. f r = v) rows))"

lemma count_verdict_simps [simp]:
  "count_verdict f v [] = 0"
  "count_verdict f v (r # rs) = (if f r = v then 1 else 0) + count_verdict f v rs"
  by (simp_all add: count_verdict_def)

lemma count_verdict_total:
  "count_verdict f V_invalid rows + count_verdict f V_filtered rows + count_verdict f V_already rows +
     count_verdict f V_ready rows = int (length rows)"
proof (induction rows)
  case (Cons r rs)
  then show ?case by (cases "f r") simp_all
qed simp

locale plan_classifier =
  fixes step :: "plan_row \<Rightarrow> plan_acc \<Rightarrow> plan_acc"
    and verdict :: "plan_row \<Rightarrow> verdict"
    and item_state :: target_member_state
  assumes step_counts: "fresh_row row s \<Longrightarrow>
      pa_invalid (step row s) = pa_invalid s + (if verdict row = V_invalid then 1 else 0) \<and>
      pa_filtered (step row s) = pa_filtered s + (if verdict row = V_filtered then 1 else 0) \<and>
      pa_already (step row s) = pa_already s + (if verdict row = V_already then 1 else 0)"
    and step_items: "fresh_row row s \<Longrightarrow>
      pa_items (step row s) = pa_items s @ (if verdict row = V_ready then [(pl_id row, item_state)] else [])"
    and step_seen: "set (pa_seen (step row s)) \<subseteq> set (pa_seen s) \<union> set_option (pl_telegram_user_id row)"
begin

lemma fold_step:
  assumes "distinct (List.map_filter pl_telegram_user_id rows)"
    and "set (List.map_filter pl_telegram_user_id rows) \<inter> set (pa_seen s) = {}"
  shows "pa_invalid (fold step rows s) = pa_invalid s + count_verdict verdict V_invalid rows"
    "pa_filtered (fold step rows s) = pa_filtered s + count_verdict verdict V_filtered rows"
    "pa_already (fold step rows s) = pa_already s + count_verdict verdict V_already rows"
    "pa_items (fold step rows s) =
       pa_items s @ map (\<lambda>r. (pl_id r, item_state)) (filter (\<lambda>r. verdict r = V_ready) rows)"
  using assms
proof (induction rows arbitrary: s)
  case (Cons r rs)
  {
    case 1
    have fresh: "fresh_row r s"
      using 1 by (cases "pl_telegram_user_id r") (auto simp: fresh_row_def List.map_filter_simps)
    have rest: "distinct (List.map_filter pl_telegram_user_id rs)"
        "set (List.map_filter pl_telegram_user_id rs) \<inter> set (pa_seen (step r s)) = {}"
      using 1 step_seen [of r s]
      by (cases "pl_telegram_user_id r"; auto simp: List.map_filter_simps)+
    note facts = fresh rest
  } note facts = this
  {
    case 1
    show ?case using Cons.IH(1) [OF facts(2,3)] step_counts [OF facts(1)] 1 by simp
  next
    case 2
    show ?case using Cons.IH(2) [OF facts(2,3)] step_counts [OF facts(1)] 2 by simp
  next
    case 3
    show ?case using Cons.IH(3) [OF facts(2,3)] step_counts [OF facts(1)] 3 by simp
  next
    case 4
    show ?case using Cons.IH(4) [OF facts(2,3)] step_items [OF facts(1)] 4 by simp
  }
qed (simp_all add: List.map_filter_simps)

end

definition invite_verdict :: "filter_spec \<Rightarrow> int list \<Rightarrow> precheck_result \<Rightarrow> plan_row \<Rightarrow> verdict" where
  "invite_verdict spec processed precheck row =
     (case (pl_telegram_user_id row, pl_access_hash row) of
        (Some uid, Some _) \<Rightarrow>
          if \<not> plan_valid spec row \<or>
             uid \<in> set processed \<union> set (fs_exclude_processed spec) \<union> set (fs_exclude_target spec)
          then V_filtered
          else if uid \<in> set (pc_target_ids precheck) then V_already else V_ready
      | _ \<Rightarrow> V_invalid)"

definition remove_verdict :: "filter_spec \<Rightarrow> precheck_result \<Rightarrow> plan_row \<Rightarrow> verdict" where
  "remove_verdict spec precheck row =
     (case (pl_telegram_user_id row, pl_access_hash row) of
        (Some uid, Some _) \<Rightarrow>
          if \<not> plan_valid spec row then V_filtered
          else if uid \<in> set (pc_target_ids precheck) then V_ready else V_already
      | _ \<Rightarrow> V_invalid)"

interpretation invite_plan: plan_classifier "plan_step spec processed precheck"
  "invite_verdict spec processed precheck" "planned_state precheck" for spec processed precheck
  by unfold_locales
    (auto simp: plan_step_def invite_verdict_def fresh_row_def Let_def split: option.splits)

interpretation remove_plan: plan_classifier "remove_step spec precheck"
  "remove_verdict spec precheck" KNOWN_ABSENT for spec precheck
  by unfold_locales
    (auto simp: remove_step_def remove_verdict_def fresh_row_def Let_def split: option.splits)

section \<open>The rows of a dataset\<close>

lemma map_filter_inj:
  "distinct (List.map_filter f xs) \<Longrightarrow> a \<in> set xs \<Longrightarrow> b \<in> set xs \<Longrightarrow> f a = Some u \<Longrightarrow> f b = Some u \<Longrightarrow> a = b"
  by (induction xs) (auto simp: List.map_filter_simps set_map_filter_iff split: option.splits)

lemma distinct_map_filter_sub:
  assumes "distinct (List.map_filter f xs)" "set ys \<subseteq> set xs" "distinct ys"
  shows "distinct (List.map_filter f ys)"
  using assms(2,3)
proof (induction ys)
  case (Cons y ys)
  then show ?case
    using map_filter_inj [OF assms(1)]
    by (cases "f y") (auto simp: List.map_filter_simps set_map_filter_iff)
qed (simp add: List.map_filter_simps)

lemma dataset_member_rows_ids:
  assumes "db_wf d"
  shows "map m_id (dataset_member_rows s d) =
           map dm_member_id (sort_key dm_member_id (filter (\<lambda>dm. dm_dataset_id dm = s) (t_dataset_members d)))"
    and "set (dataset_member_rows s d) \<subseteq> set (t_members d)"
proof -
  let ?f = "\<lambda>dm. find_row (\<lambda>m. m_id m = dm_member_id dm) (t_members d)"
  have "\<exists>m. ?f dm = Some m \<and> m_id m = dm_member_id dm" if "dm \<in> set (t_dataset_members d)" for dm
  proof -
    from that assms have "dm_member_id dm \<in> member_ids d" by (auto simp: db_wf_def dmembers_wf_def)
    then have "?f dm \<noteq> None" by (auto simp: find_row_None_iff)
    then show ?thesis by (auto dest: find_row_SomeD)
  qed
  then have "map m_id (List.map_filter ?f dms) = map dm_member_id dms"
    if "set dms \<subseteq> set (t_dataset_members d)" for dms
    using that by (induction dms) (fastforce simp: List.map_filter_simps split: option.splits)+
  then show "map m_id (dataset_member_rows s d) =
      map dm_member_id (sort_key dm_member_id (filter (\<lambda>dm. dm_dataset_id dm = s) (t_dataset_members d)))"
    unfolding dataset_member_rows_def by (metis filter_is_subset set_sort)
  show "set (dataset_member_rows s d) \<subseteq> set (t_members d)"
    by (auto simp: dataset_member_rows_def set_map_filter_iff dest: find_row_SomeD)
qed

lemma dataset_member_rows_distinct:
  assumes "db_wf d"
  shows "distinct (map m_id (dataset_member_rows s d))"
proof -
  have "distinct (map (\<lambda>r. (dm_dataset_id r, dm_member_id r)) dms) \<Longrightarrow>
      distinct (map dm_member_id (filter (\<lambda>r. dm_dataset_id r = s) dms))" for dms :: "dataset_member_row list"
    by (induction dms) (auto simp: image_iff)
  with assms show ?thesis
    by (simp add: dataset_member_rows_ids db_wf_def dmembers_wf_def)
qed

lemma plan_row_of_simps [simp]:
  "pl_id (plan_row_of a s d m) = m_id m"
  "pl_telegram_user_id (plan_row_of a s d m) = m_telegram_user_id m"
  "pl_access_hash (plan_row_of a s d m) = cached_hash a (m_telegram_user_id m) d"
  by (simp_all add: plan_row_of_def)

lemma map_filter_map: "List.map_filter f (map g xs) = List.map_filter (f \<circ> g) xs"
  by (induction xs) (auto simp: List.map_filter_simps split: option.splits)

lemma plan_rows_distinct:
  assumes "db_wf d"
  shows "distinct (map pl_id (plan_rows a s d))"
    and "distinct (List.map_filter pl_telegram_user_id (plan_rows a s d))"
    and "pl_id ` set (plan_rows a s d) \<subseteq> member_ids d"
proof -
  note ids = dataset_member_rows_distinct [OF assms, of s]
  show "distinct (map pl_id (plan_rows a s d))" using ids by (simp add: plan_rows_def comp_def)
  have "distinct (List.map_filter m_telegram_user_id (t_members d))"
    using assms by (simp add: db_wf_def members_wf_def)
  from distinct_map_filter_sub [OF this dataset_member_rows_ids(2) [OF assms]] ids
  show "distinct (List.map_filter pl_telegram_user_id (plan_rows a s d))"
    by (simp add: plan_rows_def map_filter_map comp_def distinct_map)
  show "pl_id ` set (plan_rows a s d) \<subseteq> member_ids d"
    using dataset_member_rows_ids(2) [OF assms, of s] by (auto simp: plan_rows_def)
qed

section \<open>Persisting a plan\<close>

lemma number_items_simps:
  "i_job_id ` set (number_items j n its) \<subseteq> {j}"
  "map i_member_id (number_items j n its) = map fst its"
  "map i_ordinal (number_items j n its) = [n..n + int (length its) - 1]"
  "list_all (\<lambda>r. i_state r = IS_READY \<and> i_job_id r = j) (number_items j n its)"
  by (induction j n its rule: number_items.induct) (auto simp: new_item_def upto_rec1)

lemma add_items_insert:
  assumes "j \<in> job_ids d" "fst ` set its \<subseteq> member_ids d" "distinct (map fst its)"
    and "\<forall>r \<in> set (t_migration_items d). i_job_id r = j \<longrightarrow> i_ordinal r < n \<and> i_member_id r \<notin> fst ` set its"
  shows "dfold insert_item_or_ignore (number_items j n its) d =
           Inr ((), d\<lparr>t_migration_items := t_migration_items d @ number_items j n its\<rparr>)"
  using assms
proof (induction its arbitrary: n d)
  case (Cons it its)
  let ?r = "new_item j n it" and ?d1 = "d\<lparr>t_migration_items := t_migration_items d @ [new_item j n it]\<rparr>"
  have "insert_item_or_ignore ?r d = Inr ((), ?d1)"
    using Cons.prems unfolding insert_item_or_ignore_def by (auto simp: new_item_def)
  moreover have "dfold insert_item_or_ignore (number_items j (n + 1) its) ?d1 =
      Inr ((), ?d1\<lparr>t_migration_items := t_migration_items ?d1 @ number_items j (n + 1) its\<rparr>)"
    using Cons.prems by (intro Cons.IH) (auto simp: new_item_def)
  ultimately show ?case by (simp add: dbind_def)
qed simp

text \<open>The database after a plan has been persisted.\<close>

definition persisted :: "int \<Rightarrow> int \<Rightarrow> int \<Rightarrow> (int \<times> target_member_state) list \<Rightarrow> string \<Rightarrow> db \<Rightarrow> db" where
  "persisted a s g its action d =
     (let j = seq_jobs d + 1 in
      d\<lparr>t_jobs := t_jobs d @ [\<lparr>j_id = j, j_job_type = JT_MIGRATION, j_state = JS_READY,
          j_account_id = Some a, j_source_dataset_id = Some s, j_target_group_id = Some g,
          j_total = int (length its), j_processed = 0, j_success = 0, j_skipped = 0, j_failed = 0,
          j_waiting_until = None,
          j_checkpoint_json = Some (CkptJson [(''action'', JStr action)]),
          j_started_at = None, j_finished_at = None\<rparr>],
        seq_jobs := j,
        t_migration_items := t_migration_items d @ number_items j 0 its\<rparr>)"

lemma new_job_unused:
  assumes "db_wf d"
  shows "seq_jobs d + 1 \<notin> job_ids d" "\<forall>r \<in> set (t_migration_items d). i_job_id r \<noteq> seq_jobs d + 1"
  using assms by (force simp: db_wf_def jobs_wf_def ids_ok_def items_wf_def)+

lemma persist_run:
  assumes "db_wf d" "a \<in> account_ids d" "s \<in> dataset_ids d" "g \<in> group_ids d"
    and "fst ` set its \<subseteq> member_ids d" "distinct (map fst its)"
  shows "persist a s g its summ action d =
           (Inr (seq_jobs d + 1, summ), persisted a s g its action d)"
proof -
  let ?j = "seq_jobs d + 1"
  let ?row = "\<lparr>j_id = ?j, j_job_type = JT_MIGRATION, j_state = JS_READY,
      j_account_id = Some a, j_source_dataset_id = Some s, j_target_group_id = Some g,
      j_total = int (length its), j_processed = 0, j_success = 0, j_skipped = 0, j_failed = 0,
      j_waiting_until = None, j_checkpoint_json = None, j_started_at = None, j_finished_at = None\<rparr>"
  let ?d1 = "d\<lparr>t_jobs := t_jobs d @ [?row], seq_jobs := ?j\<rparr>"
  let ?d2 = "?d1\<lparr>t_migration_items := t_migration_items d @ number_items ?j 0 its\<rparr>"
  have 1: "job_create \<lparr>jb_job_type = JT_MIGRATION, jb_state = JS_READY, jb_account_id = Some a,
      jb_source_dataset_id = Some s, jb_target_group_id = Some g, jb_total = int (length its)\<rparr> d =
      Inr (?j, ?d1)"
    using assms(2-4) by (simp add: job_create_def insert_job_def Let_def)
  have others: "\<forall>r \<in> set (t_jobs d). j_id r \<noteq> ?j" using new_job_unused(1) [OF assms(1)] by force
  have "dfold insert_item_or_ignore (number_items ?j 0 its) ?d1 =
      Inr ((), ?d1\<lparr>t_migration_items := t_migration_items ?d1 @ number_items ?j 0 its\<rparr>)"
    using assms(5,6) new_job_unused(2) [OF assms(1)] by (intro add_items_insert) auto
  then have 2: "submit_add_items ?j its ?d1 = Inr ((), ?d2)"
    using others by (simp add: submit_add_items_def dbind_def update_jobs_apply update_where_def
        map_idI)
  have 3: "submit_checkpoint ?j [(''action'', JStr action)] ?d2 =
      Inr ((), persisted a s g its action d)"
    using others
    by (simp add: submit_checkpoint_def update_jobs_apply persisted_def Let_def update_where_def map_idI)
  show ?thesis unfolding persist_def by (simp add: 1 2 3)
qed

lemma pending_items_persisted:
  assumes "db_wf d"
  shows "pending_items (seq_jobs d + 1) (persisted a s g its act d) = number_items (seq_jobs d + 1) 0 its"
proof -
  let ?j = "seq_jobs d + 1" and ?q = "\<lambda>r. i_job_id r = seq_jobs d + 1 \<and> i_state r \<in> {IS_READY, IS_RETRY}"
  have "filter ?q (t_migration_items d) = []"
    using new_job_unused(2) [OF assms] by (simp add: filter_empty_conv)
  moreover have "filter ?q (number_items ?j 0 its) = number_items ?j 0 its"
    using number_items_simps(4) [where j = ?j and n = 0 and its = its] by (intro filter_True) (auto simp: list_all_iff)
  moreover have "sorted (map i_ordinal (number_items ?j 0 its))"
    by (simp add: number_items_simps(3))
  ultimately show ?thesis
    by (simp add: pending_items_def persisted_def Let_def sorted_sort_id sort_key_id_if_sorted)
qed

lemma persisted_wf:
  assumes "db_wf d" "a \<in> account_ids d" "s \<in> dataset_ids d" "g \<in> group_ids d"
    and "fst ` set its \<subseteq> member_ids d" "distinct (map fst its)"
  shows "db_wf (persisted a s g its act d)"
  using prog_wfD [OF persist_wf assms(1)] persist_run [OF assms] by (metis snd_conv)

lemma pending_rows_persisted:
  fixes act :: string
  assumes "db_wf d" "a \<in> account_ids d" "s \<in> dataset_ids d" "g \<in> group_ids d"
    and "fst ` set its \<subseteq> member_ids d" "distinct (map fst its)"
  defines "j \<equiv> seq_jobs d + 1" and "d' \<equiv> persisted a s g its act d"
  shows "map pr_member_id (pending_rows j b d') = map fst its"
    "map pr_ordinal (pending_rows j b d') = [0..int (length its) - 1]"
    "get_checkpoint j d' = [(''action'', JStr act)]"
    "\<exists>r. job_get j d' = Some r \<and> j_state r = JS_READY \<and> j_total r = int (length its) \<and>
       j_account_id r = Some a"
proof -
  have wf: "db_wf d'" unfolding d'_def by (rule persisted_wf [OF assms(1-6)])
  have items: "pending_items j d' = number_items j 0 its"
    unfolding j_def d'_def by (rule pending_items_persisted [OF assms(1)])
  show "map pr_ordinal (pending_rows j b d') = [0..int (length its) - 1]"
    by (simp add: pending_rows_ordinals [OF wf] items number_items_simps)
  have "pr_member_id (the (join_pending b d' r)) = i_member_id r" if "r \<in> set (pending_items j d')" for r
    using join_pending_total [OF wf, of r b] that by (auto simp: pending_items_set)
  then have "map pr_member_id (pending_rows j b d') = map i_member_id (pending_items j d')"
    by (simp add: pending_rows_def)
  then show "map pr_member_id (pending_rows j b d') = map fst its"
    by (simp add: items number_items_simps)
  have none: "find_row (\<lambda>r. j_id r = j) (t_jobs d) = None"
    using new_job_unused(1) [OF assms(1)] unfolding find_row_None_iff j_def by force
  show "get_checkpoint j d' = [(''action'', JStr act)]"
    "\<exists>r. job_get j d' = Some r \<and> j_state r = JS_READY \<and> j_total r = int (length its) \<and>
       j_account_id r = Some a"
    using none unfolding d'_def
    by (simp_all add: get_checkpoint_def job_get_def persisted_def Let_def find_row_append j_def)
qed

text \<open>A candidate of a persisted plan is one of the source rows it was made from.\<close>

lemma pending_row_source:
  assumes "db_wf d" "p \<in> set (pending_rows (seq_jobs d + 1) a (persisted a s g its act d))"
    and "map fst its = map pl_id (filter P (plan_rows a s d))"
  shows "\<exists>r \<in> set (plan_rows a s d). P r \<and> pr_telegram_user_id p = pl_telegram_user_id r \<and>
    pr_account_access_hash p = pl_access_hash r \<and> pr_bot p = pl_bot r \<and> pr_deleted p = pl_deleted r \<and>
    pr_username p = pl_username r \<and> pr_activity_status p = pl_activity_status r"
proof -
  let ?d' = "persisted a s g its act d"
  have frame: "t_members ?d' = t_members d" "t_peer_cache ?d' = t_peer_cache d"
    by (simp_all add: persisted_def Let_def)
  have hash: "cached_hash a u ?d' = cached_hash a u d" for u
    by (simp add: cached_hash_def frame cong: option.case_cong)
  obtain it where it: "it \<in> set (number_items (seq_jobs d + 1) 0 its)" "p = the (join_pending a ?d' it)"
    using assms(2) by (auto simp: pending_rows_def pending_items_persisted [OF assms(1)])
  have "i_member_id it \<in> set (map fst its)"
    using it(1) by (metis imageI list.set_map number_items_simps(2))
  with assms(3) obtain r where r: "r \<in> set (plan_rows a s d)" "P r" "pl_id r = i_member_id it"
    by auto
  then obtain m where m: "m \<in> set (t_members d)" "r = plan_row_of a s d m" "m_id m = i_member_id it"
    using dataset_member_rows_ids(2) [OF assms(1), of s] by (auto simp: plan_rows_def)
  have "find_row (\<lambda>x. m_id x = m_id m) (t_members d) = Some m"
    using assms(1) m(1) by (intro find_row_Some_key) (auto simp: db_wf_def members_wf_def ids_ok_def)
  then have "join_pending a ?d' it = Some \<lparr>pr_ordinal = i_ordinal it, pr_member_id = i_member_id it,
      pr_attempt_count = i_attempt_count it, pr_telegram_user_id = m_telegram_user_id m,
      pr_username = m_username m, pr_first_name = m_first_name m, pr_last_name = m_last_name m,
      pr_phone = m_phone m, pr_bot = m_bot m, pr_deleted = m_deleted m,
      pr_activity_status = m_activity_status m, pr_last_seen = m_last_seen m,
      pr_account_access_hash = cached_hash a (m_telegram_user_id m) d\<rparr>"
    using m(3) by (simp add: join_pending_def frame hash)
  with it(2) r(1,2) m(2) show ?thesis by (intro bexI [of _ r]) (simp_all add: plan_row_of_def)
qed

section \<open>Properties of the plans\<close>

lemma create_plan_run:
  fixes f :: "filter_spec option" and pre :: precheck_result
  assumes "db_wf d" "a \<in> account_ids d" "s \<in> dataset_ids d" "g \<in> group_ids d"
  defines "v \<equiv> invite_verdict (spec_or_default f) (processed_user_ids_for_target g d) pre"
    and "rows \<equiv> plan_rows a s d"
  shows "create_plan a s g pre f d =
    (Inr (seq_jobs d + 1, \<lparr>ps_total_source = int (length rows), ps_filtered = count_verdict v V_filtered rows,
        ps_already_target = count_verdict v V_already rows, ps_invalid = count_verdict v V_invalid rows,
        ps_ready = count_verdict v V_ready rows\<rparr>),
     persisted a s g (map (\<lambda>r. (pl_id r, planned_state pre)) (filter (\<lambda>r. v r = V_ready) rows)) ''INVITE'' d)"
proof -
  note dist = plan_rows_distinct [OF assms(1), of a s, folded rows_def]
  have acc: "pa_seen plan_acc0 = []" "pa_invalid plan_acc0 = 0" "pa_filtered plan_acc0 = 0"
      "pa_already plan_acc0 = 0" "pa_items plan_acc0 = []"
    by (simp_all add: plan_acc0_def)
  let ?acc = "plan_loop (spec_or_default f) (processed_user_ids_for_target g d) pre rows"
  let ?its = "map (\<lambda>r. (pl_id r, planned_state pre)) (filter (\<lambda>r. v r = V_ready) rows)"
  have loop: "pa_items ?acc = ?its" "pa_invalid ?acc = count_verdict v V_invalid rows"
      "pa_filtered ?acc = count_verdict v V_filtered rows" "pa_already ?acc = count_verdict v V_already rows"
    using invite_plan.fold_step [OF dist(2), of plan_acc0]
    by (simp_all add: plan_loop_def acc v_def)
  have "persist a s g ?its summ ''INVITE'' d = (Inr (seq_jobs d + 1, summ), persisted a s g ?its ''INVITE'' d)" for summ
    using dist(1,3) by (intro persist_run assms(1-4)) (auto simp: comp_def distinct_map_filter)
  then show ?thesis
    by (simp add: create_plan_def loop acc_summary_def rows_def [symmetric] count_verdict_def)
qed

lemma create_remove_plan_run:
  fixes f :: "filter_spec option"
  assumes "db_wf d" "a \<in> account_ids d" "s \<in> dataset_ids d" "g \<in> group_ids d"
    and "pc_coverage pre \<noteq> UNAVAILABLE"
  defines "v \<equiv> remove_verdict (spec_or_default f) pre" and "rows \<equiv> plan_rows a s d"
  shows "create_remove_plan a s g pre f d =
    (Inr (seq_jobs d + 1, \<lparr>ps_total_source = int (length rows), ps_filtered = count_verdict v V_filtered rows,
        ps_already_target = count_verdict v V_already rows, ps_invalid = count_verdict v V_invalid rows,
        ps_ready = count_verdict v V_ready rows\<rparr>),
     persisted a s g (map (\<lambda>r. (pl_id r, KNOWN_ABSENT)) (filter (\<lambda>r. v r = V_ready) rows)) ''REMOVE'' d)"
proof -
  note dist = plan_rows_distinct [OF assms(1), of a s, folded rows_def]
  have acc: "pa_seen plan_acc0 = []" "pa_invalid plan_acc0 = 0" "pa_filtered plan_acc0 = 0"
      "pa_already plan_acc0 = 0" "pa_items plan_acc0 = []"
    by (simp_all add: plan_acc0_def)
  let ?acc = "remove_loop (spec_or_default f) pre rows"
  let ?its = "map (\<lambda>r. (pl_id r, KNOWN_ABSENT)) (filter (\<lambda>r. v r = V_ready) rows)"
  have loop: "pa_items ?acc = ?its" "pa_invalid ?acc = count_verdict v V_invalid rows"
      "pa_filtered ?acc = count_verdict v V_filtered rows" "pa_already ?acc = count_verdict v V_already rows"
    using remove_plan.fold_step [OF dist(2), of plan_acc0]
    by (simp_all add: remove_loop_def acc v_def)
  have "persist a s g ?its summ ''REMOVE'' d = (Inr (seq_jobs d + 1, summ), persisted a s g ?its ''REMOVE'' d)" for summ
    using dist(1,3) by (intro persist_run assms(1-4)) (auto simp: comp_def distinct_map_filter)
  then show ?thesis
    using assms(5)
    by (simp add: create_remove_plan_def loop acc_summary_def rows_def [symmetric] count_verdict_def)
qed

text \<open>
  C7. Planning an invitation for existing references always succeeds.  The new job is ready, its
  checkpoint names the action, and what the executor will read for it are exactly the source
  members with a ready verdict, in the order of the source, numbered from zero; the four counts of
  the summary add up to the number of source members, and the ready one is the total of the job.
\<close>

theorem create_plan_correct:
  assumes "db_wf d" "a \<in> account_ids d" "s \<in> dataset_ids d" "g \<in> group_ids d"
  shows "\<exists>job_id summ d' r. create_plan a s g pre f d = (Inr (job_id, summ), d') \<and> job_id \<notin> job_ids d \<and>
    map pr_member_id (pending_rows job_id a d') =
      map pl_id (filter (\<lambda>r. invite_verdict (spec_or_default f)
        (processed_user_ids_for_target g d) pre r = V_ready) (plan_rows a s d)) \<and>
    map pr_ordinal (pending_rows job_id a d') = [0..ps_ready summ - 1] \<and>
    ps_total_source summ = ps_invalid summ + ps_filtered summ + ps_already_target summ + ps_ready summ \<and>
    job_get job_id d' = Some r \<and> j_state r = JS_READY \<and> j_total r = ps_ready summ \<and>
    get_checkpoint job_id d' = [(''action'', JStr ''INVITE'')]"
proof -
  define v where "v = invite_verdict (spec_or_default f) (processed_user_ids_for_target g d) pre"
  define rows where "rows = plan_rows a s d"
  define its where "its = map (\<lambda>r. (pl_id r, planned_state pre)) (filter (\<lambda>r. v r = V_ready) rows)"
  note dist = plan_rows_distinct [OF assms(1), of a s, folded rows_def]
  have "fst ` set its \<subseteq> member_ids d" "distinct (map fst its)"
    using dist(1,3) by (auto simp: its_def comp_def distinct_map_filter)
  note pend = pending_rows_persisted [OF assms this, where act = "''INVITE''"]
  have "count_verdict v V_ready rows = int (length its)" by (simp add: count_verdict_def its_def)
  with create_plan_run [OF assms, of pre f, folded v_def rows_def, folded its_def]
    pend new_job_unused(1) [OF assms(1)] count_verdict_total [of v rows]
  show ?thesis
    by (fastforce simp: its_def comp_def v_def [symmetric] rows_def [symmetric])
qed

theorem create_plan_correct_witness:
  "\<exists>job_id summ d'. create_plan 1 1 1 \<lparr>pc_target_ids = [102], pc_coverage = COMPLETE\<rparr> None sample_db =
      (Inr (job_id, summ), d') \<and> map pr_member_id (pending_rows job_id 1 d') = [1] \<and>
      ps_total_source summ = ps_invalid summ + ps_filtered summ + ps_already_target summ + ps_ready summ"
proof -
  have "1 \<in> account_ids sample_db" "1 \<in> dataset_ids sample_db" "1 \<in> group_ids sample_db"
    by (simp_all add: sample_defs)
  moreover have "map pl_id (filter (\<lambda>r. invite_verdict (spec_or_default None)
        (processed_user_ids_for_target 1 sample_db) \<lparr>pc_target_ids = [102], pc_coverage = COMPLETE\<rparr> r = V_ready)
        (plan_rows 1 1 sample_db)) = [1]"
    by code_simp
  ultimately show ?thesis
    using create_plan_correct [OF sample_db_wf, of 1 1 1 "\<lparr>pc_target_ids = [102], pc_coverage = COMPLETE\<rparr>" None]
    by metis
qed

text \<open>
  C3. No invitation is planned that the prechecks rule out: every candidate of a planned job has a
  user id and an access hash the account has cached, is not a member of the target as scanned, was
  not already added to the target by an earlier job, and meets the filter.
\<close>

theorem create_plan_safe:
  assumes "db_wf d" "a \<in> account_ids d" "s \<in> dataset_ids d" "g \<in> group_ids d"
    and "create_plan a s g pre f d = (Inr (job_id, summ), d')" and "p \<in> set (pending_rows job_id a d')"
  shows "\<exists>uid. pr_telegram_user_id p = Some uid \<and> pr_account_access_hash p \<noteq> None \<and>
    uid \<notin> set (pc_target_ids pre) \<and> uid \<notin> set (processed_user_ids_for_target g d) \<and>
    uid \<notin> set (fs_exclude_target (spec_or_default f)) \<and>
    \<not> (fs_exclude_bot (spec_or_default f) \<and> pr_bot p) \<and>
    \<not> (fs_exclude_deleted (spec_or_default f) \<and> pr_deleted p) \<and>
    \<not> (fs_username_required (spec_or_default f) \<and> \<not> truthy_str (pr_username p))"
proof -
  define v where "v = invite_verdict (spec_or_default f) (processed_user_ids_for_target g d) pre"
  define its where "its = map (\<lambda>r. (pl_id r, planned_state pre)) (filter (\<lambda>r. v r = V_ready) (plan_rows a s d))"
  from assms(5) create_plan_run [OF assms(1-4), of pre f, folded v_def, folded its_def]
  have "job_id = seq_jobs d + 1" "d' = persisted a s g its ''INVITE'' d" by simp_all
  with assms(6) obtain r where r: "v r = V_ready" "pr_telegram_user_id p = pl_telegram_user_id r"
      "pr_account_access_hash p = pl_access_hash r" "pr_bot p = pl_bot r" "pr_deleted p = pl_deleted r"
      "pr_username p = pl_username r"
    using pending_row_source [OF assms(1), of p a s g its "''INVITE''" "\<lambda>r. v r = V_ready"]
    by (auto simp: its_def comp_def)
  from r(1) show ?thesis
    unfolding r(2-6) v_def invite_verdict_def
    by (auto simp: plan_valid_def split: option.splits if_splits)
qed

theorem create_plan_safe_witness:
  "\<exists>p job_id summ d'. create_plan 1 1 1 \<lparr>pc_target_ids = [102], pc_coverage = COMPLETE\<rparr> None sample_db =
      (Inr (job_id, summ), d') \<and> p \<in> set (pending_rows job_id 1 d') \<and>
      (\<exists>uid. pr_telegram_user_id p = Some uid \<and> uid \<notin> set [102])"
proof -
  let ?pre = "\<lparr>pc_target_ids = [102], pc_coverage = COMPLETE\<rparr>"
  let ?out = "create_plan 1 1 1 ?pre None sample_db"
  have refs: "1 \<in> account_ids sample_db" "1 \<in> dataset_ids sample_db" "1 \<in> group_ids sample_db"
    by (simp_all add: sample_defs)
  have run: "case ?out of (Inr (job_id, summ), d') \<Rightarrow> pending_rows job_id 1 d' \<noteq> [] | _ \<Rightarrow> False"
    by code_simp
  then obtain job_id summ d' where out: "?out = (Inr (job_id, summ), d')" and ne: "pending_rows job_id 1 d' \<noteq> []"
    by (auto split: prod.splits sum.splits)
  from ne obtain p where p: "p \<in> set (pending_rows job_id 1 d')" by (meson hd_in_set)
  from create_plan_safe [OF sample_db_wf refs out p] out p show ?thesis by fastforce
qed

text \<open>
  C17. A removal is never planned blindly: when the scan of the target yielded nothing the planner
  raises and changes nothing; otherwise every candidate of the planned job is a member of the
  target as scanned, with a cached access hash, and the checkpoint of the job names the removal.
\<close>

theorem create_remove_plan_safe:
  assumes "db_wf d" "a \<in> account_ids d" "s \<in> dataset_ids d" "g \<in> group_ids d"
  shows "if pc_coverage pre = UNAVAILABLE
    then \<exists>e. create_remove_plan a s g pre f d = (Inl e, d)
    else \<exists>job_id summ d'. create_remove_plan a s g pre f d = (Inr (job_id, summ), d') \<and>
      get_checkpoint job_id d' = [(''action'', JStr ''REMOVE'')] \<and>
      length (pending_rows job_id a d') = nat (ps_ready summ) \<and>
      Some ` set (pc_target_ids pre) \<supseteq> pr_telegram_user_id ` set (pending_rows job_id a d') \<and>
      None \<notin> pr_account_access_hash ` set (pending_rows job_id a d')"
proof (cases "pc_coverage pre = UNAVAILABLE")
  case True
  then show ?thesis by (simp add: create_remove_plan_def)
next
  case False
  define v where "v = remove_verdict (spec_or_default f) pre"
  define its where "its = map (\<lambda>r. (pl_id r, KNOWN_ABSENT)) (filter (\<lambda>r. v r = V_ready) (plan_rows a s d))"
  let ?j = "seq_jobs d + 1" and ?d' = "persisted a s g its ''REMOVE'' d"
  note dist = plan_rows_distinct [OF assms(1), of a s]
  have sub: "fst ` set its \<subseteq> member_ids d" "distinct (map fst its)"
    using dist(1,3) by (auto simp: its_def comp_def distinct_map_filter)
  note pend = pending_rows_persisted [OF assms sub, where act = "''REMOVE''"]
  have src: "\<exists>uid \<in> set (pc_target_ids pre). pr_telegram_user_id p = Some uid \<and> pr_account_access_hash p \<noteq> None"
    if pin: "p \<in> set (pending_rows ?j a ?d')" for p
  proof -
    obtain r where r: "v r = V_ready" "pr_telegram_user_id p = pl_telegram_user_id r"
        "pr_account_access_hash p = pl_access_hash r"
      using pending_row_source [OF assms(1) pin, of "\<lambda>r. v r = V_ready"] by (auto simp: its_def comp_def)
    from r(1) show ?thesis
      unfolding r(2,3) v_def remove_verdict_def by (auto split: option.splits if_splits)
  qed
  have len: "length (pending_rows ?j a ?d') = length its"
    using pend(1) by (metis length_map)
  have cnt: "count_verdict v V_ready (plan_rows a s d) = int (length its)"
    by (simp add: count_verdict_def its_def)
  have run: "\<exists>summ. create_remove_plan a s g pre f d = (Inr (?j, summ), ?d') \<and> nat (ps_ready summ) = length its"
    using create_remove_plan_run [OF assms False, of f, folded v_def, folded its_def] cnt by simp
  show ?thesis
    using run src pend(3) len False
    by (simp only: if_False) (rule exI [of _ ?j], fastforce)
qed

theorem create_remove_plan_safe_witness:
  "\<exists>job_id summ d'. create_remove_plan 1 1 1 \<lparr>pc_target_ids = [102, 7], pc_coverage = PARTIAL\<rparr> None sample_db =
      (Inr (job_id, summ), d') \<and> get_checkpoint job_id d' = [(''action'', JStr ''REMOVE'')] \<and>
      pr_telegram_user_id ` set (pending_rows job_id 1 d') \<subseteq> {Some 102, Some 7}"
proof -
  have refs: "1 \<in> account_ids sample_db" "1 \<in> dataset_ids sample_db" "1 \<in> group_ids sample_db"
    by (simp_all add: sample_defs)
  have ids: "Some ` set [102, 7] = {Some 102, Some (7 :: int)}" and ne: "(PARTIAL = UNAVAILABLE) = False"
    by simp_all
  from create_remove_plan_safe [OF sample_db_wf refs, of "\<lparr>pc_target_ids = [102, 7], pc_coverage = PARTIAL\<rparr>" None]
  show ?thesis
    unfolding precheck_result.simps ne if_False ids by blast
qed

section \<open>The two generations agree\<close>

definition v1_verdict ::
  "(string \<Rightarrow> string) \<Rightarrow> filter_spec \<Rightarrow> int list \<Rightarrow> precheck_result \<Rightarrow> (int \<Rightarrow> string list) \<Rightarrow> plan_row \<Rightarrow> verdict" where
  "v1_verdict fold_case spec processed precheck source_map row =
     (case (pl_telegram_user_id row, pl_access_hash row) of
        (Some uid, Some _) \<Rightarrow>
          if fs_exclude_bot spec \<and> pl_bot row \<or> fs_exclude_deleted spec \<and> pl_deleted row \<or>
             fs_username_required spec \<and> \<not> truthy_str (pl_username row) \<or>
             fs_activity spec \<noteq> [] \<and> or_empty (pl_activity_status row) \<notin> set (fs_activity spec) \<or>
             source_filter_v1 fold_case spec \<noteq> [] \<and>
               \<not> (\<exists>l \<in> set (source_map (pl_id row)). l \<in> set (source_filter_v1 fold_case spec)) \<or>
             uid \<in> set processed \<union> set (fs_exclude_processed spec) \<union> set (fs_exclude_target spec)
          then V_filtered
          else if uid \<in> set (pc_target_ids precheck) then V_already else V_ready
      | _ \<Rightarrow> V_invalid)"

lemma if_same_then: "(if a then x else if b then x else y) = (if a \<or> b then x else y)"
  by simp

lemma v1_step:
  assumes "fresh_row row s"
  shows "plan_step_v1 fold_case spec processed precheck source_map row s =
    (let s1 = s\<lparr>pa_seen := (case pl_telegram_user_id row of None \<Rightarrow> pa_seen s | Some uid \<Rightarrow> uid # pa_seen s)\<rparr> in
     case v1_verdict fold_case spec processed precheck source_map row of
       V_invalid \<Rightarrow> s\<lparr>pa_invalid := pa_invalid s + 1\<rparr>
     | V_filtered \<Rightarrow> s1\<lparr>pa_filtered := pa_filtered s + 1\<rparr>
     | V_already \<Rightarrow> s1\<lparr>pa_already := pa_already s + 1\<rparr>
     | V_ready \<Rightarrow> s1\<lparr>pa_items := pa_items s @ [(pl_id row, planned_state precheck)]\<rparr>)"
proof (cases "pl_telegram_user_id row")
  case (Some uid)
  then have "uid \<notin> set (pa_seen s)" using assms by (simp add: fresh_row_def)
  with Some show ?thesis
    by (cases "pl_access_hash row")
      (simp_all add: plan_step_v1_def v1_verdict_def if_same_then if_distrib [of "case_verdict _ _ _ _"] disj_assoc Let_def
        del: if_split)
qed (simp add: plan_step_v1_def v1_verdict_def)

interpretation v1_plan: plan_classifier "plan_step_v1 fold_case spec processed precheck source_map"
  "v1_verdict fold_case spec processed precheck source_map" "planned_state precheck" for fold_case spec processed precheck source_map
proof unfold_locales
  fix row s
  let ?v = "v1_verdict fold_case spec processed precheck source_map row" and ?t = "plan_step_v1 fold_case spec processed precheck source_map row s"
  show "pa_invalid ?t = pa_invalid s + (if ?v = V_invalid then 1 else 0) \<and>
      pa_filtered ?t = pa_filtered s + (if ?v = V_filtered then 1 else 0) \<and>
      pa_already ?t = pa_already s + (if ?v = V_already then 1 else 0)" if "fresh_row row s"
    by (cases ?v) (simp_all add: v1_step [OF that] Let_def)
  show "pa_items ?t = pa_items s @ (if ?v = V_ready then [(pl_id row, planned_state precheck)] else [])" if "fresh_row row s"
    by (cases ?v) (simp_all add: v1_step [OF that] Let_def)
  show "set (pa_seen ?t) \<subseteq> set (pa_seen s) \<union> set_option (pl_telegram_user_id row)"
    by (simp add: plan_step_v1_def if_same_then Let_def subset_insertI split: option.split)
qed

text \<open>
  A specification and labels on which the two treatments of sources coincide: ASCII throughout, the
  values carry no outer blanks, and no label contains the separator of the concatenation.
\<close>

definition ascii_text :: "string \<Rightarrow> bool" where
  "ascii_text t = list_all (\<lambda>c. of_char c < (128 :: nat)) t"

definition plain_sources :: "filter_spec \<Rightarrow> db \<Rightarrow> bool" where
  "plain_sources spec d =
     (list_all (\<lambda>v. v \<noteq> [] \<and> py_strip v = v \<and> ascii_text v) (fs_source spec) \<and>
      list_all (\<lambda>r. unit_separator \<notin> set (or_empty (dp_source_label r)) \<and> ascii_text (or_empty (dp_source_label r)))
        (t_dataset_provenance d))"

lemma py_split_append:
  "c \<notin> set s \<Longrightarrow> py_split c (s @ t) = (case py_split c t of [] \<Rightarrow> [s] | u # us \<Rightarrow> (s @ u) # us)"
proof (induction s)
  case Nil
  have "py_split c t \<noteq> []" by (induction t) (auto split: list.splits)
  then show ?case by (cases "py_split c t") auto
next
  case (Cons x s)
  then show ?case by (auto split: list.splits)
qed

lemma py_split_join:
  "labels \<noteq> [] \<Longrightarrow> \<forall>l \<in> set labels. c \<notin> set l \<Longrightarrow> py_split c (join_with c labels) = labels"
proof (induction c labels rule: join_with.induct)
  case (2 c s)
  then show ?case using py_split_append [of c s "[]"] by simp
next
  case (3 c s t ts)
  then show ?case by (simp add: py_split_append)
qed simp

lemma lower_char_separator: "lower_char c = unit_separator \<longleftrightarrow> c = unit_separator"
  by (auto simp: lower_char_def Let_def unit_separator_def)

lemma separator_lower: "unit_separator \<in> set (py_lower s) \<longleftrightarrow> unit_separator \<in> set s"
  unfolding py_lower_def set_map image_iff by (metis lower_char_separator)

lemma present_labels:
  assumes "list_all (\<lambda>r. unit_separator \<notin> set (or_empty (dp_source_label r))) (t_dataset_provenance d)"
  shows "set (filter (\<lambda>l. l \<noteq> []) (py_split unit_separator (or_empty (group_concat (source_labels_of s m d))))) =
     {l \<in> set (source_map_v1 py_lower s d m). l \<noteq> []}"
proof -
  let ?ls = "source_labels_of s m d"
  have "\<forall>l \<in> set ?ls. unit_separator \<notin> set l"
    using assms by (auto simp: source_labels_of_def separator_lower list_all_iff)
  then have "?ls \<noteq> [] \<Longrightarrow> py_split unit_separator (join_with unit_separator ?ls) = ?ls"
    by (intro py_split_join)
  then have "set (filter (\<lambda>l. l \<noteq> []) (py_split unit_separator (or_empty (group_concat ?ls)))) =
      {l \<in> set ?ls. l \<noteq> []}"
    by (auto simp: group_concat_def)
  also have "\<dots> = {l \<in> set (source_map_v1 py_lower s d m). l \<noteq> []}"
    by (force simp: source_labels_of_def source_map_v1_def set_map_filter_iff or_empty_def
        split: option.splits if_splits)
  finally show ?thesis .
qed

lemma source_filter_ascii:
  assumes "\<forall>t. ascii_text t \<longrightarrow> fold_case t = py_lower t" "plain_sources spec d"
  shows "source_filter_v1 fold_case spec = map py_lower (fs_source spec)"
proof -
  have v: "py_strip v \<noteq> []" "fold_case v = py_lower v" if "v \<in> set (fs_source spec)" for v
    using assms that by (auto simp: plain_sources_def list_all_iff)
  then have "filter (\<lambda>v. py_strip v \<noteq> []) (fs_source spec) = fs_source spec" by (intro filter_True) blast
  then show ?thesis unfolding source_filter_v1_def using v(2) by (metis map_cong)
qed

lemma source_map_ascii:
  assumes "\<forall>t. ascii_text t \<longrightarrow> fold_case t = py_lower t" "plain_sources spec d"
  shows "source_map_v1 fold_case s d m = source_map_v1 py_lower s d m"
proof -
  have "map_option fold_case (dp_source_label r) = map_option py_lower (dp_source_label r)" if "r \<in> set (t_dataset_provenance d)" for r
    using assms that by (cases "dp_source_label r") (auto simp: plain_sources_def list_all_iff)
  then show ?thesis unfolding source_map_v1_def List.map_filter_def by (auto intro!: map_cong filter_cong arg_cong2 [of _ _ _ _ map])
qed

lemma verdicts_agree:
  assumes "\<forall>t. ascii_text t \<longrightarrow> fold_case t = py_lower t" "plain_sources spec d"
  shows "invite_verdict spec processed pre (plan_row_of a s d m) =
         v1_verdict fold_case spec processed pre (source_map_v1 fold_case s d) (plan_row_of a s d m)"
proof -
  have blank: "py_strip v = v" "v \<noteq> []" if "v \<in> set (fs_source spec)" for v
    using assms(2) that by (auto simp: plain_sources_def list_all_iff)
  note filt = source_filter_ascii [OF assms]
  have allowed: "map (\<lambda>v. py_lower (py_strip v)) (fs_source spec) = source_filter_v1 fold_case spec"
    unfolding filt using blank(1) by simp
  have nonempty: "[] \<notin> set (source_filter_v1 fold_case spec)"
    using blank(2) by (auto simp: filt) (metis py_lower_eq_Nil)
  have sep: "list_all (\<lambda>r. unit_separator \<notin> set (or_empty (dp_source_label r))) (t_dataset_provenance d)"
    using assms(2) by (simp add: plain_sources_def list_all_iff)
  have "(\<exists>l \<in> set (source_filter_v1 fold_case spec). l \<in> set (filter (\<lambda>l. l \<noteq> []) (py_split unit_separator
          (or_empty (group_concat (source_labels_of s (m_id m) d)))))) =
        (\<exists>l \<in> set (source_map_v1 fold_case s d (m_id m)). l \<in> set (source_filter_v1 fold_case spec))"
    unfolding source_map_ascii [OF assms] using present_labels [OF sep, of s "m_id m"] nonempty by auto
  then show ?thesis
    unfolding invite_verdict_def v1_verdict_def plan_valid_def Let_def
    by (simp add: plan_row_of_def allowed filt split: option.split) blast
qed

text \<open>The job repository of V1.2 in the place of the one of V1.\<close>

definition jobs_v12 :: jobs_v1 where
  "jobs_v12 = \<lparr>pj_processed_user_ids_for_target = processed_user_ids_for_target, pj_create = job_create,
     pj_submit_add_items = submit_add_items\<rparr>"

text \<open>
  C29. Over the same job repository and on plain ASCII sources the V1.2 planner does what the V1
  planner does, and then records the action: the same verdict for every row, the same summary, the
  same job and items, for any state of the database that satisfies the schema, errors included.
  The two fold the case of labels in different ways, so the agreement is stated for the texts on
  which \<open>str.casefold\<close> and \<open>str.lower\<close> coincide.
\<close>

theorem planners_agree:
  assumes "db_wf d" "plain_sources (spec_or_default f) d" "\<forall>t. ascii_text t \<longrightarrow> fold_case t = py_lower t"
  shows "create_plan a s g pre f d =
    pbind (create_plan_v1 jobs_v12 fold_case a s g pre f) (\<lambda>(job_id, summ).
      pbind (transact (submit_checkpoint job_id [(''action'', JStr ''INVITE'')])) (\<lambda>_.
      preturn (job_id, summ))) d"
proof -
  let ?rows = "plan_rows a s d" and ?spec = "spec_or_default f"
    and ?pr = "processed_user_ids_for_target g d"
  let ?v = "invite_verdict ?spec ?pr pre" and ?w = "v1_verdict fold_case ?spec ?pr pre (source_map_v1 fold_case s d)"
  note dist = plan_rows_distinct(2) [OF assms(1), of a s]
  have same: "?v r = ?w r" if "r \<in> set ?rows" for r
    using that verdicts_agree [OF assms(3,2)] by (auto simp: plan_rows_def)
  then have filt: "filter (\<lambda>r. ?v r = x) ?rows = filter (\<lambda>r. ?w r = x) ?rows" for x
    by (intro filter_cong) auto
  then have "count_verdict ?v x ?rows = count_verdict ?w x ?rows" for x
    by (simp add: count_verdict_def)
  with filt [of V_ready] have eq: "pa_items (plan_loop ?spec ?pr pre ?rows) =
        pa_items (plan_loop_v1 fold_case ?spec ?pr pre (source_map_v1 fold_case s d) ?rows)"
      "acc_summary n (plan_loop ?spec ?pr pre ?rows) =
        acc_summary n (plan_loop_v1 fold_case ?spec ?pr pre (source_map_v1 fold_case s d) ?rows)" for n
    using invite_plan.fold_step [OF dist, of plan_acc0] v1_plan.fold_step [OF dist, of plan_acc0]
    by (simp_all add: plan_loop_def plan_loop_v1_def plan_acc0_def acc_summary_def)
  define its where "its = pa_items (plan_loop_v1 fold_case ?spec ?pr pre (source_map_v1 fold_case s d) ?rows)"
  define summ where "summ = acc_summary (length ?rows) (plan_loop_v1 fold_case ?spec ?pr pre (source_map_v1 fold_case s d) ?rows)"
  define create where "create = transact (job_create \<lparr>jb_job_type = JT_MIGRATION, jb_state = JS_READY,
      jb_account_id = Some a, jb_source_dataset_id = Some s, jb_target_group_id = Some g,
      jb_total = int (length its)\<rparr>)"
  have v12: "create_plan a s g pre f d = persist a s g its summ ''INVITE'' d"
    by (simp add: create_plan_def eq its_def summ_def)
  define prog where
    "prog = pbind create (\<lambda>j. pbind (transact (submit_add_items j its)) (\<lambda>_. preturn (j, summ)))"
  have v1: "create_plan_v1 jobs_v12 fold_case a s g pre f d = prog d"
    by (simp add: create_plan_v1_def jobs_v12_def its_def summ_def create_def prog_def Let_def)
  show ?thesis
    unfolding v12 pbind_cong_at [where m = "create_plan_v1 jobs_v12 fold_case a s g pre f" and m' = prog and d = d, OF v1]
    by (simp add: pbind_assoc pbind_preturn persist_def create_def prog_def)
qed

theorem planners_agree_witness:
  "\<exists>x d' x' d''. create_plan 1 1 1 \<lparr>pc_target_ids = [102], pc_coverage = COMPLETE\<rparr> None sample_db = (Inr x, d') \<and>
     create_plan_v1 jobs_v12 py_lower 1 1 1 \<lparr>pc_target_ids = [102], pc_coverage = COMPLETE\<rparr> None sample_db = (Inr x', d'') \<and> x = x'"
proof -
  let ?pre = "\<lparr>pc_target_ids = [102], pc_coverage = COMPLETE\<rparr>"
  have "plain_sources (spec_or_default None) sample_db"
    by (simp add: plain_sources_def spec_or_default_def FilterSpec_def ascii_text_def sample_defs)
  note eq = planners_agree [OF sample_db_wf this, of py_lower 1 1 1 ?pre, simplified]
  have "\<exists>j summ d'. create_plan_v1 jobs_v12 py_lower 1 1 1 ?pre None sample_db = (Inr (j, summ), d')"
  proof -
    have "case create_plan_v1 jobs_v12 py_lower 1 1 1 ?pre None sample_db of (Inr _, _) \<Rightarrow> True | _ \<Rightarrow> False" by code_simp
    then show ?thesis by (auto split: prod.splits sum.splits)
  qed
  then obtain j summ d' where v1: "create_plan_v1 jobs_v12 py_lower 1 1 1 ?pre None sample_db = (Inr (j, summ), d')" by blast
  then have "\<exists>d2. create_plan 1 1 1 ?pre None sample_db = (Inr (j, summ), d2)"
    unfolding eq by (simp add: pbind_def transact_def submit_checkpoint_def update_jobs_def)
  with v1 show ?thesis by blast
qed

end
