(* ===== verification/Group_Store.thy ===== *)
theory Group_Store
  imports Job_Store
begin

text \<open>
  \<open>groups/\<close>: the group value, its repository, and the two functions that read a group reference
  the user typed: \<open>normalize_group_reference\<close> for public groups and \<open>invite_hash\<close> for private
  invitation links.
\<close>

section \<open>Groups (groups/models.py, groups/repository.py)\<close>

record group_context =
  gc_telegram_id :: int
  gc_access_hash :: "int option"
  gc_title :: string
  gc_username :: "string option"
  gc_type :: string
  gc_is_member :: bool
  gc_is_admin :: bool
  gc_can_read :: bool
  gc_can_invite :: bool
  gc_can_send :: bool
  gc_resolved_at :: "string option"
  gc_local_group_id :: "int option"

definition GroupContext :: "int \<Rightarrow> int option \<Rightarrow> string \<Rightarrow> string option \<Rightarrow> string \<Rightarrow> group_context" where
  "GroupContext telegram_id access_hash title username kind =
     \<lparr>gc_telegram_id = telegram_id, gc_access_hash = access_hash, gc_title = title,
      gc_username = username, gc_type = kind, gc_is_member = False, gc_is_admin = False,
      gc_can_read = False, gc_can_invite = False, gc_can_send = False, gc_resolved_at = None,
      gc_local_group_id = None\<rparr>"

definition group_id_of :: "int \<Rightarrow> db \<Rightarrow> int option" where
  "group_id_of telegram_id d =
     map_option g_id (find_row (\<lambda>r. g_telegram_peer_id r = telegram_id) (t_groups d))"

text \<open>Subscripting the \<open>None\<close> of an empty \<open>fetchone\<close> raises a \<open>TypeError\<close>.\<close>

definition group_submit_upsert :: "group_context \<Rightarrow> int dbop" where
  "group_submit_upsert g =
     dbind (upsert_group
              \<lparr>g_id = 0, g_telegram_peer_id = gc_telegram_id g, g_type = gc_type g,
               g_username = gc_username g, g_title = gc_title g\<rparr>
              (\<lambda>r. r\<lparr>g_type := gc_type g, g_username := gc_username g, g_title := gc_title g\<rparr>)) (\<lambda>_.
     dbind (dselect (group_id_of (gc_telegram_id g))) (\<lambda>i.
       case i of
         None \<Rightarrow> draise (TypeError ''NoneType is not subscriptable'')
       | Some k \<Rightarrow> dreturn k))"

definition group_get :: "int \<Rightarrow> int option \<Rightarrow> db \<Rightarrow> group_context option" where
  "group_get local_id account_id d =
     (case find_row (\<lambda>r. g_id r = local_id) (t_groups d) of
        None \<Rightarrow> None
      | Some r \<Rightarrow>
          Some ((GroupContext (g_telegram_peer_id r)
                   (case account_id of None \<Rightarrow> None | Some a \<Rightarrow> cached_hash a (Some (g_telegram_peer_id r)) d)
                   (g_title r) (g_username r) (g_type r))\<lparr>gc_local_group_id := Some (g_id r)\<rparr>))"

section \<open>Reading a reference (groups/service.py)\<close>

text \<open>
  \<open>urllib.parse.urlparse\<close> as far as the host and the path: tabs and line breaks are dropped, a
  leading scheme of letters, digits and \<open>+-.\<close> is cut at the colon, the host is what follows the
  double slash up to a slash, question mark or hash sign, the path is what follows it up to a
  question mark or hash sign, less the parameters of its last segment.  A host with a single kind of square
  bracket raises a \<open>ValueError\<close>.
\<close>

definition is_alpha :: "char \<Rightarrow> bool" where
  "is_alpha c = (let n = (of_char c :: nat) in (65 \<le> n \<and> n \<le> 90) \<or> (97 \<le> n \<and> n \<le> 122))"

definition is_dec :: "char \<Rightarrow> bool" where
  "is_dec c = (let n = (of_char c :: nat) in 48 \<le> n \<and> n \<le> 57)"

definition scheme_char :: "char \<Rightarrow> bool" where
  "scheme_char c = (is_alpha c \<or> is_dec c \<or> c \<in> {CHR ''+'', CHR ''-'', CHR ''.''})"

definition cut_scheme :: "string \<Rightarrow> string \<times> string" where
  "cut_scheme url =
     (let s = takeWhile (\<lambda>c. c \<noteq> CHR '':'') url; rest = dropWhile (\<lambda>c. c \<noteq> CHR '':'') url in
      if rest \<noteq> [] \<and> s \<noteq> [] \<and> is_alpha (hd s) \<and> list_all scheme_char s
      then (py_lower s, tl rest) else ([], url))"

definition in_host :: "char \<Rightarrow> bool" where
  "in_host c = (c \<notin> {CHR ''/'', CHR ''?'', CHR ''#''})"

definition in_path :: "char \<Rightarrow> bool" where
  "in_path c = (c \<notin> {CHR ''?'', CHR ''#''})"

text \<open>The parameters after a semicolon of the last segment do not belong to the path.\<close>

definition drop_params :: "string \<Rightarrow> string" where
  "drop_params p =
     (let seg = rev (takeWhile (\<lambda>c. c \<noteq> CHR ''/'') (rev p));
          before = take (length p - length seg) p
      in before @ takeWhile (\<lambda>c. c \<noteq> CHR '';'') seg)"

definition params_schemes :: "string list" where
  "params_schemes =
     ['''', ''ftp'', ''hdl'', ''prospero'', ''http'', ''https'', ''shttp'', ''rtsp'', ''rtsps'',
      ''rtspu'', ''sip'', ''sips'', ''mms'', ''sftp'', ''tel'']"

definition urlparse :: "string \<Rightarrow> (string \<times> string) res" where
  "urlparse url0 =
     (let url = filter (\<lambda>c. of_char c \<notin> {9, 10, 13 :: nat}) url0;
          (scheme, rest) = cut_scheme url;
          (netloc, rest2) =
            (if take 2 rest = ''//''
             then (takeWhile in_host (drop 2 rest), dropWhile in_host (drop 2 rest)) else ([], rest));
          path = takeWhile in_path rest2
      in if (CHR ''['' \<in> set netloc) \<noteq> (CHR '']'' \<in> set netloc)
         then Inl (ValueError ''Invalid IPv6 URL'')
         else Inr (netloc, if scheme \<in> set params_schemes then drop_params path else path))"

definition strip_slashes :: "string \<Rightarrow> string" where
  "strip_slashes p = rev (dropWhile (\<lambda>c. c = CHR ''/'') (rev (dropWhile (\<lambda>c. c = CHR ''/'') p)))"

definition telegram_hosts :: "string list" where
  "telegram_hosts = [''t.me'', ''www.t.me'', ''telegram.me'', ''www.telegram.me'']"

definition normalize_group_reference :: "string \<Rightarrow> string res" where
  "normalize_group_reference reference =
     (let v = py_strip reference in
      if v = [] then Inr []
      else if hd v = CHR ''@'' then Inr (tl v)
      else
        bindR (urlparse (if sublist ''://'' v then v else ''https://'' @ v)) (\<lambda>(netloc, p).
          if py_lower netloc \<in> set telegram_hosts
          then (let path = strip_slashes p in
                if path \<noteq> [] \<and> \<not> prefix ''+'' path \<and> \<not> prefix ''joinchat/'' path
                then Inr (takeWhile (\<lambda>c. c \<noteq> CHR ''/'') path) else Inr v)
          else Inr v))"

definition hash_char :: "char \<Rightarrow> bool" where
  "hash_char c = (is_alpha c \<or> is_dec c \<or> c \<in> {CHR ''_'', CHR ''-''})"

text \<open>The regular expression at one position, then \<open>re.search\<close>: the leftmost position that matches.\<close>

definition after_prefix :: "string \<Rightarrow> string \<Rightarrow> string option" where
  "after_prefix p s = (if prefix p s then Some (drop (length p) s) else None)"

definition hash_at :: "string \<Rightarrow> string option" where
  "hash_at s = (let h = takeWhile hash_char s in if h = [] then None else Some h)"

definition link_at :: "string \<Rightarrow> string option" where
  "link_at s =
     (case after_prefix ''joinchat/'' s of
        Some r \<Rightarrow> hash_at r
      | None \<Rightarrow> (case after_prefix ''+'' s of Some r \<Rightarrow> hash_at r | None \<Rightarrow> None))"

definition invite_at :: "string \<Rightarrow> string option" where
  "invite_at s =
     (case after_prefix ''t.me/'' s of
        Some r \<Rightarrow> link_at r
      | None \<Rightarrow> (case after_prefix ''telegram.me/'' s of Some r \<Rightarrow> link_at r | None \<Rightarrow> None))"

fun search_invite :: "string \<Rightarrow> string option" where
  "search_invite [] = None"
| "search_invite (c # s) =
     (case invite_at (c # s) of Some h \<Rightarrow> Some h | None \<Rightarrow> search_invite s)"

definition invite_hash :: "string \<Rightarrow> string option" where
  "invite_hash reference = search_invite (py_strip reference)"

section \<open>The repository\<close>

lemma group_submit_upsert_wf [wf_intros]: "keeps_wf (group_submit_upsert g)"
  unfolding group_submit_upsert_def by (intro wf_intros)

lemma find_group_row:
  assumes "db_wf d" "r \<in> set (t_groups d)"
  shows "find_row (\<lambda>x. g_id x = g_id r) (t_groups d) = Some r"
    and "find_row (\<lambda>x. g_telegram_peer_id x = g_telegram_peer_id r) (t_groups d) = Some r"
  using assms by (auto simp: db_wf_def groups_wf_def ids_ok_def intro: find_row_Some_key)

text \<open>The row an upsert leaves for the group.\<close>

definition group_row_of :: "group_context \<Rightarrow> int \<Rightarrow> group_row" where
  "group_row_of g i =
     \<lparr>g_id = i, g_telegram_peer_id = gc_telegram_id g, g_type = gc_type g, g_username = gc_username g,
      g_title = gc_title g\<rparr>"

lemma group_upsert_effect:
  assumes "db_wf d"
  shows "\<exists>i d'. group_submit_upsert g d = Inr (i, d') \<and> db_wf d' \<and> group_row_of g i \<in> set (t_groups d') \<and>
    t_peer_cache d' = t_peer_cache d \<and>
    (case group_id_of (gc_telegram_id g) d of None \<Rightarrow> i \<notin> group_ids d | Some k \<Rightarrow> i = k)"
proof -
  let ?r0 = "group_row_of g 0"
  let ?f = "\<lambda>r. r\<lparr>g_type := gc_type g, g_username := gc_username g, g_title := gc_title g\<rparr>"
  have run: "group_submit_upsert g d = dbind (upsert_group ?r0 ?f) (\<lambda>_.
      dbind (dselect (group_id_of (gc_telegram_id g))) (\<lambda>i. case i of
         None \<Rightarrow> draise (TypeError ''NoneType is not subscriptable'') | Some k \<Rightarrow> dreturn k)) d"
    by (simp add: group_submit_upsert_def group_row_of_def)
  obtain d' i where up: "upsert_group ?r0 ?f d = Inr ((), d')" "group_row_of g i \<in> set (t_groups d')"
      "t_peer_cache d' = t_peer_cache d"
      "case group_id_of (gc_telegram_id g) d of None \<Rightarrow> i \<notin> group_ids d | Some k \<Rightarrow> i = k"
  proof (cases "find_row (\<lambda>r. g_telegram_peer_id r = gc_telegram_id g) (t_groups d)")
    case None
    then have new: "gc_telegram_id g \<notin> g_telegram_peer_id ` set (t_groups d)" by (auto simp: find_row_None_iff)
    have "seq_groups d + 1 \<notin> group_ids d" using assms by (force simp: db_wf_def groups_wf_def ids_ok_def)
    with None new show thesis
      by (intro that [of "d\<lparr>t_groups := t_groups d @ [group_row_of g (seq_groups d + 1)], seq_groups := seq_groups d + 1\<rparr>"
            "seq_groups d + 1"]) (auto simp: upsert_group_def group_row_of_def group_id_of_def)
  next
    case (Some r)
    then have r: "r \<in> set (t_groups d)" "g_telegram_peer_id r = gc_telegram_id g" by (auto dest: find_row_SomeD)
    let ?h = "\<lambda>x. (?f x)\<lparr>g_id := g_id x, g_telegram_peer_id := g_telegram_peer_id x\<rparr>"
    have row: "?h r = group_row_of g (g_id r)" using r(2) by (simp add: group_row_of_def)
    have "group_row_of g (g_id r) \<in> set (update_where (\<lambda>x. g_telegram_peer_id x = gc_telegram_id g) ?h (t_groups d))"
      unfolding row [symmetric] update_where_def set_map by (rule rev_image_eqI [OF r(1)]) (simp add: r(2))
    moreover have "upsert_group ?r0 ?f d =
        Inr ((), d\<lparr>t_groups := update_where (\<lambda>x. g_telegram_peer_id x = gc_telegram_id g) ?h (t_groups d)\<rparr>)"
    proof -
      have "gc_telegram_id g \<in> g_telegram_peer_id ` set (t_groups d)" using r by force
      then show ?thesis by (simp add: upsert_group_def group_row_of_def)
    qed
    ultimately show thesis
      using Some by (intro that [of "d\<lparr>t_groups := update_where (\<lambda>x. g_telegram_peer_id x = gc_telegram_id g) ?h (t_groups d)\<rparr>" "g_id r"])
        (simp_all add: group_id_of_def)
  qed
  have wf: "db_wf d'" by (rule keeps_wfD [OF upsert_group_wf assms up(1)])
  have "group_id_of (gc_telegram_id g) d' = Some i"
    using find_group_row(2) [OF wf up(2)] by (simp add: group_id_of_def group_row_of_def)
  then have "group_submit_upsert g d = Inr (i, d')"
    using up(1) by (simp add: run dbind_def)
  with wf up show ?thesis by blast
qed

text \<open>
  C37. Saving a group and loading it back is lossless on what is stored: saving never fails and
  returns the local id, the same one every time the group is saved again, and loading that id gives
  the identity, title, name and kind that were saved, the access hash the account has cached and
  none of the capabilities, which are not persisted.
\<close>

theorem group_round_trip:
  assumes "db_wf d"
  shows "\<exists>i d'. group_submit_upsert g d = Inr (i, d') \<and> db_wf d' \<and>
    group_get i (Some account_id) d' =
      Some ((GroupContext (gc_telegram_id g) (cached_hash account_id (Some (gc_telegram_id g)) d)
               (gc_title g) (gc_username g) (gc_type g))\<lparr>gc_local_group_id := Some i\<rparr>) \<and>
    (case group_id_of (gc_telegram_id g) d of None \<Rightarrow> i \<notin> group_ids d | Some k \<Rightarrow> i = k)"
proof -
  obtain i d' where e: "group_submit_upsert g d = Inr (i, d')" "db_wf d'" "group_row_of g i \<in> set (t_groups d')"
      "t_peer_cache d' = t_peer_cache d"
      "case group_id_of (gc_telegram_id g) d of None \<Rightarrow> i \<notin> group_ids d | Some k \<Rightarrow> i = k"
    using group_upsert_effect [OF assms] by blast
  have "find_row (\<lambda>x. g_id x = i) (t_groups d') = Some (group_row_of g i)"
    using find_group_row(1) [OF e(2,3)] by (simp add: group_row_of_def)
  then have "group_get i (Some account_id) d' =
      Some ((GroupContext (gc_telegram_id g) (cached_hash account_id (Some (gc_telegram_id g)) d)
               (gc_title g) (gc_username g) (gc_type g))\<lparr>gc_local_group_id := Some i\<rparr>)"
    using e(4) by (simp add: group_get_def group_row_of_def cached_hash_def)
  with e show ?thesis by blast
qed

theorem group_round_trip_witness:
  "\<exists>i d'. group_submit_upsert (GroupContext 700 (Some 5) ''Team'' None ''Channel'') sample_db = Inr (i, d') \<and>
     map_option gc_title (group_get i (Some 1) d') = Some ''Team''"
  using group_round_trip [OF sample_db_wf, of "GroupContext 700 (Some 5) ''Team'' None ''Channel''" 1]
  by (auto simp: GroupContext_def)

section \<open>References\<close>

definition name_char :: "char \<Rightarrow> bool" where
  "name_char c = (is_alpha c \<or> is_dec c \<or> c = CHR ''_'')"

definition link_char :: "char \<Rightarrow> bool" where
  "link_char c = (hash_char c \<or> c \<in> {CHR ''.'', CHR ''+'', CHR ''/''})"

lemma link_char_facts:
  assumes "link_char c"
  shows "\<not> is_space c" "in_path c" "c \<noteq> CHR '':''" "c \<noteq> CHR '';''" "c \<noteq> CHR ''@''" "c \<noteq> CHR ''[''" "c \<noteq> CHR '']''"
    "of_char c \<noteq> (9::nat)" "of_char c \<noteq> (10::nat)" "of_char c \<noteq> (13::nat)"
proof -
  have range: "of_char c \<in> {43, 45, 46, 47, 95 :: nat} \<or> (48 \<le> (of_char c :: nat) \<and> (of_char c :: nat) \<le> 57) \<or>
      (65 \<le> (of_char c :: nat) \<and> (of_char c :: nat) \<le> 90) \<or> (97 \<le> (of_char c :: nat) \<and> (of_char c :: nat) \<le> 122)"
    using assms by (auto simp: link_char_def hash_char_def is_alpha_def is_dec_def Let_def)
  show "\<not> is_space c" using range by (auto simp: is_space_def Let_def)
  show "in_path c" "c \<noteq> CHR '':''" "c \<noteq> CHR '';''" "c \<noteq> CHR ''@''" "c \<noteq> CHR ''[''" "c \<noteq> CHR '']''"
    using range by (auto simp: in_path_def)
  show "of_char c \<noteq> (9::nat)" "of_char c \<noteq> (10::nat)" "of_char c \<noteq> (13::nat)" using range by auto
qed

lemma name_char_facts:
  assumes "name_char c"
  shows "link_char c" "in_host c" "c \<noteq> CHR ''/''" "c \<noteq> CHR ''+''" "c \<noteq> CHR ''.''"
  using assms by (auto simp: name_char_def link_char_def hash_char_def in_host_def is_alpha_def is_dec_def)

lemma py_strip_id: "s \<noteq> [] \<Longrightarrow> \<not> is_space (hd s) \<Longrightarrow> \<not> is_space (last s) \<Longrightarrow> py_strip s = s"
proof -
  assume s: "s \<noteq> []" "\<not> is_space (hd s)" "\<not> is_space (last s)"
  have "dropWhile is_space s = s" using s(1,2) by (cases s) simp_all
  moreover have "dropWhile is_space (rev s) = rev s" using s(1,3) by (cases s rule: rev_cases) simp_all
  ultimately show "py_strip s = s" by (simp add: py_strip_def)
qed

lemma strip_link: "s \<noteq> [] \<Longrightarrow> list_all link_char s \<Longrightarrow> py_strip s = s"
  by (intro py_strip_id) (auto simp: list_all_iff link_char_facts)

lemma filter_link: "list_all link_char s \<Longrightarrow> filter (\<lambda>c. of_char c \<notin> {9, 10, 13 :: nat}) s = s"
  by (rule filter_True) (auto simp: list_all_iff link_char_facts)

lemma drop_params_link: "list_all link_char p \<Longrightarrow> drop_params p = p"
proof -
  assume p: "list_all link_char p"
  let ?seg = "rev (takeWhile (\<lambda>c. c \<noteq> CHR ''/'') (rev p))"
  have "c \<noteq> CHR '';''" if "c \<in> set ?seg" for c
  proof -
    have "c \<in> set p" using that by (auto dest: set_takeWhileD)
    with p show ?thesis by (simp add: list_all_iff link_char_facts)
  qed
  then have seg: "takeWhile (\<lambda>c. c \<noteq> CHR '';'') ?seg = ?seg"
    by (simp add: takeWhile_eq_all_conv)
  have "p = rev (dropWhile (\<lambda>c. c \<noteq> CHR ''/'') (rev p)) @ ?seg"
  proof -
    have "rev (takeWhile (\<lambda>c. c \<noteq> CHR ''/'') (rev p) @ dropWhile (\<lambda>c. c \<noteq> CHR ''/'') (rev p)) = p"
      by (simp only: takeWhile_dropWhile_id rev_rev_ident)
    then show ?thesis by (simp only: rev_append)
  qed
  then have "take (length p - length ?seg) p @ ?seg = p"
    by (metis append_eq_conv_conj diff_add_inverse2 length_append)
  then show "drop_params p = p" unfolding drop_params_def Let_def seg .
qed

lemma urlparse_https:
  assumes "list_all (\<lambda>c. link_char c \<and> in_host c) host" "list_all link_char p" "p = [] \<or> hd p = CHR ''/''"
  shows "urlparse (''https://'' @ host @ p) = Inr (host, p)"
proof -
  have link: "list_all link_char (host @ p)" using assms by (auto simp: list_all_iff)
  have url: "filter (\<lambda>c. of_char c \<notin> {9, 10, 13 :: nat}) (''https://'' @ host @ p) = ''https://'' @ host @ p"
    using filter_link [OF link] by simp
  have cut: "cut_scheme (''https://'' @ host @ p) = (''https'', ''//'' @ host @ p)"
    by (simp add: cut_scheme_def is_alpha_def scheme_char_def py_lower_def lower_char_def Let_def)
  have "takeWhile in_host (host @ p) = host" "dropWhile in_host (host @ p) = p"
    using assms by (cases p; auto simp: list_all_iff in_host_def takeWhile_append dropWhile_append)+
  moreover have "takeWhile in_path p = p"
    using assms(2) by (auto simp: list_all_iff takeWhile_eq_all_conv link_char_facts)
  note path = this
  moreover have "CHR ''['' \<notin> set host" "CHR '']'' \<notin> set host"
    using assms(1) link_char_facts(6,7) by (auto simp: list_all_iff)
  moreover have "''https'' \<in> set params_schemes" by (simp add: params_schemes_def)
  ultimately show ?thesis
    using drop_params_link [OF assms(2)]
    unfolding urlparse_def url Let_def cut by (simp add: path del: takeWhile_eq_all_conv)
qed

lemma no_scheme: "list_all link_char s \<Longrightarrow> \<not> sublist ''://'' s"
proof
  assume s: "list_all link_char s" "sublist ''://'' s"
  have "CHR '':'' \<in> set s" using set_mono_sublist [OF s(2)] by auto
  with s(1) show False by (auto simp: list_all_iff dest: link_char_facts(3))
qed

lemma telegram_host_facts:
  assumes "host \<in> set telegram_hosts"
  shows "host \<noteq> []" "list_all (\<lambda>c. link_char c \<and> in_host c) host" "py_lower host = host" "hd host \<noteq> CHR ''@''"
  using assms
  by (auto simp: telegram_hosts_def link_char_def hash_char_def is_alpha_def in_host_def py_lower_def lower_char_def)

lemma link_head:
  assumes "host \<in> set telegram_hosts" "lead = [] \<or> lead = ''https://''"
  shows "hd (lead @ host @ x) \<noteq> CHR ''@''" "\<not> is_space (hd (lead @ host @ x))"
proof -
  note h = telegram_host_facts [OF assms(1)]
  have "\<not> is_space (hd host)" using h(1,2) by (simp add: list_all_iff link_char_facts)
  then show "hd (lead @ host @ x) \<noteq> CHR ''@''" "\<not> is_space (hd (lead @ host @ x))"
    using h(1,4) assms(2) by (auto simp: is_space_def Let_def)
qed

lemma normalize_link:
  assumes "host \<in> set telegram_hosts" "list_all link_char p" "lead = [] \<or> lead = ''https://''"
  shows "normalize_group_reference (lead @ host @ CHR ''/'' # p) =
    (let path = strip_slashes (CHR ''/'' # p) in
     if path \<noteq> [] \<and> \<not> prefix ''+'' path \<and> \<not> prefix ''joinchat/'' path
     then Inr (takeWhile (\<lambda>c. c \<noteq> CHR ''/'') path) else Inr (lead @ host @ CHR ''/'' # p))"
proof -
  note h = telegram_host_facts [OF assms(1)]
  let ?v = "lead @ host @ CHR ''/'' # p"
  have slash: "link_char (CHR ''/'')" by (simp add: link_char_def)
  have link: "list_all link_char (host @ CHR ''/'' # p)" using h(2) assms(2) slash by (auto simp: list_all_iff)
  have last: "\<not> is_space (last ?v)"
    using link last_in_set [of "host @ CHR ''/'' # p"] by (auto simp: list_all_iff link_char_facts)
  note hd = link_head [OF assms(1,3)]
  have strip: "py_strip ?v = ?v" using hd(2) last by (intro py_strip_id) simp_all
  have up: "urlparse (''https://'' @ host @ CHR ''/'' # p) = Inr (host, CHR ''/'' # p)"
    using h(2) assms(2) slash by (intro urlparse_https) auto
  have "(if sublist ''://'' ?v then ?v else ''https://'' @ ?v) = ''https://'' @ host @ CHR ''/'' # p"
    using assms(3) no_scheme [OF link] by (auto simp: sublist_code)
  with up hd(1) h(3) assms(1) show ?thesis
    unfolding normalize_group_reference_def Let_def strip by (auto simp: Let_def)
qed

text \<open>The spellings of a public group, and of a private invitation link.\<close>

lemma strip_slashes_path: "p \<noteq> [] \<Longrightarrow> hd p \<noteq> CHR ''/'' \<Longrightarrow> last p \<noteq> CHR ''/'' \<Longrightarrow> strip_slashes (CHR ''/'' # p) = p"
proof -
  assume p: "p \<noteq> []" "hd p \<noteq> CHR ''/''" "last p \<noteq> CHR ''/''"
  have "dropWhile (\<lambda>c. c = CHR ''/'') p = p" using p(1,2) by (cases p) simp_all
  moreover have "dropWhile (\<lambda>c. c = CHR ''/'') (rev p) = rev p" using p(1,3) by (cases p rule: rev_cases) simp_all
  ultimately show ?thesis by (simp add: strip_slashes_def)
qed

lemma public_link:
  assumes "host \<in> set telegram_hosts" "lead = [] \<or> lead = ''https://''" "u \<noteq> []" "list_all name_char u"
  shows "normalize_group_reference (lead @ host @ ''/'' @ u) = Inr u"
proof -
  have c: "c \<noteq> CHR ''/'' \<and> c \<noteq> CHR ''+'' \<and> link_char c" if "c \<in> set u" for c
    using that assms(4) by (simp add: list_all_iff name_char_facts)
  have link: "list_all link_char u" using c by (simp add: list_all_iff)
  have path: "strip_slashes (CHR ''/'' # u) = u"
    using assms(3) c [of "hd u"] c [of "last u"] by (intro strip_slashes_path) simp_all
  have np: "\<not> prefix ''+'' u" using assms(3) c [of "hd u"] by (cases u) auto
  have nj: "\<not> prefix ''joinchat/'' u"
    using c [of "CHR ''/''"] by (auto dest: set_mono_prefix)
  have all: "takeWhile (\<lambda>c. c \<noteq> CHR ''/'') u = u" using c by (simp add: takeWhile_eq_all_conv)
  show ?thesis
    using normalize_link [OF assms(1) link assms(2)] path np nj assms(3)
    by (simp add: Let_def all del: takeWhile_eq_all_conv)
qed

lemma bare_name:
  assumes "u \<noteq> []" "list_all name_char u"
  shows "normalize_group_reference u = Inr u" "normalize_group_reference (CHR ''@'' # u) = Inr u"
proof -
  have c: "c \<noteq> CHR ''.'' \<and> c \<noteq> CHR ''@'' \<and> link_char c \<and> in_host c \<and> \<not> is_space c" if "c \<in> set u" for c
  proof -
    have n: "name_char c" using that assms(2) by (simp add: list_all_iff)
    show ?thesis using name_char_facts [OF n] link_char_facts [OF name_char_facts(1) [OF n]] by simp
  qed
  have strip: "py_strip u = u" using assms(1) c by (intro py_strip_id) simp_all
  have link: "list_all link_char u" "list_all (\<lambda>c. link_char c \<and> in_host c) u" using c by (simp_all add: list_all_iff)
  have up: "urlparse (''https://'' @ u @ []) = Inr (u, [])" using link by (intro urlparse_https) simp_all
  have "py_lower u \<notin> set telegram_hosts"
  proof
    assume "py_lower u \<in> set telegram_hosts"
    then have "CHR ''.'' \<in> set (py_lower u)" by (auto simp: telegram_hosts_def)
    then obtain x where x: "x \<in> set u" "lower_char x = CHR ''.''" by (auto simp: py_lower_def)
    have "x = CHR ''.''"
    proof -
      have "of_char (lower_char x) = (46 :: nat)" using x(2) by simp
      then have "of_char x = (46 :: nat)" by (auto simp: lower_char_def Let_def split: if_splits)
      then show ?thesis using of_char_eq_iff [of x "CHR ''.''", where 'a = nat] by simp
    qed
    with x(1) c show False by blast
  qed
  then show "normalize_group_reference u = Inr u"
    using up assms(1) c [of "hd u"] no_scheme [OF link(1)]
    by (simp add: normalize_group_reference_def strip Let_def)
  have "py_strip (CHR ''@'' # u) = CHR ''@'' # u"
    using assms(1) c [of "last u"] by (intro py_strip_id) (simp_all add: is_space_def)
  then show "normalize_group_reference (CHR ''@'' # u) = Inr u" by (simp add: normalize_group_reference_def)
qed

lemma search_link:
  assumes "host \<in> set telegram_hosts" "lead = [] \<or> lead = ''https://''" "link_at x = Some h"
  shows "search_invite (lead @ host @ ''/'' @ x) = Some h"
proof -
  have tail: "invite_at (''t.me/'' @ x) = Some h" "invite_at (''telegram.me/'' @ x) = Some h"
    using assms(3) by (simp_all add: invite_at_def after_prefix_def)
  have skip: "invite_at (c # s) = None" if "c \<noteq> CHR ''t''" for c s
    using that by (auto simp: invite_at_def after_prefix_def)
  have tt: "invite_at (CHR ''t'' # c # s) = None" if "c \<noteq> CHR ''.''" "c \<noteq> CHR ''e''" for c s
    using that by (auto simp: invite_at_def after_prefix_def)
  have host: "search_invite (host @ ''/'' @ x) = Some h"
    using assms(1) tail by (auto simp: telegram_hosts_def skip)
  then show ?thesis using assms(2) by (auto simp: skip tt)
qed

lemma private_link:
  assumes "host \<in> set telegram_hosts" "lead = [] \<or> lead = ''https://''" "mark = ''+'' \<or> mark = ''joinchat/''"
    and "h \<noteq> []" "list_all hash_char h"
  shows "normalize_group_reference (lead @ host @ ''/'' @ mark @ h) = Inr (lead @ host @ ''/'' @ mark @ h)"
    and "invite_hash (lead @ host @ ''/'' @ mark @ h) = Some h"
proof -
  have c: "link_char c \<and> c \<noteq> CHR ''/'' \<and> \<not> is_space c" if "c \<in> set h" for c
  proof -
    have hc: "hash_char c" using that assms(5) by (simp add: list_all_iff)
    then have "link_char c" by (simp add: link_char_def)
    moreover have "c \<noteq> CHR ''/''" using hc by (auto simp: hash_char_def is_alpha_def is_dec_def)
    ultimately show ?thesis by (simp add: link_char_facts)
  qed
  have "list_all link_char h" using c by (simp add: list_all_iff)
  moreover have "list_all link_char mark"
    using assms(3) by (auto simp: link_char_def hash_char_def is_alpha_def)
  ultimately have link: "list_all link_char (mark @ h)" by simp
  have path: "strip_slashes (CHR ''/'' # mark @ h) = mark @ h"
    using assms(3,4) c [of "last h"] by (intro strip_slashes_path) auto
  show "normalize_group_reference (lead @ host @ ''/'' @ mark @ h) = Inr (lead @ host @ ''/'' @ mark @ h)"
    using normalize_link [OF assms(1) link assms(2)] path assms(3) by (auto simp: Let_def)
  have hash: "takeWhile hash_char h = h" using assms(5) by (simp add: takeWhile_eq_all_conv list_all_iff)
  have strip: "py_strip (lead @ host @ ''/'' @ mark @ h) = lead @ host @ ''/'' @ mark @ h"
  proof (intro py_strip_id)
    show "\<not> is_space (hd (lead @ host @ ''/'' @ mark @ h))"
      by (rule link_head(2) [OF assms(1,2)])
    show "\<not> is_space (last (lead @ host @ ''/'' @ mark @ h))" using assms(4) c [of "last h"] by simp
  qed simp
  show "invite_hash (lead @ host @ ''/'' @ mark @ h) = Some h"
    unfolding invite_hash_def strip by (rule search_link [OF assms(1,2)]) (use assms(3,4) in \<open>auto simp: link_at_def hash_at_def after_prefix_def hash simp del: takeWhile_eq_all_conv\<close>)
qed

text \<open>
  A group can be named in every usual spelling.  A public name \<open>u\<close> is recognised bare, with
  an at sign, and as a link to any of the four Telegram hosts, with or without the scheme; a private
  invitation link, old or new style, is kept as it is and its invitation hash is found.
\<close>

theorem reference_spellings:
  assumes "u \<noteq> []" "list_all name_char u" "h \<noteq> []" "list_all hash_char h"
    and "host \<in> set telegram_hosts" "lead = [] \<or> lead = ''https://''" "mark = ''+'' \<or> mark = ''joinchat/''"
  shows "normalize_group_reference u = Inr u \<and> normalize_group_reference (''@'' @ u) = Inr u \<and>
    normalize_group_reference (lead @ host @ ''/'' @ u) = Inr u \<and>
    normalize_group_reference (lead @ host @ ''/'' @ mark @ h) = Inr (lead @ host @ ''/'' @ mark @ h) \<and>
    invite_hash (lead @ host @ ''/'' @ mark @ h) = Some h"
  using bare_name [OF assms(1,2)] public_link [OF assms(5,6,1,2)] private_link [OF assms(5,6,7,3,4)] by simp

theorem reference_spellings_witness:
  "normalize_group_reference ''https://t.me/team_1'' = Inr ''team_1'' \<and>
   invite_hash ''https://t.me/+AbC-9'' = Some ''AbC-9''"
proof -
  have "list_all name_char ''team_1''" "list_all hash_char ''AbC-9''"
    by (simp_all add: name_char_def hash_char_def is_alpha_def is_dec_def)
  then show ?thesis
    using reference_spellings [of "''team_1''" "''AbC-9''" "''t.me''" "''https://''" "''+''"]
    by (simp add: telegram_hosts_def)
qed

end
