(* ===== verification/State_Store.thy ===== *)
theory State_Store
  imports Planner Group_Store
begin

text \<open>
  \<open>runtime/state_store.py\<close>: the selections the user interface shares with the command handlers.  A
  snapshot is a copy, so a handler works on the selections as they were when it was called.
\<close>

record state_snapshot =
  ss_active_account_id :: "int option"
  ss_source_group :: "group_context option"
  ss_source_account_id :: "int option"
  ss_target_group :: "group_context option"
  ss_target_account_id :: "int option"
  ss_source_dataset_id :: "int option"
  ss_precheck :: "precheck_result option"
  ss_migration_job_id :: "int option"
  ss_plan_summary :: "plan_summary option"
  ss_phone_code_hashes :: "(int \<times> string) list"

definition StateSnapshot :: state_snapshot where
  "StateSnapshot =
     \<lparr>ss_active_account_id = None, ss_source_group = None, ss_source_account_id = None, ss_target_group = None,
      ss_target_account_id = None, ss_source_dataset_id = None, ss_precheck = None, ss_migration_job_id = None,
      ss_plan_summary = None, ss_phone_code_hashes = []\<rparr>"

definition snapshot :: "state_snapshot \<Rightarrow> state_snapshot" where
  "snapshot st =
     \<lparr>ss_active_account_id = ss_active_account_id st, ss_source_group = ss_source_group st,
      ss_source_account_id = ss_source_account_id st, ss_target_group = ss_target_group st,
      ss_target_account_id = ss_target_account_id st, ss_source_dataset_id = ss_source_dataset_id st,
      ss_precheck = ss_precheck st, ss_migration_job_id = ss_migration_job_id st,
      ss_plan_summary = ss_plan_summary st, ss_phone_code_hashes = ss_phone_code_hashes st\<rparr>"

text \<open>
  \<open>update(**values)\<close>: the keyword arguments in order, each with the value of its field.  An unknown
  name raises, and what was set before it stays set.
\<close>

datatype state_value =
    SV_int "int option"
  | SV_group "group_context option"
  | SV_precheck "precheck_result option"
  | SV_summary "plan_summary option"

definition set_field :: "string \<Rightarrow> state_value \<Rightarrow> state_snapshot \<Rightarrow> state_snapshot option" where
  "set_field key v st =
     (case v of
        SV_int i \<Rightarrow>
          if key = ''active_account_id'' then Some (st\<lparr>ss_active_account_id := i\<rparr>)
          else if key = ''source_account_id'' then Some (st\<lparr>ss_source_account_id := i\<rparr>)
          else if key = ''target_account_id'' then Some (st\<lparr>ss_target_account_id := i\<rparr>)
          else if key = ''source_dataset_id'' then Some (st\<lparr>ss_source_dataset_id := i\<rparr>)
          else if key = ''migration_job_id'' then Some (st\<lparr>ss_migration_job_id := i\<rparr>)
          else None
      | SV_group g \<Rightarrow>
          if key = ''source_group'' then Some (st\<lparr>ss_source_group := g\<rparr>)
          else if key = ''target_group'' then Some (st\<lparr>ss_target_group := g\<rparr>)
          else None
      | SV_precheck p \<Rightarrow> if key = ''precheck'' then Some (st\<lparr>ss_precheck := p\<rparr>) else None
      | SV_summary p \<Rightarrow> if key = ''plan_summary'' then Some (st\<lparr>ss_plan_summary := p\<rparr>) else None)"

fun state_update :: "(string \<times> state_value) list \<Rightarrow> state_snapshot \<Rightarrow> unit res \<times> state_snapshot" where
  "state_update [] st = (Inr (), st)"
| "state_update ((key, v) # rest) st =
     (case set_field key v st of
        None \<Rightarrow> (Inl (AttributeError key), st)
      | Some st' \<Rightarrow> state_update rest st')"

definition set_phone_code_hash :: "int \<Rightarrow> string \<Rightarrow> state_snapshot \<Rightarrow> state_snapshot" where
  "set_phone_code_hash account_id h st = st\<lparr>ss_phone_code_hashes := dict_set account_id h (ss_phone_code_hashes st)\<rparr>"

definition pop_phone_code_hash :: "int \<Rightarrow> state_snapshot \<Rightarrow> string option \<times> state_snapshot" where
  "pop_phone_code_hash account_id st =
     (map_of (ss_phone_code_hashes st) account_id,
      st\<lparr>ss_phone_code_hashes := dict_pop account_id (ss_phone_code_hashes st)\<rparr>)"

lemma snapshot_id [simp]: "snapshot st = st"
  by (simp add: snapshot_def)

end
