(* ===== verification/Dataset_Store.thy ===== *)
theory Dataset_Store
  imports Member_Store
begin

text \<open>
  \<open>datasets/\<close>: the dataset repository, the three set engines, and \<open>DatasetService.combine\<close>, which
  builds a dataset from two others in one transaction.  The refinement lemma at the end compares
  the SQL of \<open>combine\<close> with the engines.
\<close>

section \<open>Repository (datasets/repository.py)\<close>

record dataset =
  ds_id :: "int option"
  ds_name :: string
  ds_source_type :: string
  ds_source_reference :: "string option"
  ds_status :: string
  ds_member_count :: int

definition row_dataset :: "dataset_row \<Rightarrow> dataset" where
  "row_dataset r =
     \<lparr>ds_id = Some (d_id r), ds_name = d_name r, ds_source_type = d_source_type r,
      ds_source_reference = d_source_reference r, ds_status = d_status r,
      ds_member_count = d_member_count r\<rparr>"

definition new_dataset_row :: "dataset \<Rightarrow> int \<Rightarrow> dataset_row" where
  "new_dataset_row ds i =
     \<lparr>d_id = i, d_name = ds_name ds, d_source_type = ds_source_type ds,
      d_source_reference = ds_source_reference ds, d_status = ds_status ds,
      d_member_count = ds_member_count ds\<rparr>"

definition dataset_create :: "dataset \<Rightarrow> int dbop" where
  "dataset_create ds = insert_dataset (new_dataset_row ds)"

definition dataset_get :: "int \<Rightarrow> db \<Rightarrow> dataset option" where
  "dataset_get dataset_id d = map_option row_dataset (find_row (\<lambda>r. d_id r = dataset_id) (t_datasets d))"

definition dataset_list_all :: "db \<Rightarrow> dataset list" where
  "dataset_list_all d = map row_dataset (rev (sort_key d_id (t_datasets d)))"

definition member_rows :: "int \<Rightarrow> db \<Rightarrow> member_row list" where
  "member_rows dataset_id d = dataset_member_rows dataset_id d"

section \<open>Set engines (datasets/*_engine.py)\<close>

definition union_engine :: "'a list \<Rightarrow> 'a list \<Rightarrow> 'a set" where
  "union_engine a b = set a \<union> set b"

definition intersection_engine :: "'a list \<Rightarrow> 'a list \<Rightarrow> 'a set" where
  "intersection_engine a b = set a \<inter> set b"

definition difference_engine :: "'a list \<Rightarrow> 'a list \<Rightarrow> 'a set" where
  "difference_engine a b = set a - set b"

section \<open>Combination (datasets/service.py)\<close>

definition member_ids_of :: "int \<Rightarrow> db \<Rightarrow> int list" where
  "member_ids_of dataset_id d =
     map dm_member_id (filter (\<lambda>r. dm_dataset_id r = dataset_id) (t_dataset_members d))"

text \<open>The three selections; \<open>GROUP BY member_id\<close> yields every member id once, in order.\<close>

definition union_ids :: "int \<Rightarrow> int \<Rightarrow> db \<Rightarrow> int list" where
  "union_ids a b d =
     sort (remdups (map dm_member_id
       (filter (\<lambda>r. dm_dataset_id r \<in> {a, b}) (t_dataset_members d))))"

definition intersection_ids :: "int \<Rightarrow> int \<Rightarrow> db \<Rightarrow> int list" where
  "intersection_ids a b d =
     filter (\<lambda>m. length (remdups (map dm_dataset_id
         (filter (\<lambda>r. dm_dataset_id r \<in> {a, b} \<and> dm_member_id r = m) (t_dataset_members d)))) = 2)
       (union_ids a b d)"

definition difference_ids :: "int \<Rightarrow> int \<Rightarrow> db \<Rightarrow> int list" where
  "difference_ids a b d = filter (\<lambda>m. m \<notin> set (member_ids_of b d)) (member_ids_of a d)"

definition combined_ids :: "string \<Rightarrow> int \<Rightarrow> int \<Rightarrow> db \<Rightarrow> int list" where
  "combined_ids op_name a b d =
     (if op_name = ''UNION'' then union_ids a b d
      else if op_name = ''INTERSECTION'' then intersection_ids a b d
      else difference_ids a b d)"

definition combine_label :: "string \<Rightarrow> int \<Rightarrow> int \<Rightarrow> string" where
  "combine_label op_name a b = op_name @ '' '' @ int_str a @ ''/'' @ int_str b"

definition combine_reference :: "string \<Rightarrow> int \<Rightarrow> int \<Rightarrow> string" where
  "combine_reference op_name a b = int_str a @ '':'' @ int_str b @ '':'' @ op_name"

definition add_provenance :: "int \<Rightarrow> int \<times> string \<Rightarrow> unit dbop" where
  "add_provenance new_id src =
     dbind (dselect (member_ids_of (fst src))) (\<lambda>ms.
       dfold insert_provenance_or_ignore
         (map (\<lambda>m. \<lparr>dp_dataset_id = new_id, dp_member_id = m, dp_source_dataset_id = Some (fst src),
                    dp_source_group_id = None, dp_source_label = Some (snd src)\<rparr>) ms))"

definition combine_tx :: "string \<Rightarrow> int \<Rightarrow> int \<Rightarrow> string \<Rightarrow> int dbop" where
  "combine_tx name a b op_name =
     dbind (insert_dataset (\<lambda>i. \<lparr>d_id = i, d_name = (if name = [] then combine_label op_name a b else name),
              d_source_type = ''MERGED'', d_source_reference = Some (combine_reference op_name a b),
              d_status = ''READY'', d_member_count = 0\<rparr>)) (\<lambda>new_id.
     dbind (dselect (combined_ids op_name a b)) (\<lambda>ids.
     dbind (dfold (\<lambda>r. ignore_result (insert_dataset_member_or_ignore r))
              (map (\<lambda>m. \<lparr>dm_dataset_id = new_id, dm_member_id = m, dm_source_group_id = None\<rparr>) ids)) (\<lambda>_.
     dbind (dfold (add_provenance new_id) [(a, ''A''), (b, ''B'')]) (\<lambda>_.
     dbind (update_datasets (\<lambda>r. d_id r = new_id) (\<lambda>d r. r\<lparr>d_member_count := int (length ids)\<rparr>)) (\<lambda>_.
       dreturn new_id)))))"

definition combine :: "string \<Rightarrow> int \<Rightarrow> int \<Rightarrow> string \<Rightarrow> int dbop" where
  "combine name a b operation =
     (let op_name = py_upper operation in
      if op_name \<notin> {''UNION'', ''INTERSECTION'', ''DIFFERENCE''}
      then draise (ValueError ''Operation must be UNION, INTERSECTION or DIFFERENCE'')
      else combine_tx name a b op_name)"

section \<open>The selections against the engines\<close>

lemma set_union_ids: "set (union_ids a b d) = union_engine (member_ids_of a d) (member_ids_of b d)"
  by (auto simp: union_ids_def union_engine_def member_ids_of_def)

lemma two_values: "length (remdups xs) = 2 \<longleftrightarrow> card (set xs) = 2"
  by (simp add: length_remdups_card_conv)

lemma set_intersection_ids:
  "set (intersection_ids a b d) =
     (if a = b then {} else intersection_engine (member_ids_of a d) (member_ids_of b d))"
proof -
  have "card (dm_dataset_id ` {r \<in> set (t_dataset_members d). (dm_dataset_id r = a \<or> dm_dataset_id r = b) \<and> dm_member_id r = m}) = 2
      \<longleftrightarrow> a \<noteq> b \<and> m \<in> set (member_ids_of a d) \<and> m \<in> set (member_ids_of b d)" (is "card ?S = 2 \<longleftrightarrow> _") for m
  proof -
    have S: "?S = {x \<in> {a, b}. m \<in> set (member_ids_of x d)}" by (auto simp: member_ids_of_def image_iff)
    show ?thesis unfolding S
      by (cases "m \<in> set (member_ids_of a d)"; cases "m \<in> set (member_ids_of b d)"; cases "a = b")
        (auto simp: Collect_conv_if conj_disj_distribR Collect_disj_eq)
  qed
  then show ?thesis
    using set_union_ids [of a b d]
    by (auto simp: intersection_ids_def two_values union_engine_def intersection_engine_def)
qed

lemma set_difference_ids: "set (difference_ids a b d) = difference_engine (member_ids_of a d) (member_ids_of b d)"
  by (auto simp: difference_ids_def difference_engine_def)

lemma distinct_member_ids_of: "db_wf d \<Longrightarrow> distinct (member_ids_of s d)"
proof -
  have "distinct (map (\<lambda>r. (dm_dataset_id r, dm_member_id r)) rows) \<Longrightarrow>
      distinct (map dm_member_id (filter (\<lambda>r. dm_dataset_id r = s) rows))" for rows :: "dataset_member_row list"
    by (induction rows) (auto simp: image_iff)
  then show "db_wf d \<Longrightarrow> distinct (member_ids_of s d)" by (simp add: member_ids_of_def db_wf_def dmembers_wf_def)
qed

lemma combined_ids_facts:
  assumes "db_wf d"
  shows "distinct (combined_ids op_name a b d)" "set (combined_ids op_name a b d) \<subseteq> member_ids d"
proof -
  show "distinct (combined_ids op_name a b d)"
    using distinct_member_ids_of [OF assms]
    by (simp add: combined_ids_def union_ids_def intersection_ids_def difference_ids_def)
  have "set (member_ids_of s d) \<subseteq> member_ids d" for s
    using assms by (auto simp: member_ids_of_def db_wf_def dmembers_wf_def)
  then show "set (combined_ids op_name a b d) \<subseteq> member_ids d"
    by (auto simp: combined_ids_def set_union_ids union_engine_def set_intersection_ids
        intersection_engine_def set_difference_ids difference_engine_def split: if_splits)
qed

section \<open>The transaction\<close>

lemma member_ids_of_memberships: "set (member_ids_of s d) = {m. (s, m) \<in> memberships d}"
  by (auto simp: member_ids_of_def membership_def image_iff)

lemma combine_tx_wf [wf_intros]: "keeps_wf (combine_tx n a b op_name)"
proof -
  have "keeps_wf (add_provenance i src)" for i src
    unfolding add_provenance_def by (intro wf_intros)
  moreover have "keeps_wf (update_datasets p (\<lambda>d r. r\<lparr>d_member_count := k\<rparr>))" for p k
    by (rule update_datasets_wf) simp
  ultimately show ?thesis
    unfolding combine_tx_def ignore_result_def by (intro wf_intros) simp_all
qed

lemma dm_refs:
  "db_wf d \<Longrightarrow> r \<in> set (t_dataset_members d) \<Longrightarrow> dm_dataset_id r \<in> dataset_ids d \<and> dm_member_id r \<in> member_ids d"
  by (simp add: db_wf_def dmembers_wf_def)

lemma add_provenance_ok:
  assumes "db_wf d" "i \<in> dataset_ids d"
  shows "\<exists>X. add_provenance i src d = Inr ((), d\<lparr>t_dataset_provenance := X\<rparr>)"
proof -
  let ?ps = "map (\<lambda>m. \<lparr>dp_dataset_id = i, dp_member_id = m, dp_source_dataset_id = Some (fst src),
      dp_source_group_id = None, dp_source_label = Some (snd src)\<rparr>) (member_ids_of (fst src) d)"
  have "m \<in> member_ids d \<and> fst src \<in> dataset_ids d" if m: "m \<in> set (member_ids_of (fst src) d)" for m
  proof -
    obtain r where "r \<in> set (t_dataset_members d)" "dm_dataset_id r = fst src" "dm_member_id r = m"
      using m by (auto simp: member_ids_of_def)
    with dm_refs [OF assms(1)] show ?thesis by metis
  qed
  then have "\<forall>r \<in> set ?ps. dp_dataset_id r \<in> dataset_ids d \<and> dp_member_id r \<in> member_ids d \<and>
      fk_opt (dataset_ids d) (dp_source_dataset_id r) \<and> fk_opt (group_ids d) (dp_source_group_id r)"
    using assms(2) by auto
  from insert_provenances [OF this] show ?thesis by (auto simp: add_provenance_def)
qed

lemma combine_tx_effect:
  assumes "db_wf d"
  shows "\<exists>i d'. combine_tx n a b op_name d = Inr (i, d') \<and> i \<notin> dataset_ids d \<and>
    memberships d' = memberships d \<union> Pair i ` set (combined_ids op_name a b d) \<and>
    map_option ds_member_count (dataset_get i d') = Some (int (length (combined_ids op_name a b d))) \<and>
    map_option ds_status (dataset_get i d') = Some ''READY''"
proof -
  let ?mk = "\<lambda>i. \<lparr>d_id = i, d_name = (if n = [] then combine_label op_name a b else n),
      d_source_type = ''MERGED'', d_source_reference = Some (combine_reference op_name a b),
      d_status = ''READY'', d_member_count = 0\<rparr>"
  let ?i = "seq_datasets d + 1"
  let ?d1 = "d\<lparr>t_datasets := t_datasets d @ [?mk ?i], seq_datasets := ?i\<rparr>"
  have ins: "insert_dataset ?mk d = Inr (?i, ?d1)" by (simp add: insert_dataset_def Let_def)
  have wf1: "db_wf ?d1" by (rule keeps_wfD [OF insert_dataset_wf assms ins])
  have fresh: "?i \<notin> dataset_ids d"
    using assms by (force simp: db_wf_def datasets_wf_def ids_ok_def)
  have ids: "combined_ids op_name a b ?d1 = combined_ids op_name a b d"
    by (simp add: combined_ids_def union_ids_def intersection_ids_def difference_ids_def member_ids_of_def)
  let ?rows = "map (\<lambda>m. \<lparr>dm_dataset_id = ?i, dm_member_id = m, dm_source_group_id = None\<rparr>) (combined_ids op_name a b d)"
  obtain X where X: "dfold (\<lambda>r. ignore_result (insert_dataset_member_or_ignore r)) ?rows ?d1 = Inr ((), ?d1\<lparr>t_dataset_members := X\<rparr>)"
      "membership ` set X = memberships d \<union> membership ` set ?rows"
  proof -
    have "\<forall>r \<in> set ?rows. dm_dataset_id r \<in> dataset_ids ?d1 \<and> dm_member_id r \<in> member_ids ?d1 \<and>
        fk_opt (group_ids ?d1) (dm_source_group_id r)"
      using combined_ids_facts(2) [OF assms, of op_name a b] by auto
    from insert_memberships [OF this] show thesis using that by auto
  qed
  let ?d2 = "?d1\<lparr>t_dataset_members := X\<rparr>"
  have dm: "keeps_wf (dfold (\<lambda>r. ignore_result (insert_dataset_member_or_ignore r)) ?rows)"
    unfolding ignore_result_def by (intro wf_intros)
  have wf2: "db_wf ?d2" by (rule keeps_wfD [OF dm wf1 X(1)])
  obtain Y where Y: "add_provenance ?i (a, ''A'') ?d2 = Inr ((), ?d2\<lparr>t_dataset_provenance := Y\<rparr>)"
    using add_provenance_ok [OF wf2] by fastforce
  let ?d3 = "?d2\<lparr>t_dataset_provenance := Y\<rparr>"
  have pw: "keeps_wf (add_provenance ?i (a, ''A''))"
    unfolding add_provenance_def by (intro wf_intros)
  have wf3: "db_wf ?d3" by (rule keeps_wfD [OF pw wf2 Y])
  obtain Z where Z: "add_provenance ?i (b, ''B'') ?d3 = Inr ((), ?d3\<lparr>t_dataset_provenance := Z\<rparr>)"
    using add_provenance_ok [OF wf3] by fastforce
  let ?f = "\<lambda>r. r\<lparr>d_member_count := int (length (combined_ids op_name a b d))\<rparr>"
  let ?d5 = "?d3\<lparr>t_dataset_provenance := Z, t_datasets := update_where (\<lambda>r. d_id r = ?i) ?f (t_datasets ?d3)\<rparr>"
  have run: "combine_tx n a b op_name d = Inr (?i, ?d5)"
    using ins ids X(1) Y Z by (simp add: combine_tx_def dbind_def update_datasets_def)
  have rows: "membership ` set ?rows = Pair ?i ` set (combined_ids op_name a b d)" by (simp add: image_image)
  have "find_row (\<lambda>r. d_id r = ?i) (t_datasets d) = None"
    using fresh by (auto simp: find_row_None_iff image_iff)
  then have "map_option ds_member_count (dataset_get ?i ?d5) = Some (int (length (combined_ids op_name a b d)))"
    "map_option ds_status (dataset_get ?i ?d5) = Some ''READY''"
    by (simp_all add: dataset_get_def find_row_update_where find_row_append row_dataset_def)
  moreover have "memberships ?d5 = memberships d \<union> Pair ?i ` set (combined_ids op_name a b d)"
    using X(2) rows by simp
  ultimately show ?thesis using run fresh by blast
qed

text \<open>
  C20. Combining two datasets computes the set operation of its engine, in any letter case of the
  operation name: the members of the new dataset are the union, intersection or difference of the
  members of the two, it is READY, its stored count is their number, and the other datasets keep their members;
  an unknown operation is refused.  The one exception is visible in the statement: the intersection
  of a dataset with itself comes out empty.
\<close>

theorem combine_refines_engines:
  assumes "db_wf d"
  shows "if py_upper operation \<notin> {''UNION'', ''INTERSECTION'', ''DIFFERENCE''}
    then \<exists>e. combine name a b operation d = Inl e
    else \<exists>i d'. combine name a b operation d = Inr (i, d') \<and> db_wf d' \<and> i \<notin> dataset_ids d \<and>
      set (member_ids_of i d') =
        (if py_upper operation = ''UNION'' then union_engine (member_ids_of a d) (member_ids_of b d)
         else if py_upper operation = ''DIFFERENCE'' then difference_engine (member_ids_of a d) (member_ids_of b d)
         else if a = b then {} else intersection_engine (member_ids_of a d) (member_ids_of b d)) \<and>
      map_option ds_status (dataset_get i d') = Some ''READY'' \<and>
      map_option ds_member_count (dataset_get i d') = Some (int (card (set (member_ids_of i d')))) \<and>
      (\<forall>s. s \<noteq> i \<longrightarrow> set (member_ids_of s d') = set (member_ids_of s d))"
proof (cases "py_upper operation \<in> {''UNION'', ''INTERSECTION'', ''DIFFERENCE''}")
  case True
  let ?op = "py_upper operation"
  obtain i d' where run: "combine_tx name a b ?op d = Inr (i, d')" and fresh: "i \<notin> dataset_ids d"
      and ms: "memberships d' = memberships d \<union> Pair i ` set (combined_ids ?op a b d)"
      and count: "map_option ds_member_count (dataset_get i d') = Some (int (length (combined_ids ?op a b d)))"
      and status: "map_option ds_status (dataset_get i d') = Some ''READY''"
    using combine_tx_effect [OF assms, of name a b ?op] by (elim exE conjE) (rule that)
  have "(i, m) \<notin> memberships d" for m
    using dm_refs [OF assms] fresh by (auto simp: membership_def)
  then have new: "set (member_ids_of i d') = set (combined_ids ?op a b d)"
    unfolding member_ids_of_memberships ms by auto
  have others: "set (member_ids_of s d') = set (member_ids_of s d)" if "s \<noteq> i" for s
    unfolding member_ids_of_memberships ms using that by auto
  have ids: "set (combined_ids ?op a b d) =
        (if ?op = ''UNION'' then union_engine (member_ids_of a d) (member_ids_of b d)
         else if ?op = ''DIFFERENCE'' then difference_engine (member_ids_of a d) (member_ids_of b d)
         else if a = b then {} else intersection_engine (member_ids_of a d) (member_ids_of b d))"
    using True set_intersection_ids [of a b d] by (auto simp: combined_ids_def set_union_ids set_difference_ids)
  have card: "card (set (combined_ids ?op a b d)) = length (combined_ids ?op a b d)"
    using combined_ids_facts(1) [OF assms] by (simp add: distinct_card)
  have wf: "db_wf d'" by (rule keeps_wfD [OF combine_tx_wf assms run])
  have out: "combine name a b operation d = Inr (i, d')" using True run by (simp add: combine_def Let_def)
  have stored: "map_option ds_member_count (dataset_get i d') = Some (int (card (set (member_ids_of i d'))))"
    using count card new by simp
  from True have known: "\<not> ?op \<notin> {''UNION'', ''INTERSECTION'', ''DIFFERENCE''}" by simp
  show ?thesis
    unfolding if_not_P [OF known] using out wf fresh status stored others new [unfolded ids] by blast
next
  case False
  then show ?thesis by (auto simp: combine_def Let_def)
qed

theorem combine_refines_engines_witness:
  "\<exists>i d'. combine ''x'' 1 1 ''union'' sample_db = Inr (i, d') \<and>
     set (member_ids_of i d') = union_engine (member_ids_of 1 sample_db) (member_ids_of 1 sample_db)"
proof -
  have "py_upper ''union'' = ''UNION''" by code_simp
  with combine_refines_engines [OF sample_db_wf, of "''union''" "''x''" 1 1] show ?thesis by auto
qed

end
