(* ===== verification/Import_Export.thy ===== *)
theory Import_Export
  imports Job_Store Member_Store Dataset_Store
begin

text \<open>
  \<open>import_export/service.py\<close>: datasets from and to files, and the reports of a job.  The \<open>csv\<close> and
  \<open>openpyxl\<close> readers and writers are outside: a file that is read is the list of its rows as
  dictionaries from header to cell, or the exception of the reader, and a file that is written is
  the list of its rows of cells.
\<close>

section \<open>Cells and paths\<close>

datatype cell = CNone | CInt int | CText string

fun cell_truthy :: "cell \<Rightarrow> bool" where
  "cell_truthy CNone = False"
| "cell_truthy (CInt i) = (i \<noteq> 0)"
| "cell_truthy (CText t) = (t \<noteq> [])"

fun cell_str :: "cell \<Rightarrow> string" where
  "cell_str CNone = ''None''"
| "cell_str (CInt i) = int_str i"
| "cell_str (CText t) = t"

text \<open>\<open>a or b\<close>, and \<open>str(a or '') \<close>.\<close>

definition cell_or :: "cell \<Rightarrow> cell \<Rightarrow> cell" where
  "cell_or a b = (if cell_truthy a then a else b)"

definition or_text :: "cell \<Rightarrow> string" where
  "or_text a = (if cell_truthy a then cell_str a else [])"

definition none_if_empty :: "string \<Rightarrow> string option" where
  "none_if_empty t = (if t = [] then None else Some t)"

definition get_cell :: "(string \<times> cell) list \<Rightarrow> string \<Rightarrow> cell" where
  "get_cell row key = (case map_of row key of None \<Rightarrow> CNone | Some c \<Rightarrow> c)"

text \<open>\<open>int(text)\<close>: an optional sign and digits, with single underscores between digits.\<close>

definition digit_value :: "char \<Rightarrow> nat option" where
  "digit_value c = (let n = (of_char c :: nat) in if 48 \<le> n \<and> n \<le> 57 then Some (n - 48) else None)"

fun parse_digits :: "nat \<Rightarrow> string \<Rightarrow> nat option" where
  "parse_digits acc [] = Some acc"
| "parse_digits acc (c # cs) =
     (case digit_value c of
        Some v \<Rightarrow> parse_digits (10 * acc + v) cs
      | None \<Rightarrow>
          (case cs of
             [] \<Rightarrow> None
           | c' # cs' \<Rightarrow>
               if c = CHR ''_''
               then (case digit_value c' of Some v \<Rightarrow> parse_digits (10 * acc + v) cs' | None \<Rightarrow> None)
               else None))"

definition parse_nat :: "string \<Rightarrow> nat option" where
  "parse_nat t =
     (case t of [] \<Rightarrow> None | c # cs \<Rightarrow> (case digit_value c of None \<Rightarrow> None | Some v \<Rightarrow> parse_digits v cs))"

definition parse_int :: "string \<Rightarrow> int option" where
  "parse_int t =
     (case t of
        [] \<Rightarrow> None
      | c # cs \<Rightarrow>
          if c = CHR ''-'' then map_option (\<lambda>n. - int n) (parse_nat cs)
          else if c = CHR ''+'' then map_option int (parse_nat cs)
          else map_option int (parse_nat t))"

definition ie_int :: "cell \<Rightarrow> int option" where
  "ie_int v = (if v = CNone \<or> v = CText [] then None else parse_int (py_strip (cell_str v)))"

text \<open>\<open>Path.name\<close>, \<open>Path.suffix\<close> and \<open>Path.stem\<close>.\<close>

definition path_name :: "string \<Rightarrow> string" where
  "path_name p = rev (takeWhile (\<lambda>c. c \<noteq> CHR ''/'') (rev p))"

definition path_suffix :: "string \<Rightarrow> string" where
  "path_suffix p =
     (let nm = path_name p;
          ext = rev (takeWhile (\<lambda>c. c \<noteq> CHR ''.'') (rev nm))
      in if length ext + 1 < length nm \<and> ext \<noteq> [] then CHR ''.'' # ext else [])"

definition path_stem :: "string \<Rightarrow> string" where
  "path_stem p = (let nm = path_name p in take (length nm - length (path_suffix p)) nm)"

section \<open>Import\<close>

definition import_member :: "(string \<times> cell) list \<Rightarrow> member option" where
  "import_member r =
     (let uid = ie_int (cell_or (get_cell r ''user_id'') (get_cell r ''telegram_user_id''));
          username = none_if_empty (py_lstrip_char (CHR ''@'') (py_strip (or_text (get_cell r ''username''))));
          access = ie_int (get_cell r ''access_hash'')
      in if uid = None \<and> \<not> truthy_str username then None
         else Some \<lparr>mb_telegram_user_id = uid, mb_username = username,
           mb_first_name = none_if_empty (or_text (get_cell r ''first_name'')),
           mb_last_name = none_if_empty (or_text (get_cell r ''last_name'')),
           mb_phone = none_if_empty (or_text (get_cell r ''phone'')), mb_bot = False, mb_deleted = False,
           mb_activity_status = None, mb_last_seen = None, mb_access_hash = access\<rparr>)"

definition import_rows :: "(string \<times> cell) list list \<Rightarrow> member list \<times> int" where
  "import_rows data =
     (List.map_filter import_member data, int (length (filter (\<lambda>r. import_member r = None) data)))"

definition import_file :: "string \<Rightarrow> (exn + (string \<times> cell) list list) \<Rightarrow> (string \<times> cell) list list dbprog" where
  "import_file path reader =
     (if py_lower (path_suffix path) \<in> {''.csv'', ''.xlsx''}
      then (case reader of Inl e \<Rightarrow> praise e | Inr data \<Rightarrow> preturn data)
      else praise (ValueError ''Only CSV/XLSX are supported''))"

definition import_dataset ::
  "(exn + (string \<times> cell) list list) \<Rightarrow> string \<Rightarrow> string \<Rightarrow> int option \<Rightarrow> (int \<times> int) dbprog" where
  "import_dataset reader path name account_id =
     pbind (transact (dataset_create \<lparr>ds_id = None, ds_name = (if name = [] then path_stem path else name),
              ds_source_type = ''FILE'', ds_source_reference = Some path, ds_status = ''READY'', ds_member_count = 0\<rparr>)) (\<lambda>dataset_id.
     pbind (transact (job_create \<lparr>jb_job_type = JT_IMPORT, jb_state = JS_RUNNING, jb_account_id = account_id,
              jb_source_dataset_id = Some dataset_id, jb_target_group_id = None, jb_total = 0\<rparr>)) (\<lambda>job_id.
     pbind (import_file path reader) (\<lambda>data.
     case import_rows data of (rows, invalid) \<Rightarrow>
     pbind (transact (submit_ingest_batch dataset_id rows None account_id (Some (path_name path)))) (\<lambda>summary.
     pbind (transact (submit_set_state job_id
              (if invalid + is_invalid summary \<noteq> 0 then JS_COMPLETED_WITH_ERRORS else JS_COMPLETED) None None False)) (\<lambda>_.
       preturn (dataset_id, job_id))))))"

section \<open>Export\<close>

definition opt_int :: "int option \<Rightarrow> cell" where
  "opt_int v = (case v of None \<Rightarrow> CNone | Some i \<Rightarrow> CInt i)"

definition opt_text :: "string option \<Rightarrow> cell" where
  "opt_text v = (case v of None \<Rightarrow> CNone | Some t \<Rightarrow> CText t)"

definition flag_cell :: "bool \<Rightarrow> cell" where
  "flag_cell b = CInt (if b then 1 else 0)"

definition export_headers :: "string list" where
  "export_headers =
     [''user_id'', ''access_hash'', ''username'', ''first_name'', ''last_name'', ''phone'', ''bot'', ''deleted'',
      ''activity_status'', ''last_seen'']"

definition row_values :: "int option \<Rightarrow> db \<Rightarrow> member \<Rightarrow> cell list" where
  "row_values account_id d m =
     [opt_int (mb_telegram_user_id m),
      (case account_id of None \<Rightarrow> CNone | Some a \<Rightarrow> opt_int (cached_hash a (mb_telegram_user_id m) d)),
      opt_text (mb_username m), opt_text (mb_first_name m), opt_text (mb_last_name m), opt_text (mb_phone m),
      flag_cell (mb_bot m), flag_cell (mb_deleted m), opt_text (mb_activity_status m), opt_text (mb_last_seen m)]"

type_synonym written_file = "cell list list"

text \<open>
  The rows of the file; the chunks are read from the database one by one, and \<open>fault\<close> is what the
  file system may raise.
\<close>

definition export_dataset :: "exn option \<Rightarrow> int \<Rightarrow> int option \<Rightarrow> (int \<times> written_file) dbprog" where
  "export_dataset fault dataset_id account_id =
     pbind (transact (job_create \<lparr>jb_job_type = JT_EXPORT, jb_state = JS_RUNNING, jb_account_id = account_id,
              jb_source_dataset_id = Some dataset_id, jb_target_group_id = None, jb_total = 0\<rparr>)) (\<lambda>job_id.
     pbind (case fault of Some e \<Rightarrow> praise e | None \<Rightarrow>
              pselect (\<lambda>d. map CText export_headers #
                map (row_values account_id d) (concat (iter_dataset_rows dataset_id 2000 d)))) (\<lambda>file.
     pbind (transact (submit_set_state job_id JS_COMPLETED None None False)) (\<lambda>_.
       preturn (job_id, file))))"

fun item_state_str :: "item_state \<Rightarrow> string" where
  "item_state_str IS_READY = ''READY''"
| "item_state_str IS_RETRY = ''RETRY''"
| "item_state_str IS_SUCCESS = ''SUCCESS''"
| "item_state_str IS_SKIPPED = ''SKIPPED''"
| "item_state_str IS_FAILED = ''FAILED''"

definition result_row :: "db \<Rightarrow> item_row \<Rightarrow> cell list option" where
  "result_row d mi =
     map_option (\<lambda>m. [CInt (i_ordinal mi), opt_int (m_telegram_user_id m), opt_text (m_username m),
        CText (item_state_str (i_state mi)), CInt (i_attempt_count mi), opt_text (i_last_error_code mi),
        opt_text (i_last_error_text mi)])
       (find_row (\<lambda>m. m_id m = i_member_id mi) (t_members d))"

definition export_job_results :: "int \<Rightarrow> db \<Rightarrow> written_file" where
  "export_job_results job_id d =
     map CText [''ordinal'', ''telegram_user_id'', ''username'', ''state'', ''attempt_count'', ''error_code'', ''error_text''] #
     List.map_filter (result_row d)
       (sort_key i_ordinal (filter (\<lambda>mi. i_job_id mi = job_id) (t_migration_items d)))"

definition event_cells :: "event_row \<Rightarrow> cell list" where
  "event_cells e =
     [CText (ev_timestamp e), CText (ev_level e), CText (ev_event_code e), opt_int (ev_member_id e), opt_text (ev_message e)]"

definition export_job_log :: "int \<Rightarrow> db \<Rightarrow> written_file" where
  "export_job_log job_id d =
     map CText [''timestamp'', ''level'', ''event_code'', ''member_id'', ''message''] #
     map event_cells (sort_key ev_id (filter (\<lambda>e. ev_job_id e = job_id) (t_job_events d)))"

end
