(* ===== verification/Keyed_Store.thy ===== *)
theory Keyed_Store
  imports Prelude
begin

text \<open>
  The contract the caches and registries of the program share: a store in which a write to a key is
  what the next read of that key returns and no other key is affected.  The clients write lists of
  entries one by one; the locale proves once what a read returns afterwards.
\<close>

locale keyed_store =
  fixes get :: "'k \<Rightarrow> 's \<Rightarrow> 'v option"
    and put :: "'k \<Rightarrow> 'v \<Rightarrow> 's \<Rightarrow> 's"
  assumes get_put: "get k (put k' v s) = (if k = k' then Some v else get k s)"
begin

definition put_all :: "('k \<times> 'v) list \<Rightarrow> 's \<Rightarrow> 's" where
  "put_all kvs s = fold (\<lambda>(k, v). put k v) kvs s"

lemma put_all_simps [simp]: "put_all [] s = s" "put_all (kv # kvs) s = put_all kvs (put (fst kv) (snd kv) s)"
  by (simp_all add: put_all_def split_beta)

lemma get_put_all:
  "get k (put_all kvs s) = (case map_of (rev kvs) k of None \<Rightarrow> get k s | Some v \<Rightarrow> Some v)"
proof (induction kvs arbitrary: s)
  case (Cons kv kvs)
  then show ?case
    by (cases kv) (auto simp: get_put map_add_def split: option.splits)
qed simp

lemma get_put_all_in:
  assumes "k \<in> fst ` set kvs"
  shows "\<exists>v. (k, v) \<in> set kvs \<and> get k (put_all kvs s) = Some v"
proof -
  have "map_of (rev kvs) k \<noteq> None" using assms by (simp add: map_of_eq_None_iff)
  then obtain v where v: "map_of (rev kvs) k = Some v" by blast
  then have "(k, v) \<in> set kvs" using map_of_SomeD by fastforce
  with v show ?thesis by (auto simp: get_put_all)
qed

lemma get_put_all_out: "k \<notin> fst ` set kvs \<Longrightarrow> get k (put_all kvs s) = get k s"
proof -
  assume "k \<notin> fst ` set kvs"
  then have "map_of (rev kvs) k = None" by (simp add: map_of_eq_None_iff)
  then show ?thesis by (simp add: get_put_all)
qed

lemma put_commute_get: "k \<noteq> k' \<Longrightarrow> get x (put k v (put k' v' s)) = get x (put k' v' (put k v s))"
  by (simp add: get_put)

end

text \<open>A Python dictionary is such a store.\<close>

interpretation dict: keyed_store "\<lambda>k d. map_of d k" dict_set
  by unfold_locales simp

end
