(* ===== verification/Peer_Cache.thy ===== *)
theory Peer_Cache
  imports Job_Store Keyed_Store
begin

text \<open>
  \<open>telegram/peer_cache.py\<close>: the access hashes an account has seen, in memory first and in the table
  \<open>peer_cache\<close> behind it.  An access hash is only valid for the account that received it, so every
  key carries the account.
\<close>

section \<open>The cache\<close>

record cached_peer =
  cp_account_id :: int
  cp_peer_id :: int
  cp_peer_type :: string
  cp_access_hash :: "int option"
  cp_username :: "string option"
  cp_title :: "string option"

type_synonym peer_memory = "((int \<times> int) \<times> cached_peer) list"

definition peer_key :: "cached_peer \<Rightarrow> int \<times> int" where
  "peer_key p = (cp_account_id p, cp_peer_id p)"

definition put_memory :: "cached_peer \<Rightarrow> peer_memory \<Rightarrow> peer_memory" where
  "put_memory p mem = dict_set (peer_key p) p mem"

definition get_memory :: "int \<Rightarrow> int \<Rightarrow> peer_memory \<Rightarrow> cached_peer option" where
  "get_memory account_id peer_id mem = map_of mem (account_id, peer_id)"

definition cached_row :: "cached_peer \<Rightarrow> peer_row" where
  "cached_row p =
     \<lparr>p_account_id = cp_account_id p, p_peer_id = cp_peer_id p, p_peer_type = cp_peer_type p,
      p_access_hash = cp_access_hash p, p_username = cp_username p, p_title = cp_title p\<rparr>"

definition persist_peer :: "cached_peer \<Rightarrow> unit dbop" where
  "persist_peer p =
     upsert_peer (cached_row p) (\<lambda>x. x\<lparr>p_peer_type := cp_peer_type p, p_access_hash := cp_access_hash p,
       p_username := cp_username p, p_title := cp_title p\<rparr>)"

definition persist_op :: "cached_peer list \<Rightarrow> int dbop" where
  "persist_op peers =
     (if peers = [] then dreturn 0
      else dbind (dfold persist_peer peers) (\<lambda>_. dreturn (int (length peers))))"

text \<open>Memory is written at once; the returned operation is what the writer will run.\<close>

definition submit_persist_many :: "cached_peer list \<Rightarrow> peer_memory \<Rightarrow> int dbop \<times> peer_memory" where
  "submit_persist_many peers mem = (persist_op peers, fold put_memory peers mem)"

definition peer_put :: "cached_peer \<Rightarrow> bool \<Rightarrow> peer_memory \<Rightarrow> int dbop option \<times> peer_memory" where
  "peer_put p persist mem =
     (let mem1 = put_memory p mem in
      if \<not> persist then (None, mem1)
      else let (f, mem2) = submit_persist_many [p] mem1 in (Some f, mem2))"

definition row_cached :: "int \<Rightarrow> peer_row \<Rightarrow> cached_peer" where
  "row_cached account_id r =
     \<lparr>cp_account_id = account_id, cp_peer_id = p_peer_id r, cp_peer_type = p_peer_type r,
      cp_access_hash = p_access_hash r, cp_username = p_username r, cp_title = p_title r\<rparr>"

definition peer_get :: "int \<Rightarrow> int \<Rightarrow> bool \<Rightarrow> db \<Rightarrow> peer_memory \<Rightarrow> cached_peer option \<times> peer_memory" where
  "peer_get account_id peer_id allow_db d mem =
     (let cached = get_memory account_id peer_id mem in
      if cached \<noteq> None \<or> \<not> allow_db then (cached, mem)
      else
        (case find_row (\<lambda>r. p_account_id r = account_id \<and> p_peer_id r = peer_id) (t_peer_cache d) of
           None \<Rightarrow> (None, mem)
         | Some row \<Rightarrow> let peer = row_cached account_id row in (Some peer, put_memory peer mem)))"

definition select_peers :: "int \<Rightarrow> int list \<Rightarrow> db \<Rightarrow> cached_peer list" where
  "select_peers account_id chunk d =
     map (row_cached account_id)
       (filter (\<lambda>r. p_account_id r = account_id \<and> p_peer_id r \<in> set chunk) (t_peer_cache d))"

function chunks :: "nat \<Rightarrow> 'a list \<Rightarrow> 'a list list" where
  "chunks n xs = (if xs = [] \<or> n = 0 then [] else take n xs # chunks n (drop n xs))"
  by pat_completeness auto

termination by (relation "measure (\<lambda>(n, xs). length xs)") auto

declare chunks.simps [simp del]

text \<open>
  The first loop of \<open>warm\<close> splits the ids into known and missing ones, the second reads the missing
  ones in chunks of five hundred.
\<close>

definition known_peers :: "int \<Rightarrow> int list \<Rightarrow> peer_memory \<Rightarrow> (int \<times> cached_peer) list" where
  "known_peers account_id ids mem =
     fold (\<lambda>i res. case get_memory account_id i mem of None \<Rightarrow> res | Some p \<Rightarrow> dict_set i p res) ids []"

definition missing_peers :: "int \<Rightarrow> int list \<Rightarrow> peer_memory \<Rightarrow> int list" where
  "missing_peers account_id ids mem = filter (\<lambda>i. get_memory account_id i mem = None) ids"

definition load_peer :: "cached_peer \<Rightarrow> (int \<times> cached_peer) list \<times> peer_memory \<Rightarrow> (int \<times> cached_peer) list \<times> peer_memory" where
  "load_peer p acc = (dict_set (cp_peer_id p) p (fst acc), put_memory p (snd acc))"

definition warm :: "int \<Rightarrow> int list \<Rightarrow> db \<Rightarrow> peer_memory \<Rightarrow> (int \<times> cached_peer) list \<times> peer_memory" where
  "warm account_id peer_ids d mem =
     (if peer_ids = [] then ([], mem)
      else fold (\<lambda>chunk. fold load_peer (select_peers account_id chunk d))
             (chunks 500 (missing_peers account_id peer_ids mem)) (known_peers account_id peer_ids mem, mem))"

section \<open>Lemmas\<close>

interpretation peers: keyed_store "\<lambda>k mem. get_memory (fst k) (snd k) mem" "\<lambda>k p mem. dict_set k p mem"
  by unfold_locales (auto simp: get_memory_def)

lemma get_put_memory [simp]:
  "get_memory a i (put_memory p mem) = (if (a, i) = peer_key p then Some p else get_memory a i mem)"
  using peers.get_put [of "(a, i)" "peer_key p" p mem] by (simp add: put_memory_def)

lemma fold_put_memory: "fold put_memory ps mem = peers.put_all (map (\<lambda>p. (peer_key p, p)) ps) mem"
  by (induction ps arbitrary: mem) (simp_all add: put_memory_def)

lemma concat_chunks: "0 < n \<Longrightarrow> concat (chunks n xs) = xs"
proof (induction n xs rule: chunks.induct)
  case (1 n xs)
  then show ?case by (subst chunks.simps) auto
qed

text \<open>Every entry is stored under the key of its own account and id.\<close>

definition memory_ok :: "peer_memory \<Rightarrow> bool" where
  "memory_ok mem = (\<forall>a i p. get_memory a i mem = Some p \<longrightarrow> peer_key p = (a, i))"

lemma memory_ok_empty: "memory_ok []"
  by (simp add: memory_ok_def get_memory_def)

lemma memory_ok_put: "memory_ok mem \<Longrightarrow> memory_ok (put_memory p mem)"
  by (simp add: memory_ok_def)

lemma memory_ok_fold: "memory_ok mem \<Longrightarrow> memory_ok (fold put_memory ps mem)"
  by (induction ps arbitrary: mem) (simp_all add: memory_ok_put)

lemma persist_peer_wf [wf_intros]: "keeps_wf (persist_peer p)"
  unfolding persist_peer_def by (rule upsert_peer_wf)

lemma persist_op_wf [wf_intros]: "keeps_wf (persist_op ps)"
  unfolding persist_op_def by (intro wf_intros)

text \<open>What the table answers for a key.\<close>

definition db_peer :: "int \<Rightarrow> int \<Rightarrow> db \<Rightarrow> cached_peer option" where
  "db_peer a i d =
     map_option (row_cached a) (find_row (\<lambda>r. p_account_id r = a \<and> p_peer_id r = i) (t_peer_cache d))"

lemma row_cached_inverse: "row_cached (cp_account_id p) (cached_row p) = p"
  by (simp add: row_cached_def cached_row_def)

lemma db_peer_persist:
  assumes "persist_peer p d = Inr ((), d')"
  shows "db_peer a i d' = (if (a, i) = peer_key p then Some p else db_peer a i d)"
proof (cases "(cp_account_id p, cp_peer_id p) \<in> (\<lambda>x. (p_account_id x, p_peer_id x)) ` set (t_peer_cache d)")
  case True
  let ?q = "\<lambda>x. p_account_id x = cp_account_id p \<and> p_peer_id x = cp_peer_id p"
  let ?f = "\<lambda>x. x\<lparr>p_peer_type := cp_peer_type p, p_access_hash := cp_access_hash p,
       p_username := cp_username p, p_title := cp_title p, p_account_id := p_account_id x, p_peer_id := p_peer_id x\<rparr>"
  have d': "d' = d\<lparr>t_peer_cache := update_where ?q ?f (t_peer_cache d)\<rparr>"
    using assms True by (simp add: persist_peer_def upsert_peer_def cached_row_def)
  have ex: "find_row ?q (t_peer_cache d) \<noteq> None" using True by (auto simp: find_row_None_iff)
  have row: "row_cached (cp_account_id p) (?f x) = p" if "?q x" for x
    using that by (simp add: row_cached_def)
  have "find_row (\<lambda>r. p_account_id r = a \<and> p_peer_id r = i) (update_where ?q ?f (t_peer_cache d)) =
      map_option (\<lambda>x. if ?q x then ?f x else x) (find_row (\<lambda>r. p_account_id r = a \<and> p_peer_id r = i) (t_peer_cache d))"
    by (subst find_row_update_where) (auto split: option.split)
  note upd = this
  show ?thesis
  proof (cases "find_row (\<lambda>r. p_account_id r = a \<and> p_peer_id r = i) (t_peer_cache d)")
    case None
    with ex have "(a, i) \<noteq> peer_key p" by (auto simp: peer_key_def)
    with None upd show ?thesis by (simp add: db_peer_def d')
  next
    case (Some x)
    then have "p_account_id x = a" "p_peer_id x = i" by (auto dest: find_row_SomeD)
    with Some upd row [of x] show ?thesis by (auto simp: db_peer_def d' peer_key_def)
  qed
next
  case False
  have d': "d' = d\<lparr>t_peer_cache := t_peer_cache d @ [cached_row p]\<rparr>"
    using assms False by (auto simp: persist_peer_def upsert_peer_def cached_row_def split: if_splits)
  have none: "find_row (\<lambda>r. p_account_id r = cp_account_id p \<and> p_peer_id r = cp_peer_id p) (t_peer_cache d) = None"
    using False by (auto simp: find_row_None_iff image_iff)
  show ?thesis
    using none
    by (auto simp: db_peer_def d' peer_key_def find_row_append row_cached_def cached_row_def split: option.splits)
qed

lemma persist_many:
  assumes "dfold persist_peer ps d = Inr ((), d')"
  shows "db_peer a i d' = (case map_of (rev (map (\<lambda>p. (peer_key p, p)) ps)) (a, i) of None \<Rightarrow> db_peer a i d | Some p \<Rightarrow> Some p)"
  using assms
proof (induction ps arbitrary: d)
  case (Cons p ps)
  then obtain d1 where d1: "persist_peer p d = Inr ((), d1)" "dfold persist_peer ps d1 = Inr ((), d')"
    by (auto simp: dbind_Inr)
  show ?case
    using Cons.IH [OF d1(2)] db_peer_persist [OF d1(1)] by (auto simp: map_add_def split: option.splits)
qed simp

lemma peer_get_spec:
  "fst (peer_get a i True d mem) = (case get_memory a i mem of None \<Rightarrow> db_peer a i d | Some p \<Rightarrow> Some p)"
  by (auto simp: peer_get_def db_peer_def Let_def split: option.splits)

lemma peer_get_scoped:
  assumes "memory_ok mem"
  shows "memory_ok (snd (peer_get a i allow d mem))"
    and "fst (peer_get a i allow d mem) = Some p \<Longrightarrow> peer_key p = (a, i)"
proof -
  show "memory_ok (snd (peer_get a i allow d mem))"
    using assms by (auto simp: peer_get_def Let_def memory_ok_put split: option.split)
  assume p: "fst (peer_get a i allow d mem) = Some p"
  show "peer_key p = (a, i)"
  proof (cases "get_memory a i mem = None \<and> allow")
    case True
    with p obtain r where "find_row (\<lambda>r. p_account_id r = a \<and> p_peer_id r = i) (t_peer_cache d) = Some r" "p = row_cached a r"
      by (auto simp: peer_get_def Let_def split: option.splits)
    then show ?thesis by (auto simp: peer_key_def row_cached_def dest: find_row_SomeD)
  next
    case False
    with p have "get_memory a i mem = Some p" by (auto simp: peer_get_def Let_def split: if_splits)
    with assms show ?thesis by (simp add: memory_ok_def)
  qed
qed

text \<open>
  C36. A peer that was written through is found again after a restart: once the submitted write has
  committed, a fresh cache answers from the table what the running cache answers from memory, and
  the answer is the last peer written for that account and id.
\<close>

theorem persisted_peer_survives_restart:
  assumes "submit_persist_many ps mem = (write, mem')" "write d = Inr (n, d')"
    and "(account_id, peer_id) \<in> peer_key ` set ps"
  shows "n = int (length ps) \<and>
    fst (peer_get account_id peer_id True d' []) = get_memory account_id peer_id mem' \<and>
    get_memory account_id peer_id mem' = Some (last (filter (\<lambda>p. peer_key p = (account_id, peer_id)) ps))"
proof -
  have ne: "ps \<noteq> []" using assms(3) by auto
  have run: "dfold persist_peer ps d = Inr ((), d')" and n: "n = int (length ps)"
    using assms(1,2) ne by (auto simp: submit_persist_many_def persist_op_def dbind_Inr)
  let ?kvs = "map (\<lambda>p. (peer_key p, p)) ps"
  have mem': "mem' = peers.put_all ?kvs mem"
    using assms(1) by (simp add: submit_persist_many_def fold_put_memory)
  have in_keys: "(account_id, peer_id) \<in> fst ` set ?kvs" using assms(3) by force
  have "map_of (rev ?kvs) (account_id, peer_id) = Some (last (filter (\<lambda>p. peer_key p = (account_id, peer_id)) ps))"
    using assms(3) by (rule map_of_rev_last)
  then have p: "get_memory account_id peer_id mem' = Some (last (filter (\<lambda>p. peer_key p = (account_id, peer_id)) ps))"
    using peers.get_put_all [of "(account_id, peer_id)" ?kvs mem] by (simp add: mem')
  have "db_peer account_id peer_id d' = get_memory account_id peer_id mem'"
  proof -
    have "map_of (rev ?kvs) (account_id, peer_id) \<noteq> None" using in_keys by (simp add: map_of_eq_None_iff)
    then show ?thesis
      using persist_many [OF run, of account_id peer_id] peers.get_put_all [of "(account_id, peer_id)" ?kvs mem]
      by (auto simp: mem')
  qed
  then have "fst (peer_get account_id peer_id True d' []) = get_memory account_id peer_id mem'"
    by (simp add: peer_get_spec get_memory_def)
  with n p show ?thesis by auto
qed

definition sample_cached :: cached_peer where
  "sample_cached =
     \<lparr>cp_account_id = 1, cp_peer_id = 900, cp_peer_type = ''Channel'', cp_access_hash = Some 77,
      cp_username = None, cp_title = Some ''T''\<rparr>"

theorem persisted_peer_survives_restart_witness:
  "\<exists>n d'. persist_op [sample_cached, sample_cached\<lparr>cp_access_hash := Some 78\<rparr>] sample_db = Inr (n, d') \<and>
     fst (peer_get 1 900 True d' []) = Some (sample_cached\<lparr>cp_access_hash := Some 78\<rparr>)"
proof -
  let ?ps = "[sample_cached, sample_cached\<lparr>cp_access_hash := Some 78\<rparr>]"
  obtain n d' where run: "persist_op ?ps sample_db = Inr (n, d')"
  proof -
    have "is_ok (persist_op ?ps sample_db)" by code_simp
    then show thesis using that by (auto simp: is_ok_iff)
  qed
  have "submit_persist_many ?ps [] = (persist_op ?ps, fold put_memory ?ps [])"
    by (simp add: submit_persist_many_def)
  from persisted_peer_survives_restart [OF this run, of 1 900] run show ?thesis
    by (auto simp: peer_key_def sample_cached_def)
qed

section \<open>Warming\<close>

lemma fold_fold_concat: "fold (\<lambda>c. fold f (g c)) cs acc = fold f (concat (map g cs)) acc"
  by (induction cs arbitrary: acc) simp_all

lemma fold_load_peer:
  "fst (fold load_peer ps acc) = dict.put_all (map (\<lambda>p. (cp_peer_id p, p)) ps) (fst acc)"
  by (induction ps arbitrary: acc) (simp_all add: load_peer_def)

lemma known_peers_lookup:
  "map_of (known_peers a ids mem) i = (if i \<in> set ids then get_memory a i mem else None)"
proof -
  have "map_of (fold (\<lambda>i res. case get_memory a i mem of None \<Rightarrow> res | Some p \<Rightarrow> dict_set i p res) ids acc) i =
      (if i \<in> set ids \<and> get_memory a i mem \<noteq> None then get_memory a i mem else map_of acc i)" for acc
    by (induction ids arbitrary: acc) (auto split: option.splits)
  then show ?thesis by (auto simp: known_peers_def)
qed

lemma select_peers_chunks:
  "set (concat (map (\<lambda>c. select_peers a c d) cs)) = set (select_peers a (concat cs) d)"
  by (auto simp: select_peers_def)

lemma db_peer_row:
  assumes "db_wf d" "r \<in> set (t_peer_cache d)"
  shows "db_peer (p_account_id r) (p_peer_id r) d = Some (row_cached (p_account_id r) r)"
proof -
  have "distinct (map (\<lambda>r. (p_account_id r, p_peer_id r)) (t_peer_cache d))"
    using assms(1) by (simp add: db_wf_def peers_wf_def)
  from find_row_Some_key [OF this assms(2)] show ?thesis by (simp add: db_peer_def)
qed

text \<open>
  Warming the cache for a list of ids returns, for each id, exactly what looking it up alone
  would return, memory first, and nothing for other ids; the number of ids does not matter.
\<close>

theorem warm_is_batched_get:
  assumes "db_wf d"
  shows "map_of (fst (warm account_id peer_ids d mem)) i =
    (if i \<in> set peer_ids then fst (peer_get account_id i True d mem) else None)"
proof (cases "peer_ids = []")
  case False
  let ?miss = "missing_peers account_id peer_ids mem"
  let ?L = "concat (map (\<lambda>c. select_peers account_id c d) (chunks 500 ?miss))"
  let ?kvs = "map (\<lambda>p. (cp_peer_id p, p)) ?L"
  have L: "set ?L = set (select_peers account_id ?miss d)"
    unfolding select_peers_chunks by (simp add: concat_chunks)
  have w: "map_of (fst (warm account_id peer_ids d mem)) i = map_of (dict.put_all ?kvs (known_peers account_id peer_ids mem)) i"
    using False by (simp add: warm_def fold_fold_concat fold_load_peer)
  have entry: "v = p" if "db_peer account_id i d = Some p" "(i, v) \<in> set ?kvs" for v p
  proof -
    from that(2) obtain r where "r \<in> set (t_peer_cache d)" "p_account_id r = account_id" "p_peer_id r = i" "v = row_cached account_id r"
      using L by (auto simp: select_peers_def row_cached_def)
    with db_peer_row [OF assms] that(1) show ?thesis by fastforce
  qed
  have keys: "i \<in> fst ` set ?kvs \<longleftrightarrow> i \<in> set ?miss \<and> db_peer account_id i d \<noteq> None"
  proof -
    have "i \<in> fst ` set ?kvs \<longleftrightarrow> i \<in> cp_peer_id ` set (select_peers account_id ?miss d)"
      using L by (simp add: image_image)
    also have "\<dots> \<longleftrightarrow> i \<in> set ?miss \<and> (\<exists>r \<in> set (t_peer_cache d). p_account_id r = account_id \<and> p_peer_id r = i)"
      by (force simp: select_peers_def row_cached_def)
    finally show ?thesis by (simp add: db_peer_def find_row_None_iff)
  qed
  show ?thesis
  proof (cases "i \<in> fst ` set ?kvs")
    case True
    obtain v where v: "(i, v) \<in> set ?kvs" "map_of (dict.put_all ?kvs (known_peers account_id peer_ids mem)) i = Some v"
      using dict.get_put_all_in [OF True] by blast
    with True keys entry [OF _ v(1)] w show ?thesis
      by (auto simp: peer_get_spec missing_peers_def)
  next
    case out: False
    then have "map_of (fst (warm account_id peer_ids d mem)) i = map_of (known_peers account_id peer_ids mem) i"
      unfolding w by (rule dict.get_put_all_out)
    with out keys show ?thesis
      by (auto simp: known_peers_lookup peer_get_spec missing_peers_def split: option.splits)
  qed
qed (simp add: warm_def)

theorem warm_is_batched_get_witness:
  "map_of (fst (warm 1 [101, 555] sample_db [])) 101 = fst (peer_get 1 101 True sample_db []) \<and>
   fst (peer_get 1 101 True sample_db []) \<noteq> None"
proof -
  have "fst (peer_get 1 101 True sample_db []) \<noteq> None" by code_simp
  with warm_is_batched_get [OF sample_db_wf, of 1 "[101, 555]" "[]" 101] show ?thesis by simp
qed

inductive memory_reachable :: "peer_memory \<Rightarrow> bool" where
  start: "memory_reachable []"
| put_step: "memory_reachable mem \<Longrightarrow> memory_reachable (snd (peer_put p persist mem))"
| many_step: "memory_reachable mem \<Longrightarrow> memory_reachable (snd (submit_persist_many ps mem))"
| get_step: "memory_reachable mem \<Longrightarrow> memory_reachable (snd (peer_get a i allow d mem))"
| warm_step: "memory_reachable mem \<Longrightarrow> memory_reachable (snd (warm a ids d mem))"

lemma snd_fold_load_peer: "snd (fold load_peer ps acc) = fold put_memory ps (snd acc)"
  by (induction ps arbitrary: acc) (simp_all add: load_peer_def)

lemma memory_reachable_ok: "memory_reachable mem \<Longrightarrow> memory_ok mem"
proof (induction rule: memory_reachable.induct)
  case (warm_step mem a ids d)
  then show ?case by (auto simp: warm_def fold_fold_concat snd_fold_load_peer memory_ok_fold)
qed (auto simp: memory_ok_empty peer_put_def Let_def submit_persist_many_def memory_ok_put memory_ok_fold peer_get_scoped(1))

text \<open>
  The cache never hands an access hash to the wrong account: starting empty, in whatever order
  peers are put, persisted, looked up and warmed, every answer carries the account and the id that
  were asked for.
\<close>

theorem peers_stay_with_their_account:
  assumes "memory_reachable mem" "fst (peer_get account_id peer_id allow_db d mem) = Some p"
  shows "cp_account_id p = account_id \<and> cp_peer_id p = peer_id"
  using peer_get_scoped(2) [OF memory_reachable_ok [OF assms(1)] assms(2)] by (simp add: peer_key_def)

theorem peers_stay_with_their_account_witness:
  "\<exists>p. fst (peer_get 1 900 False empty_db (put_memory sample_cached [])) = Some p \<and> cp_account_id p = 1"
proof -
  have "snd (peer_put sample_cached False []) = put_memory sample_cached []" by (simp add: peer_put_def)
  then have r: "memory_reachable (put_memory sample_cached [])"
    using memory_reachable.put_step [OF memory_reachable.start, of sample_cached False] by simp
  have g: "fst (peer_get 1 900 False empty_db (put_memory sample_cached [])) = Some sample_cached"
    by (simp add: peer_get_def peer_key_def sample_cached_def)
  from peers_stay_with_their_account [OF r g] g show ?thesis by blast
qed

end
