(* ===== verification/Telegram_Client.thy ===== *)
theory Telegram_Client
  imports Account_Store Peer_Cache Group_Store Error_Policy Members Programs
begin

text \<open>
  The coroutines that run on the Telegram loop, and \<open>telegram/client_manager.py\<close>, which keeps one
  connected client per account.  Telethon and the Telegram servers are a parameter: a \<open>tg_env\<close>
  says how the n-th request is answered, as an exception or with the part of the reply the sources
  read.  A coroutine is a function on \<open>net_state\<close>, which also records the requests that were sent.
\<close>

section \<open>Telegram as a parameter\<close>

text \<open>The attributes the sources read of a chat or channel; \<open>None\<close> when there is no such attribute.\<close>

record tg_entity =
  te_class :: string
  te_id :: int
  te_access_hash :: "int option"
  te_title :: "string option"
  te_first_name :: "string option"
  te_username :: "string option"
  te_creator :: bool
  te_left :: bool
  te_broadcast :: bool
  te_admin_rights :: "bool option"
  te_default_banned :: "bool option"

text \<open>
  The two rights objects carry their \<open>invite_users\<close> flag.  The requests, with the arguments the
  sources pass.
\<close>

datatype (plugins only: code size) tg_request =
    R_connect
  | R_disconnect
  | R_is_authorized
  | R_send_code string
  | R_sign_in string string string
  | R_sign_in_password string
  | R_get_me
  | R_check_invite string
  | R_get_entity string
  | R_dialogs
  | R_full_chat int
  | R_participants "int \<times> int" int int
  | R_add_chat_user int "int \<times> int"
  | R_invite_to_channel "int \<times> int" "int \<times> int"
  | R_edit_banned "int \<times> int" "int \<times> int"
  | R_import_invite string
  | R_join_channel int
  | R_input_me
  | R_delete_chat_user int "(int \<times> int) option"
  | R_leave_channel "int \<times> int"

record tg_user =
  tu_id :: "int option"
  tu_username :: "string option"
  tu_first_name :: "string option"
  tu_last_name :: "string option"

record tg_dialog =
  dg_is_group :: bool
  dg_is_channel :: bool
  dg_entity :: tg_entity

record tg_env =
  tg_done :: "nat \<Rightarrow> tg_request \<Rightarrow> py_exc option"
  tg_connected :: "nat \<Rightarrow> bool"
  tg_bool :: "nat \<Rightarrow> bool"
  tg_code :: "nat \<Rightarrow> string"
  tg_me :: "nat \<Rightarrow> tg_user option"
  tg_invite :: "nat \<Rightarrow> string option \<times> tg_entity option"
  tg_get_entity :: "nat \<Rightarrow> tg_entity"
  tg_dialog_list :: "nat \<Rightarrow> tg_dialog list"
  tg_users :: "nat \<Rightarrow> tg_request \<Rightarrow> raw_user list"
  tg_chats :: "nat \<Rightarrow> tg_entity list"
  tg_now :: "nat \<Rightarrow> rat"
  tg_utc :: "nat \<Rightarrow> string"

section \<open>Coroutines\<close>

text \<open>
  The options of a client that the sources choose: V1.2 disables Telethon's own retries and its
  own sleeping on flood waits, V1 keeps the defaults.
\<close>

record client_options =
  co_request_retries :: "nat option"
  co_flood_sleep_threshold :: "nat option"
  co_connection_retries :: "nat option"

record client_slot =
  cl_session :: string
  cl_credentials :: "int \<times> string"
  cl_options :: client_options
  cl_last_used :: rat

record net_state =
  n_db :: db
  n_peers :: peer_memory
  n_clients :: "(int \<times> client_slot) list"
  n_reaper :: bool
  n_api_id :: "int option"
  n_api_hash :: "string option"
  n_idle_timeout :: rat
  n_rpcs :: nat
  n_sent :: "(int \<times> tg_request) list"

type_synonym 'a nm = "net_state \<Rightarrow> (py_exc + 'a) \<times> net_state"

definition nreturn :: "'a \<Rightarrow> 'a nm" where
  "nreturn x s = (Inr x, s)"

definition nraise :: "py_exc \<Rightarrow> 'a nm" where
  "nraise e s = (Inl e, s)"

definition nbind :: "'a nm \<Rightarrow> ('a \<Rightarrow> 'b nm) \<Rightarrow> 'b nm" where
  "nbind m f s = (case m s of (Inl e, s') \<Rightarrow> (Inl e, s') | (Inr x, s') \<Rightarrow> f x s')"

definition ncatch :: "'a nm \<Rightarrow> (py_exc \<Rightarrow> 'a nm) \<Rightarrow> 'a nm" where
  "ncatch m h s = (case m s of (Inl e, s') \<Rightarrow> h e s' | (Inr x, s') \<Rightarrow> (Inr x, s'))"

definition nget :: "(net_state \<Rightarrow> 'a) \<Rightarrow> 'a nm" where
  "nget f s = (Inr (f s), s)"

definition nmodify :: "(net_state \<Rightarrow> net_state) \<Rightarrow> unit nm" where
  "nmodify f s = (Inr (), f s)"

text \<open>An exception the sources raise themselves, and a domain exception of the writer.\<close>

definition py_error :: "string \<Rightarrow> string \<Rightarrow> py_exc" where
  "py_error name text = \<lparr>ex_type = name, ex_text = text, ex_seconds = None, ex_value = None, ex_oserror = False\<rparr>"

text \<open>\<open>str\<close> of a \<open>KeyError\<close> is the \<open>repr\<close> of its key.\<close>

definition quoted :: "string \<Rightarrow> string" where
  "quoted t = CHR 0x27 # t @ [CHR 0x27]"

definition key_error :: "string \<Rightarrow> py_exc" where
  "key_error t = py_error ''KeyError'' (quoted t)"

definition exn_exc :: "exn \<Rightarrow> py_exc" where
  "exn_exc e =
     (case e of
        ValueError t \<Rightarrow> py_error ''ValueError'' t
      | RuntimeError t \<Rightarrow> py_error ''RuntimeError'' t
      | KeyError t \<Rightarrow> key_error t
      | PermissionError t \<Rightarrow> (py_error ''PermissionError'' t)\<lparr>ex_oserror := True\<rparr>
      | AttributeError t \<Rightarrow> py_error ''AttributeError'' t
      | TypeError t \<Rightarrow> py_error ''TypeError'' t
      | IntegrityError t \<Rightarrow> py_error ''IntegrityError'' t
      | OSError t \<Rightarrow> (py_error ''OSError'' t)\<lparr>ex_oserror := True\<rparr>
      | ExternalError t \<Rightarrow> py_error ''Exception'' t)"

text \<open>\<open>await asyncio.wrap_future(...)\<close> of one write.\<close>

definition nwrite :: "'a dbop \<Rightarrow> 'a nm" where
  "nwrite m s =
     (case transact m (n_db s) of
        (Inl e, d) \<Rightarrow> (Inl (exn_exc e), s\<lparr>n_db := d\<rparr>)
      | (Inr x, d) \<Rightarrow> (Inr x, s\<lparr>n_db := d\<rparr>))"

text \<open>One request of an account: recorded, answered by an exception or by what \<open>reply\<close> reads.\<close>

definition rpc_call :: "tg_env \<Rightarrow> int \<Rightarrow> tg_request \<Rightarrow> (nat \<Rightarrow> 'a) \<Rightarrow> 'a nm" where
  "rpc_call env account_id req reply s =
     (let n = n_rpcs s; s' = s\<lparr>n_rpcs := Suc n, n_sent := n_sent s @ [(account_id, req)]\<rparr> in
      case tg_done env n req of Some e \<Rightarrow> (Inl e, s') | None \<Rightarrow> (Inr (reply n), s'))"

lemma net_simps [simp]:
  "nreturn x s = (Inr x, s)" "nraise e s = (Inl e, s)" "nget f s = (Inr (f s), s)" "nmodify g s = (Inr (), g s)"
  "m s = (Inr x, s') \<Longrightarrow> nbind m k s = k x s'" "m s = (Inl e, s') \<Longrightarrow> nbind m k s = (Inl e, s')"
  "m s = (Inr x, s') \<Longrightarrow> ncatch m h s = (Inr x, s')" "m s = (Inl e, s') \<Longrightarrow> ncatch m h s = h e s'"
  by (simp_all add: nreturn_def nraise_def nget_def nmodify_def nbind_def ncatch_def)

lemma nbind_basic [simp]:
  "nbind (nreturn x) k = k x" "nbind (nraise e) k = nraise e" "nbind (nget f) k s = k (f s) s"
  "nbind (nmodify g) k s = k () (g s)"
  by (simp_all add: fun_eq_iff)

section \<open>The client manager (telegram/client_manager.py)\<close>

definition update_credentials :: "int \<Rightarrow> string \<Rightarrow> unit nm" where
  "update_credentials api_id api_hash s =
     (if n_clients s \<noteq> []
      then (Inl (py_error ''RuntimeError'' ''Disconnect active Telegram clients before changing API credentials''), s)
      else (Inr (), s\<lparr>n_api_id := Some api_id, n_api_hash := Some api_hash\<rparr>))"

definition require_credentials :: "(int \<times> string) nm" where
  "require_credentials s =
     (case (n_api_id s, n_api_hash s) of
        (Some i, Some h) \<Rightarrow>
          if h = [] then (Inl (py_error ''RuntimeError'' ''Telegram API credentials are not configured. Set API ID/API Hash in Accounts.''), s)
          else (Inr (i, h), s)
      | _ \<Rightarrow> (Inl (py_error ''RuntimeError'' ''Telegram API credentials are not configured. Set API ID/API Hash in Accounts.''), s))"

text \<open>
  \<open>get\<close>: a kept client is touched and reconnected when needed; a new one is kept only when it has
  connected.  The first assertion of the source, that the caller runs on the loop, holds for every
  coroutine of this theory.
\<close>

definition client_get_with :: "client_options \<Rightarrow> tg_env \<Rightarrow> int \<Rightarrow> string \<Rightarrow> unit nm" where
  "client_get_with opts env account_id session_path =
     nbind (nmodify (\<lambda>s. s\<lparr>n_reaper := True\<rparr>)) (\<lambda>_.
     nbind (nget (\<lambda>s. (map_of (n_clients s) account_id, tg_now env (n_rpcs s), tg_connected env (n_rpcs s)))) (\<lambda>(slot, now, connected).
       case slot of
         Some sl \<Rightarrow>
           nbind (nmodify (\<lambda>s. s\<lparr>n_clients := dict_set account_id (sl\<lparr>cl_last_used := now\<rparr>) (n_clients s)\<rparr>)) (\<lambda>_.
             if connected then nreturn () else rpc_call env account_id R_connect (\<lambda>_. ()))
       | None \<Rightarrow>
           nbind require_credentials (\<lambda>cred.
           nbind (rpc_call env account_id R_connect (\<lambda>_. ())) (\<lambda>_.
             nmodify (\<lambda>s. s\<lparr>n_clients := dict_set account_id
               \<lparr>cl_session = session_path, cl_credentials = cred, cl_options = opts,
                cl_last_used = tg_now env (n_rpcs s)\<rparr> (n_clients s)\<rparr>)))))"

definition options_v12 :: client_options where
  "options_v12 = \<lparr>co_request_retries = Some 0, co_flood_sleep_threshold = Some 0, co_connection_retries = Some 5\<rparr>"

definition options_v1 :: client_options where
  "options_v1 = \<lparr>co_request_retries = None, co_flood_sleep_threshold = None, co_connection_retries = None\<rparr>"

definition client_get :: "tg_env \<Rightarrow> int \<Rightarrow> string \<Rightarrow> unit nm" where
  "client_get = client_get_with options_v12"

definition client_get_v1 :: "tg_env \<Rightarrow> int \<Rightarrow> string \<Rightarrow> unit nm" where
  "client_get_v1 = client_get_with options_v1"

definition client_is_authorized :: "tg_env \<Rightarrow> int \<Rightarrow> string \<Rightarrow> bool nm" where
  "client_is_authorized env account_id session_path =
     nbind (client_get env account_id session_path) (\<lambda>_. rpc_call env account_id R_is_authorized (tg_bool env))"

text \<open>The slot is gone before the client is asked to disconnect.\<close>

definition client_disconnect :: "tg_env \<Rightarrow> int \<Rightarrow> unit nm" where
  "client_disconnect env account_id =
     nbind (nget (\<lambda>s. map_of (n_clients s) account_id)) (\<lambda>slot.
     nbind (nmodify (\<lambda>s. s\<lparr>n_clients := dict_pop account_id (n_clients s)\<rparr>)) (\<lambda>_.
       case slot of None \<Rightarrow> nreturn () | Some _ \<Rightarrow> rpc_call env account_id R_disconnect (\<lambda>_. ())))"

fun disconnect_each :: "tg_env \<Rightarrow> int list \<Rightarrow> unit nm" where
  "disconnect_each env [] = nreturn ()"
| "disconnect_each env (i # is) = nbind (client_disconnect env i) (\<lambda>_. disconnect_each env is)"

definition stale_clients :: "rat \<Rightarrow> net_state \<Rightarrow> int list" where
  "stale_clients now s = map fst (filter (\<lambda>(i, sl). n_idle_timeout s \<le> now - cl_last_used sl) (n_clients s))"

definition disconnect_idle :: "tg_env \<Rightarrow> unit nm" where
  "disconnect_idle env = nbind (nget (\<lambda>s. stale_clients (tg_now env (n_rpcs s)) s)) (disconnect_each env)"

definition reaper_interval :: "net_state \<Rightarrow> rat" where
  "reaper_interval s = min 60 (max 15 (n_idle_timeout s / 2))"

definition close_all :: "tg_env \<Rightarrow> unit nm" where
  "close_all env =
     nbind (nmodify (\<lambda>s. s\<lparr>n_reaper := False\<rparr>)) (\<lambda>_.
     nbind (nget (\<lambda>s. map fst (n_clients s))) (disconnect_each env))"

definition new_net_state :: "db \<Rightarrow> int option \<Rightarrow> string option \<Rightarrow> rat \<Rightarrow> net_state" where
  "new_net_state d api_id api_hash idle =
     \<lparr>n_db = d, n_peers = [], n_clients = [], n_reaper = False, n_api_id = api_id, n_api_hash = api_hash,
      n_idle_timeout = max 30 idle, n_rpcs = 0, n_sent = []\<rparr>"

section \<open>A server that answers\<close>

text \<open>
  A Telegram that answers every request and holds the users \<open>us\<close> of one group, paged as
  \<open>channels.getParticipants\<close> documents: at most \<open>limit\<close> users from \<open>offset\<close> on.
\<close>

definition served_users :: "raw_user list \<Rightarrow> tg_request \<Rightarrow> raw_user list" where
  "served_users us req =
     (case req of
        R_participants _ offset limit \<Rightarrow> take (nat limit) (drop (nat offset) us)
      | R_full_chat _ \<Rightarrow> us
      | _ \<Rightarrow> [])"

definition server :: "raw_user list \<Rightarrow> tg_env" where
  "server us =
     \<lparr>tg_done = (\<lambda>_ _. None), tg_connected = (\<lambda>_. True), tg_bool = (\<lambda>_. True), tg_code = (\<lambda>_. ''code''),
      tg_me = (\<lambda>_. Some \<lparr>tu_id = Some 500, tu_username = None, tu_first_name = Some ''Ann'', tu_last_name = Some ''Lee''\<rparr>),
      tg_invite = (\<lambda>_. (None, None)),
      tg_get_entity = (\<lambda>_. \<lparr>te_class = ''Channel'', te_id = 900, te_access_hash = Some 77, te_title = Some ''G'',
         te_first_name = None, te_username = Some ''grp'', te_creator = False, te_left = False, te_broadcast = False,
         te_admin_rights = None, te_default_banned = None\<rparr>),
      tg_dialog_list = (\<lambda>_. []), tg_users = (\<lambda>_. served_users us), tg_chats = (\<lambda>_. []), tg_now = of_nat,
      tg_utc = (\<lambda>_. ''2024-01-01T00:00:00+00:00'')\<rparr>"

definition sample_net :: net_state where
  "sample_net = new_net_state sample_db (Some 1) (Some ''hash'') 300"

end
