(* ===== verification/Gateway.thy ===== *)
theory Gateway
  imports Telegram_Client
begin

text \<open>
  \<open>telegram/telethon_gateway.py\<close>, \<open>telegram/member_action_gateway.py\<close> and the thin services on top
  of them: every Telegram operation of the program as the requests it sends and what it stores.
\<close>

section \<open>Accounts, channels, groups\<close>

definition gw_session :: "int \<Rightarrow> string nm" where
  "gw_session account_id =
     nbind (nget (\<lambda>s. account_get account_id (n_db s))) (\<lambda>acc.
       case acc of
         None \<Rightarrow> nraise (key_error (''Unknown account id: '' @ int_str account_id))
       | Some a \<Rightarrow>
           if \<not> ac_enabled a then nraise (py_error ''RuntimeError'' ''Selected account is disabled'')
           else nreturn (ac_session_path a))"

definition gw_client :: "tg_env \<Rightarrow> int \<Rightarrow> unit nm" where
  "gw_client env account_id = nbind (gw_session account_id) (client_get env account_id)"

definition input_channel :: "group_context \<Rightarrow> (int \<times> int) nm" where
  "input_channel g =
     (case gc_access_hash g of
        None \<Rightarrow> nraise (py_error ''ValueError'' ''Target/source channel has no cached access hash'')
      | Some h \<Rightarrow> nreturn (gc_telegram_id g, h))"

definition or_str :: "string option \<Rightarrow> string \<Rightarrow> string" where
  "or_str v alt = (if truthy_str v then or_empty v else alt)"

definition gw_group_context :: "tg_entity \<Rightarrow> bool option \<Rightarrow> string \<Rightarrow> group_context" where
  "gw_group_context e is_member_override now =
     (let is_member = (case is_member_override of None \<Rightarrow> \<not> te_left e | Some b \<Rightarrow> b);
          is_chat = (py_lower (te_class e) = ''chat'');
          default_allows_invites = \<not> attr_true (te_default_banned e);
          member_can_invite = (is_member \<and> \<not> te_broadcast e \<and> default_allows_invites);
          can_invite = (te_creator e \<or> attr_true (te_admin_rights e) \<or> member_can_invite \<or>
                        (is_chat \<and> is_member \<and> te_default_banned e = None))
      in \<lparr>gc_telegram_id = te_id e, gc_access_hash = te_access_hash e,
          gc_title = or_str (te_title e) (or_str (te_first_name e) (int_str (te_id e))),
          gc_username = te_username e, gc_type = te_class e, gc_is_member = is_member,
          gc_is_admin = (te_creator e \<or> te_admin_rights e \<noteq> None),
          gc_can_read = (is_member \<or> truthy_str (te_username e)), gc_can_invite = can_invite,
          gc_can_send = is_member, gc_resolved_at = Some now, gc_local_group_id = None\<rparr>)"

definition group_peer :: "int \<Rightarrow> group_context \<Rightarrow> cached_peer" where
  "group_peer account_id g =
     \<lparr>cp_account_id = account_id, cp_peer_id = gc_telegram_id g, cp_peer_type = gc_type g,
      cp_access_hash = gc_access_hash g, cp_username = gc_username g, cp_title = Some (gc_title g)\<rparr>"

text \<open>\<open>peers.put\<close> with persistence, awaited; and the same for a list.\<close>

definition cache_peer :: "cached_peer \<Rightarrow> unit nm" where
  "cache_peer p =
     nbind (nmodify (\<lambda>s. s\<lparr>n_peers := snd (peer_put p True (n_peers s))\<rparr>)) (\<lambda>_.
     nbind (nwrite (persist_op [p])) (\<lambda>_. nreturn ()))"

definition cache_peers :: "cached_peer list \<Rightarrow> unit nm" where
  "cache_peers ps =
     (if ps = [] then nreturn ()
      else
        nbind (nmodify (\<lambda>s. s\<lparr>n_peers := snd (submit_persist_many ps (n_peers s))\<rparr>)) (\<lambda>_.
        nbind (nwrite (persist_op ps)) (\<lambda>_. nreturn ())))"

definition resolve_group :: "tg_env \<Rightarrow> int \<Rightarrow> string \<Rightarrow> group_context nm" where
  "resolve_group env account_id reference =
     nbind (gw_client env account_id) (\<lambda>_.
     nbind
       (case invite_hash reference of
          Some token \<Rightarrow>
            nbind (rpc_call env account_id (R_check_invite token) (\<lambda>n. (tg_invite env n, tg_utc env n))) (\<lambda>((title, chat), now).
              case chat of
                None \<Rightarrow> nraise (py_error ''RuntimeError''
                  (''Invite '' @ quoted (or_str title ''Private invite'') @ '' is valid but the account must join before members can be read''))
              | Some e \<Rightarrow> nreturn (gw_group_context e (Some True) now))
        | None \<Rightarrow>
            nbind (rpc_call env account_id (R_get_entity reference) (\<lambda>n. (tg_get_entity env n, tg_utc env n))) (\<lambda>(e, now).
              nreturn (gw_group_context e None now))) (\<lambda>g.
     nbind (cache_peer (group_peer account_id g)) (\<lambda>_. nreturn g)))"

definition get_joined_groups :: "tg_env \<Rightarrow> int \<Rightarrow> group_context list nm" where
  "get_joined_groups env account_id =
     nbind (gw_client env account_id) (\<lambda>_.
     nbind (rpc_call env account_id R_dialogs (\<lambda>n. (tg_dialog_list env n, tg_utc env n))) (\<lambda>(dialogs, now).
       let groups = map (\<lambda>dg. gw_group_context (dg_entity dg) (Some True) now)
                      (filter (\<lambda>dg. dg_is_group dg \<or> dg_is_channel dg) dialogs)
       in nbind (cache_peers (map (group_peer account_id) groups)) (\<lambda>_. nreturn groups)))"

section \<open>Participants\<close>

text \<open>
  The pages the generator yields and the exception it ends with, if any.  The loop goes on while
  the server returns full pages; \<open>fuel\<close> bounds the number of requests and \<open>None\<close> says it was used
  up.
\<close>

type_synonym page_stream = "member list list \<times> py_exc option"

fun pages_from ::
  "nat \<Rightarrow> tg_env \<Rightarrow> int \<Rightarrow> int \<times> int \<Rightarrow> int \<Rightarrow> int \<Rightarrow> net_state \<Rightarrow> (page_stream \<times> net_state) option" where
  "pages_from 0 env account_id channel current page_limit s = None"
| "pages_from (Suc fuel) env account_id channel current page_limit s =
     (let req = R_participants channel current page_limit in
      case rpc_call env account_id req (\<lambda>n. tg_users env n req) s of
        (Inl e, s') \<Rightarrow> Some (([], Some e), s')
      | (Inr users, s') \<Rightarrow>
          if users = [] then Some (([], None), s')
          else
            let pg = map normalize_member users in
            if int (length users) < page_limit then Some (([pg], None), s')
            else map_option (\<lambda>((pgs, e), s''). ((pg # pgs, e), s''))
                   (pages_from fuel env account_id channel (current + int (length users)) page_limit s'))"

definition iter_participant_pages ::
  "nat \<Rightarrow> tg_env \<Rightarrow> int \<Rightarrow> group_context \<Rightarrow> int \<Rightarrow> int \<Rightarrow> net_state \<Rightarrow> (page_stream \<times> net_state) option" where
  "iter_participant_pages fuel env account_id g offset limit s =
     (case gw_client env account_id s of
        (Inl e, s1) \<Rightarrow> Some (([], Some e), s1)
      | (Inr _, s1) \<Rightarrow>
          if py_lower (gc_type g) = ''chat''
          then
            if offset > 0 then Some (([], None), s1)
            else (case rpc_call env account_id (R_full_chat (gc_telegram_id g))
                         (\<lambda>n. tg_users env n (R_full_chat (gc_telegram_id g))) s1 of
                    (Inl e, s2) \<Rightarrow> Some (([], Some e), s2)
                  | (Inr users, s2) \<Rightarrow> Some ((if users = [] then [] else [map normalize_member users], None), s2))
          else
            (case input_channel g s1 of
               (Inl e, s2) \<Rightarrow> Some (([], Some e), s2)
             | (Inr ch, s2) \<Rightarrow> pages_from fuel env account_id ch (max 0 offset) (max 1 (min limit 200)) s2))"

section \<open>Mutations\<close>

definition invite_user :: "tg_env \<Rightarrow> int \<Rightarrow> group_context \<Rightarrow> member \<Rightarrow> unit nm" where
  "invite_user env account_id target m =
     (case (mb_telegram_user_id m, mb_access_hash m) of
        (None, _) \<Rightarrow> nraise (py_error ''ValueError'' ''Member has no Telegram user id'')
      | (Some _, None) \<Rightarrow> nraise (py_error ''ValueError'' ''Missing account-scoped cached access hash for candidate'')
      | (Some uid, Some h) \<Rightarrow>
          nbind (gw_client env account_id) (\<lambda>_.
            if py_lower (gc_type target) = ''chat''
            then rpc_call env account_id (R_add_chat_user (gc_telegram_id target) (uid, h)) (\<lambda>_. ())
            else nbind (input_channel target) (\<lambda>ch.
                   rpc_call env account_id (R_invite_to_channel ch (uid, h)) (\<lambda>_. ()))))"

definition remove_user :: "tg_env \<Rightarrow> int \<Rightarrow> group_context \<Rightarrow> member \<Rightarrow> unit nm" where
  "remove_user env account_id target m =
     (case (mb_telegram_user_id m, mb_access_hash m) of
        (Some uid, Some h) \<Rightarrow>
          nbind (gw_client env account_id) (\<lambda>_.
            if py_lower (gc_type target) = ''chat''
            then rpc_call env account_id (R_delete_chat_user (gc_telegram_id target) (Some (uid, h))) (\<lambda>_. ())
            else nbind (input_channel target) (\<lambda>ch.
                   rpc_call env account_id (R_edit_banned ch (uid, h)) (\<lambda>_. ())))
      | _ \<Rightarrow> nraise (py_error ''ValueError'' ''Missing cached candidate identity''))"

definition join_group :: "tg_env \<Rightarrow> int \<Rightarrow> string \<Rightarrow> group_context nm" where
  "join_group env account_id reference =
     nbind (gw_client env account_id) (\<lambda>_.
       case invite_hash reference of
         Some token \<Rightarrow>
           nbind (rpc_call env account_id (R_import_invite token) (\<lambda>n. (tg_chats env n, tg_utc env n))) (\<lambda>(chats, now).
             case chats of
               [] \<Rightarrow> nraise (py_error ''RuntimeError'' ''Joined invite but Telegram returned no chat entity'')
             | e # _ \<Rightarrow>
                 let g = gw_group_context e (Some True) now in
                 nbind (cache_peer (group_peer account_id g)) (\<lambda>_. nreturn g))
       | None \<Rightarrow>
           nbind (rpc_call env account_id (R_get_entity reference) (\<lambda>n. (tg_get_entity env n, tg_utc env n))) (\<lambda>(e, now).
             if py_lower (te_class e) = ''chat'' then nreturn (gw_group_context e (Some True) now)
             else
               nbind (rpc_call env account_id (R_join_channel (te_id e)) (\<lambda>_. ())) (\<lambda>_.
                 resolve_group env account_id reference)))"

definition leave_group :: "tg_env \<Rightarrow> int \<Rightarrow> group_context \<Rightarrow> unit nm" where
  "leave_group env account_id g =
     nbind (gw_client env account_id) (\<lambda>_.
       if py_lower (gc_type g) = ''chat''
       then
         nbind (rpc_call env account_id R_input_me (\<lambda>_. ())) (\<lambda>_.
           rpc_call env account_id (R_delete_chat_user (gc_telegram_id g) None) (\<lambda>_. ()))
       else nbind (input_channel g) (\<lambda>ch. rpc_call env account_id (R_leave_channel ch) (\<lambda>_. ())))"

section \<open>Services on top of the gateway\<close>

text \<open>
  \<open>groups/service.py\<close>, \<open>telegram/peer_resolver.py\<close>, \<open>telegram/capability_service.py\<close> and
  \<open>utilities/group_membership.py\<close>; the membership utility runs while it holds the mutation lock of
  the account.
\<close>

definition group_service_resolve :: "tg_env \<Rightarrow> int \<Rightarrow> string \<Rightarrow> group_context nm" where
  "group_service_resolve env account_id reference = resolve_group env account_id reference"

definition peer_resolver_resolve :: "tg_env \<Rightarrow> int \<Rightarrow> string \<Rightarrow> group_context nm" where
  "peer_resolver_resolve env account_id reference =
     (case normalize_group_reference reference of
        Inl e \<Rightarrow> nraise (exn_exc e)
      | Inr r \<Rightarrow> resolve_group env account_id r)"

definition can_scan :: "group_context \<Rightarrow> bool" where
  "can_scan g = (gc_is_member g \<and> gc_can_read g)"

definition can_migrate :: "group_context \<Rightarrow> bool" where
  "can_migrate g = (gc_is_member g \<and> gc_can_invite g)"

definition membership_join :: "tg_env \<Rightarrow> int \<Rightarrow> string \<Rightarrow> group_context nm" where
  "membership_join env account_id reference = join_group env account_id reference"

definition membership_leave :: "tg_env \<Rightarrow> int \<Rightarrow> group_context \<Rightarrow> unit nm" where
  "membership_leave env account_id g = leave_group env account_id g"

section \<open>The participants of a group\<close>

lemma rpc_call_answered:
  "tg_done env (n_rpcs s) req = None \<Longrightarrow>
     rpc_call env a req reply s = (Inr (reply (n_rpcs s)), s\<lparr>n_rpcs := Suc (n_rpcs s), n_sent := n_sent s @ [(a, req)]\<rparr>)"
  by (simp add: rpc_call_def Let_def)

text \<open>Every round but the last one moves on by a whole page.\<close>

lemma pages_from_complete:
  assumes "\<And>n off. tg_done env n (R_participants ch off lmt) = None"
    and "\<And>n off. tg_users env n (R_participants ch off lmt) = take (nat lmt) (drop (nat off) us)"
    and "0 < lmt" "0 \<le> off" "length us < nat off + fuel" "0 < fuel"
  shows "\<exists>pgs s'. pages_from fuel env a ch off lmt s = Some ((pgs, None), s') \<and>
    concat pgs = map normalize_member (drop (nat off) us) \<and> list_all (\<lambda>p. p \<noteq> [] \<and> int (length p) \<le> lmt) pgs"
  using assms(4-6)
proof (induction fuel arbitrary: off s)
  case 0
  then show ?case by simp
next
  case (Suc fuel)
  define users where "users = take (nat lmt) (drop (nat off) us)"
  define s1 where "s1 = s\<lparr>n_rpcs := Suc (n_rpcs s), n_sent := n_sent s @ [(a, R_participants ch off lmt)]\<rparr>"
  have call: "rpc_call env a (R_participants ch off lmt) (\<lambda>n. tg_users env n (R_participants ch off lmt)) s = (Inr users, s1)"
    by (simp add: rpc_call_answered assms(1,2) users_def s1_def)
  show ?case
  proof (cases "int (length users) < lmt")
    case True
    then have "users = drop (nat off) us" using assms(3) by (auto simp: users_def)
    then show ?thesis using call True by (auto simp: Let_def)
  next
    case False
    then have len: "int (length users) = lmt" using assms(3) by (auto simp: users_def)
    then have ne: "users \<noteq> []" using assms(3) by auto
    have off: "nat (off + lmt) = nat off + nat lmt" using Suc.prems(1) assms(3) by (simp add: nat_add_distrib)
    have "nat lmt \<le> length (drop (nat off) us)" using len by (auto simp: users_def)
    then have fuel: "length us < nat (off + lmt) + fuel" "0 < fuel"
      using Suc.prems assms(3) off by simp_all
    obtain pgs s' where rest: "pages_from fuel env a ch (off + lmt) lmt s1 = Some ((pgs, None), s')"
      "concat pgs = map normalize_member (drop (nat (off + lmt)) us)" "list_all (\<lambda>p. p \<noteq> [] \<and> int (length p) \<le> lmt) pgs"
      using Suc.IH [of "off + lmt" s1] fuel Suc.prems(1) assms(3) by auto
    have "drop (nat off) us = users @ drop (nat (off + lmt)) us"
      unfolding users_def off by (metis append_take_drop_id drop_drop add.commute)
    then show ?thesis using call ne len False rest by (auto simp: Let_def)
  qed
qed

text \<open>
  C22. Reading the participants of a group terminates and misses nobody, against a Telegram that answers
  and pages a list of users as it documents.  For a channel, a number of requests no larger than the list
  plus one is enough, the pages yielded are the users from the offset on, each once and in order, and no
  page is empty or larger than the limit, which is cut to between 1 and 200.  A channel whose access hash
  is unknown gives an error and sends nothing.  A basic chat comes as one page, at offset zero only.
\<close>

theorem participant_pages_complete:
  assumes "gw_client env a s = (Inr (), s1)"
    and "\<And>n h off lmt. tg_done env n (R_participants (gc_telegram_id g, h) off lmt) = None"
    and "\<And>n h off lmt. tg_users env n (R_participants (gc_telegram_id g, h) off lmt) = take (nat lmt) (drop (nat off) us)"
    and "\<And>n. tg_done env n (R_full_chat (gc_telegram_id g)) = None" "\<And>n. tg_users env n (R_full_chat (gc_telegram_id g)) = us"
    and "length us < fuel"
  shows "\<exists>pgs e s'. iter_participant_pages fuel env a g offset limit s = Some ((pgs, e), s') \<and>
    (if py_lower (gc_type g) = ''chat''
     then e = None \<and> pgs = (if 0 < offset \<or> us = [] then [] else [map normalize_member us])
     else case gc_access_hash g of
            None \<Rightarrow> e \<noteq> None \<and> pgs = [] \<and> n_sent s' = n_sent s1
          | Some h \<Rightarrow> e = None \<and> concat pgs = map normalize_member (drop (nat offset) us) \<and>
              list_all (\<lambda>p. p \<noteq> [] \<and> int (length p) \<le> max 1 (min limit 200)) pgs)"
proof (cases "py_lower (gc_type g) = ''chat''")
  case True
  then show ?thesis
    using assms(1,4,5) by (auto simp: iter_participant_pages_def rpc_call_answered)
next
  case chan: False
  show ?thesis
  proof (cases "gc_access_hash g")
    case None
    then show ?thesis using chan assms(1) by (simp add: iter_participant_pages_def input_channel_def nraise_def)
  next
    case (Some h)
    define lmt where "lmt = max 1 (min limit 200)"
    have lmt: "0 < lmt" by (simp add: lmt_def)
    obtain pgs s' where pgs: "pages_from fuel env a (gc_telegram_id g, h) (max 0 offset) lmt s1 = Some ((pgs, None), s')"
      "concat pgs = map normalize_member (drop (nat (max 0 offset)) us)" "list_all (\<lambda>p. p \<noteq> [] \<and> int (length p) \<le> lmt) pgs"
      using pages_from_complete [of env "(gc_telegram_id g, h)" lmt us "max 0 offset" fuel a s1] assms(2,3,6) lmt by auto
    moreover have "nat (max 0 offset) = nat offset" by simp
    ultimately show ?thesis using assms(1) chan Some
      by (simp add: iter_participant_pages_def input_channel_def nreturn_def lmt_def)
  qed
qed

definition sample_user :: "int \<Rightarrow> raw_user" where
  "sample_user i = \<lparr>ru_id = Some i, ru_username = None, ru_first_name = None, ru_last_name = None, ru_phone = None,
     ru_bot = None, ru_deleted = None, ru_status = None, ru_access_hash = Some (i + 1)\<rparr>"

definition sample_group :: group_context where
  "sample_group = GroupContext 900 (Some 77) ''G'' None ''Channel''"

lemma sample_client: "\<exists>s1. gw_client (server us) 1 sample_net = (Inr (), s1)"
  by (simp add: gw_client_def gw_session_def client_get_def client_get_with_def sample_net_def new_net_state_def sample_defs
      account_get_def account_row_of_def row_account_def require_credentials_def server_def rpc_call_def nbind_def Let_def)

theorem participant_pages_complete_witness:
  "\<exists>pgs s'. iter_participant_pages 4 (server [sample_user 1, sample_user 2, sample_user 3]) 1 sample_group 0 2 sample_net =
      Some ((pgs, None), s') \<and> concat pgs = map normalize_member [sample_user 1, sample_user 2, sample_user 3] \<and>
      list_all (\<lambda>p. p \<noteq> [] \<and> length p \<le> 2) pgs"
proof -
  let ?us = "[sample_user 1, sample_user 2, sample_user 3]"
  obtain s1 where "gw_client (server ?us) 1 sample_net = (Inr (), s1)" using sample_client by blast
  then have "\<exists>pgs e s'. iter_participant_pages 4 (server ?us) 1 sample_group 0 2 sample_net = Some ((pgs, e), s') \<and>
      e = None \<and> concat pgs = map normalize_member ?us \<and> list_all (\<lambda>p. p \<noteq> [] \<and> int (length p) \<le> 2) pgs"
    using participant_pages_complete [of "server ?us" 1 sample_net s1 sample_group ?us 4 0 2]
    by (simp add: sample_group_def GroupContext_def server_def served_users_def py_lower_def lower_char_def Let_def)
  then show ?thesis by auto
qed

section \<open>The hot path\<close>

text \<open>A client that is kept and connected costs no request.\<close>

lemma gw_client_kept:
  assumes "account_get a (n_db s) = Some ac" "ac_enabled ac" "map_of (n_clients s) a = Some sl" "tg_connected env (n_rpcs s)"
  shows "\<exists>s'. gw_client env a s = (Inr (), s') \<and> n_sent s' = n_sent s \<and> n_rpcs s' = n_rpcs s \<and> n_db s' = n_db s \<and> n_peers s' = n_peers s"
  using assms by (simp add: gw_client_def gw_session_def client_get_def client_get_with_def)

definition invite_request :: "group_context \<Rightarrow> member \<Rightarrow> tg_request option" where
  "invite_request g m =
     (case (mb_telegram_user_id m, mb_access_hash m) of
        (Some uid, Some h) \<Rightarrow>
          if py_lower (gc_type g) = ''chat'' then Some (R_add_chat_user (gc_telegram_id g) (uid, h))
          else map_option (\<lambda>gh. R_invite_to_channel (gc_telegram_id g, gh) (uid, h)) (gc_access_hash g)
      | _ \<Rightarrow> None)"

text \<open>
  C21. The hot path resolves nothing.  With a connected client, inviting a candidate sends exactly
  one request, the invitation of this candidate into this group, and reports what Telegram answers
  to it; when the candidate or the group lacks a cached hash it sends no request at all and raises.
  Nothing is read from or written to the caches.
\<close>

theorem invite_sends_one_request:
  assumes "account_get a (n_db s) = Some ac" "ac_enabled ac" "map_of (n_clients s) a = Some sl" "tg_connected env (n_rpcs s)"
  shows "case invite_user env a g m s of (r, s') \<Rightarrow>
    n_db s' = n_db s \<and> n_peers s' = n_peers s \<and>
    (case invite_request g m of
       None \<Rightarrow> n_sent s' = n_sent s \<and> (\<exists>text. r = Inl (py_error ''ValueError'' text))
     | Some req \<Rightarrow> n_sent s' = n_sent s @ [(a, req)] \<and>
         r = (case tg_done env (n_rpcs s) req of None \<Rightarrow> Inr () | Some e \<Rightarrow> Inl e))"
proof -
  obtain s1 where client: "gw_client env a s = (Inr (), s1)" "n_sent s1 = n_sent s" "n_rpcs s1 = n_rpcs s" "n_db s1 = n_db s"
    "n_peers s1 = n_peers s" using gw_client_kept [OF assms] by blast
  then show ?thesis
    by (auto simp: invite_user_def invite_request_def input_channel_def rpc_call_def Let_def split: option.splits)
qed

definition sample_target_member :: member where
  "sample_target_member = normalize_member (sample_user 5)"

definition sample_connected :: net_state where
  "sample_connected = snd (gw_client (server []) 1 sample_net)"

theorem invite_sends_one_request_witness:
  "invite_request sample_group sample_target_member = Some (R_invite_to_channel (900, 77) (5, 6)) \<and>
   n_sent (snd (invite_user (server []) 1 sample_group sample_target_member sample_connected)) =
     n_sent sample_connected @ [(1, R_invite_to_channel (900, 77) (5, 6))]"
proof -
  have req: "invite_request sample_group sample_target_member = Some (R_invite_to_channel (900, 77) (5, 6))"
    by (simp add: invite_request_def sample_group_def GroupContext_def sample_target_member_def normalize_member_def
        sample_user_def py_lower_def lower_char_def Let_def)
  have s: "account_get 1 (n_db sample_connected) \<noteq> None" "ac_enabled (the (account_get 1 (n_db sample_connected)))"
    "map_of (n_clients sample_connected) 1 \<noteq> None" "tg_connected (server []) (n_rpcs sample_connected)"
    by (simp_all add: sample_connected_def gw_client_def gw_session_def client_get_def client_get_with_def sample_net_def
        new_net_state_def sample_defs account_get_def account_row_of_def row_account_def require_credentials_def server_def
        rpc_call_def nbind_def Let_def)
  show ?thesis
    using invite_sends_one_request [of 1 sample_connected "the (account_get 1 (n_db sample_connected))"
        "the (map_of (n_clients sample_connected) 1)" "server []" sample_group sample_target_member] s req
    by (auto split: prod.splits)
qed

end
