(* ===== verification/Runtime_Services.thy ===== *)
theory Runtime_Services
  imports Keyed_Store
begin

text \<open>
  The small services of \<open>runtime/\<close>: the command and event buses, the event aggregator of the user
  interface, the performance monitor, the resource governor, the worker pool, the network loop and
  the application life cycle.  What they carry (handlers, callbacks, payload values) is a type
  parameter.
\<close>

section \<open>Events (core/events.py) and the event bus (runtime/event_bus.py)\<close>

record 'v domain_event =
  ev_name :: string
  ev_payload :: "(string \<times> 'v) list"

definition DomainEvent :: "string \<Rightarrow> (string \<times> 'v) list \<Rightarrow> 'v domain_event" where
  "DomainEvent name payload = \<lparr>ev_name = name, ev_payload = payload\<rparr>"

type_synonym 'c event_bus = "(string \<times> 'c list) list"

definition subs_of :: "string \<Rightarrow> 'c event_bus \<Rightarrow> 'c list" where
  "subs_of name bus = (case map_of bus name of None \<Rightarrow> [] | Some cs \<Rightarrow> cs)"

definition subscribe :: "string \<Rightarrow> 'c \<Rightarrow> 'c event_bus \<Rightarrow> 'c event_bus" where
  "subscribe name callback bus = dict_set name (subs_of name bus @ [callback]) bus"

definition callbacks_for :: "'v domain_event \<Rightarrow> 'c event_bus \<Rightarrow> 'c list" where
  "callbacks_for e bus = subs_of (ev_name e) bus @ subs_of ''*'' bus"

text \<open>
  The callbacks run one after the other on the publishing thread; an exception of one of them
  leaves \<open>publish\<close> and the remaining ones are not called.
\<close>

fun call_all :: "('c \<Rightarrow> 's \<Rightarrow> exn option \<times> 's) \<Rightarrow> 'c list \<Rightarrow> 's \<Rightarrow> exn option \<times> 's" where
  "call_all call [] s = (None, s)"
| "call_all call (c # cs) s =
     (case call c s of (Some e, s') \<Rightarrow> (Some e, s') | (None, s') \<Rightarrow> call_all call cs s')"

definition publish :: "('c \<Rightarrow> 'v domain_event \<Rightarrow> 's \<Rightarrow> exn option \<times> 's) \<Rightarrow> 'v domain_event \<Rightarrow> 'c event_bus \<Rightarrow> 's \<Rightarrow> exn option \<times> 's" where
  "publish call e bus s = call_all (\<lambda>c. call c e) (callbacks_for e bus) s"

section \<open>The command bus (runtime/command_bus.py)\<close>

type_synonym 'h command_bus = "(string \<times> 'h) list"

definition bus_register :: "string \<Rightarrow> 'h \<Rightarrow> 'h command_bus \<Rightarrow> 'h command_bus" where
  "bus_register name handler bus = dict_set name handler bus"

definition bus_dispatch :: "string \<Rightarrow> 'h command_bus \<Rightarrow> 'h res" where
  "bus_dispatch name bus =
     (case map_of bus name of
        None \<Rightarrow> Inl (KeyError (''No command handler for '' @ name))
      | Some h \<Rightarrow> Inr h)"

section \<open>The event aggregator (runtime/event_aggregator.py)\<close>

record 'v aggregator =
  ag_max_recent :: nat
  ag_events :: "'v domain_event list"
  ag_latest :: "(string \<times> 'v domain_event) list"

definition EventAggregator :: "nat \<Rightarrow> 'v aggregator" where
  "EventAggregator n = \<lparr>ag_max_recent = n, ag_events = [], ag_latest = []\<rparr>"

definition is_progress :: "'v domain_event \<Rightarrow> bool" where
  "is_progress e = suffix ''Progress'' (ev_name e)"

text \<open>\<open>str(event.payload.get("job_id", event.name))\<close>; \<open>str_of\<close> is \<open>str\<close> of a payload value.\<close>

definition progress_key :: "('v \<Rightarrow> string) \<Rightarrow> 'v domain_event \<Rightarrow> string" where
  "progress_key str_of e = (case map_of (ev_payload e) ''job_id'' of None \<Rightarrow> ev_name e | Some v \<Rightarrow> str_of v)"

text \<open>A \<open>deque\<close> with a maximal length drops from the other end.\<close>

definition bounded_append :: "nat \<Rightarrow> 'a \<Rightarrow> 'a list \<Rightarrow> 'a list" where
  "bounded_append n x xs = drop (length (xs @ [x]) - n) (xs @ [x])"

definition ag_push :: "('v \<Rightarrow> string) \<Rightarrow> 'v domain_event \<Rightarrow> 'v aggregator \<Rightarrow> 'v aggregator" where
  "ag_push str_of e a =
     (if is_progress e then a\<lparr>ag_latest := dict_set (progress_key str_of e) e (ag_latest a)\<rparr>
      else a\<lparr>ag_events := bounded_append (ag_max_recent a) e (ag_events a)\<rparr>)"

definition ag_drain :: "'v aggregator \<Rightarrow> 'v domain_event list \<times> 'v aggregator" where
  "ag_drain a = (ag_events a @ map snd (ag_latest a), a\<lparr>ag_events := [], ag_latest := []\<rparr>)"

section \<open>The performance monitor (runtime/performance_monitor.py)\<close>

record monitor =
  pm_limit :: nat
  pm_samples :: "(string \<times> rat list) list"
  pm_gauges :: "(string \<times> rat) list"

definition PerformanceMonitor :: "nat \<Rightarrow> monitor" where
  "PerformanceMonitor n = \<lparr>pm_limit = n, pm_samples = [], pm_gauges = []\<rparr>"

definition samples_of :: "string \<Rightarrow> monitor \<Rightarrow> rat list" where
  "samples_of name m = (case map_of (pm_samples m) name of None \<Rightarrow> [] | Some xs \<Rightarrow> xs)"

definition observe :: "string \<Rightarrow> rat \<Rightarrow> monitor \<Rightarrow> monitor" where
  "observe name v m = m\<lparr>pm_samples := dict_set name (bounded_append (pm_limit m) v (samples_of name m)) (pm_samples m)\<rparr>"

definition gauge :: "string \<Rightarrow> rat \<Rightarrow> monitor \<Rightarrow> monitor" where
  "gauge name v m = m\<lparr>pm_gauges := dict_set name v (pm_gauges m)\<rparr>"

definition monitor_snapshot :: "monitor \<Rightarrow> (string \<times> rat) list" where
  "monitor_snapshot m =
     fold (\<lambda>(name, vs) res.
        if vs = [] then res
        else dict_set (name @ ''_max'') (fold max vs (hd vs))
               (dict_set (name @ ''_avg'') (sum_list vs / of_nat (length vs)) res))
       (pm_samples m) (pm_gauges m)"

section \<open>The resource governor (runtime/resource_governor.py)\<close>

text \<open>
  The mutation lock of an account with the tasks that wait for it, the read slots in use with the
  tasks that wait for one, and the number of running migrations.  Tasks are numbered.
\<close>

record governor =
  gv_max_reads :: nat
  gv_locks :: "(int \<times> nat list) list"
  gv_readers :: "nat list"
  gv_read_waiters :: "nat list"
  gv_performance_users :: nat

definition ResourceGovernor :: "nat \<Rightarrow> governor" where
  "ResourceGovernor max_reads =
     \<lparr>gv_max_reads = max 1 max_reads, gv_locks = [], gv_readers = [], gv_read_waiters = [],
      gv_performance_users = 0\<rparr>"

definition lock_queue :: "int \<Rightarrow> governor \<Rightarrow> nat list" where
  "lock_queue account_id g = (case map_of (gv_locks g) account_id of None \<Rightarrow> [] | Some q \<Rightarrow> q)"

text \<open>The head of the queue holds the lock, the others wait in order.\<close>

definition acquire_mutation :: "int \<Rightarrow> nat \<Rightarrow> governor \<Rightarrow> governor" where
  "acquire_mutation account_id task g =
     g\<lparr>gv_locks := dict_set account_id (lock_queue account_id g @ [task]) (gv_locks g)\<rparr>"

definition holds_mutation :: "int \<Rightarrow> nat \<Rightarrow> governor \<Rightarrow> bool" where
  "holds_mutation account_id task g = (case lock_queue account_id g of [] \<Rightarrow> False | t # _ \<Rightarrow> t = task)"

definition release_mutation :: "int \<Rightarrow> governor \<Rightarrow> governor" where
  "release_mutation account_id g = g\<lparr>gv_locks := dict_set account_id (tl (lock_queue account_id g)) (gv_locks g)\<rparr>"

definition acquire_read :: "nat \<Rightarrow> governor \<Rightarrow> governor" where
  "acquire_read task g =
     (if length (gv_readers g) < gv_max_reads g \<and> gv_read_waiters g = []
      then g\<lparr>gv_readers := gv_readers g @ [task]\<rparr>
      else g\<lparr>gv_read_waiters := gv_read_waiters g @ [task]\<rparr>)"

definition release_read :: "nat \<Rightarrow> governor \<Rightarrow> governor" where
  "release_read task g =
     (let readers = remove1 task (gv_readers g) in
      case gv_read_waiters g of
        [] \<Rightarrow> g\<lparr>gv_readers := readers\<rparr>
      | t # ts \<Rightarrow>
          if task \<in> set (gv_readers g) then g\<lparr>gv_readers := readers @ [t], gv_read_waiters := ts\<rparr> else g)"

definition performance_mode :: "governor \<Rightarrow> bool" where
  "performance_mode g = (gv_performance_users g > 0)"

definition enable_performance_mode :: "governor \<Rightarrow> governor" where
  "enable_performance_mode g = g\<lparr>gv_performance_users := gv_performance_users g + 1\<rparr>"

definition disable_performance_mode :: "governor \<Rightarrow> governor" where
  "disable_performance_mode g = g\<lparr>gv_performance_users := max 0 (gv_performance_users g - 1)\<rparr>"

section \<open>The worker pool (runtime/worker_pool.py)\<close>

record 'f worker_pool =
  wp_workers :: nat
  wp_running :: "'f list"
  wp_waiting :: "'f list"
  wp_shutdown :: bool
  wp_cancelled :: "'f list"

definition WorkerPool :: "nat \<Rightarrow> 'f worker_pool" where
  "WorkerPool n = \<lparr>wp_workers = max 1 n, wp_running = [], wp_waiting = [], wp_shutdown = False, wp_cancelled = []\<rparr>"

text \<open>A pool that was shut down refuses new work.\<close>

definition pool_submit :: "'f \<Rightarrow> 'f worker_pool \<Rightarrow> 'f worker_pool res" where
  "pool_submit f p =
     (if wp_shutdown p then Inl (RuntimeError ''cannot schedule new futures after shutdown'')
      else Inr (if length (wp_running p) < wp_workers p then p\<lparr>wp_running := wp_running p @ [f]\<rparr>
                else p\<lparr>wp_waiting := wp_waiting p @ [f]\<rparr>))"

definition pool_finish :: "'f \<Rightarrow> 'f worker_pool \<Rightarrow> 'f worker_pool" where
  "pool_finish f p =
     (case wp_waiting p of
        [] \<Rightarrow> p\<lparr>wp_running := remove1 f (wp_running p)\<rparr>
      | g # gs \<Rightarrow> p\<lparr>wp_running := remove1 f (wp_running p) @ [g], wp_waiting := gs\<rparr>)"

definition pool_shutdown :: "'f worker_pool \<Rightarrow> 'f worker_pool" where
  "pool_shutdown p = p\<lparr>wp_shutdown := True, wp_cancelled := wp_cancelled p @ wp_waiting p, wp_waiting := []\<rparr>"

section \<open>The network loop (runtime/network_runtime.py)\<close>

record 'f network =
  nw_loop :: bool
  nw_thread :: "nat option"
  nw_tasks :: "'f list"
  nw_cancelled :: "'f list"

definition NetworkRuntime :: "'f network" where
  "NetworkRuntime = \<lparr>nw_loop = False, nw_thread = None, nw_tasks = [], nw_cancelled = []\<rparr>"

text \<open>\<open>ready\<close>: the thread announced itself within five seconds.\<close>

definition network_start :: "nat \<Rightarrow> bool \<Rightarrow> 'f network \<Rightarrow> 'f network res" where
  "network_start thread ready n =
     (if nw_thread n \<noteq> None then Inr n
      else if ready then Inr (n\<lparr>nw_loop := True, nw_thread := Some thread\<rparr>)
      else Inl (RuntimeError ''Network runtime failed to start''))"

definition network_submit :: "'f \<Rightarrow> 'f network \<Rightarrow> 'f network res" where
  "network_submit f n =
     (if nw_loop n then Inr (n\<lparr>nw_tasks := nw_tasks n @ [f]\<rparr>)
      else Inl (RuntimeError ''Network runtime is not running''))"

definition assert_network_thread :: "nat \<Rightarrow> 'f network \<Rightarrow> unit res" where
  "assert_network_thread current n =
     (if nw_thread n = Some current then Inr ()
      else Inl (RuntimeError ''Telegram operation attempted outside network runtime thread''))"

text \<open>Stopping leaves \<open>run_forever\<close>; the tasks still there are cancelled before the loop closes.\<close>

definition network_stop :: "'f network \<Rightarrow> 'f network" where
  "network_stop n =
     n\<lparr>nw_loop := False, nw_thread := None, nw_cancelled := nw_cancelled n @ nw_tasks n, nw_tasks := []\<rparr>"

section \<open>The application life cycle (runtime/application_runtime.py)\<close>

text \<open>
  The life cycle as the sequence of what it does; a hook is run by \<open>call\<close>, which may raise.
\<close>

datatype 'k life_event = L_writer_start | L_network_start | L_hook 'k | L_hook_failed 'k exn
  | L_network_stop | L_workers_shutdown | L_writer_stop

definition app_start :: "'k life_event list" where
  "app_start = [L_writer_start, L_network_start]"

definition add_network_shutdown_hook :: "'k \<Rightarrow> 'k list \<Rightarrow> 'k list" where
  "add_network_shutdown_hook hook hooks = hooks @ [hook]"

fun shutdown_network_services :: "('k \<Rightarrow> exn option) \<Rightarrow> 'k list \<Rightarrow> 'k life_event list" where
  "shutdown_network_services call [] = []"
| "shutdown_network_services call (h # hs) =
     (case call h of None \<Rightarrow> [L_hook h] | Some e \<Rightarrow> [L_hook h, L_hook_failed h e]) @ shutdown_network_services call hs"

text \<open>
  \<open>finished\<close> is how many of these happen before the eight second timeout of \<open>result\<close>; the rest is
  cancelled with the loop.
\<close>

definition app_stop :: "('k \<Rightarrow> exn option) \<Rightarrow> nat \<Rightarrow> 'k list \<Rightarrow> 'f network \<Rightarrow> 'k life_event list" where
  "app_stop call finished hooks n =
     (if nw_loop n then take finished (shutdown_network_services call hooks) else []) @
     [L_network_stop, L_workers_shutdown, L_writer_stop]"

section \<open>The aggregator\<close>

lemma bounded_append_last:
  "bounded_append n x (drop (length xs - n) xs) = drop (length (xs @ [x]) - n) (xs @ [x])"
proof (cases "length xs \<le> n")
  case False
  then show ?thesis
    by (cases n) (auto simp: bounded_append_def Suc_diff_Suc not_le)
qed (simp add: bounded_append_def)

lemma ag_push_events:
  "ag_events (fold (ag_push str_of) es a) = drop (length xs - n) xs"
  if "xs = ys @ filter (\<lambda>e. \<not> is_progress e) es" "ag_events a = drop (length ys - n) ys" "ag_max_recent a = n"
  using that
proof (induction es arbitrary: a ys)
  case (Cons e es)
  show ?case
  proof (cases "is_progress e")
    case True
    with Cons show ?thesis by (auto simp: ag_push_def)
  next
    case False
    have "ag_events (ag_push str_of e a) = drop (length (ys @ [e]) - n) (ys @ [e])"
      using False Cons.prems by (simp add: ag_push_def bounded_append_last)
    moreover have "ag_max_recent (ag_push str_of e a) = n" using Cons.prems(3) by (simp add: ag_push_def)
    ultimately show ?thesis
      using Cons.IH [of "ys @ [e]" "ag_push str_of e a"] Cons.prems(1) False by simp
  qed
qed simp

lemma ag_push_latest:
  "ag_latest (fold (ag_push str_of) es a) =
     dict.put_all (map (\<lambda>e. (progress_key str_of e, e)) (filter is_progress es)) (ag_latest a)"
  by (induction es arbitrary: a) (simp_all add: ag_push_def)

lemma distinct_put_all: "distinct (map fst d) \<Longrightarrow> distinct (map fst (dict.put_all kvs d))"
  by (induction kvs arbitrary: d) simp_all

text \<open>
  C38. The user interface misses nothing that matters and is never flooded: draining returns the last
  events that are no progress reports, in order and at most as many as the limit, and for every job
  that reported progress exactly its last report; afterwards the aggregator is empty.
\<close>

theorem aggregator_coalesces:
  fixes es :: "'v domain_event list"
  defines "important \<equiv> filter (\<lambda>e. \<not> is_progress e) es"
  shows "\<exists>recent latest. ag_drain (fold (ag_push str_of) es (EventAggregator n)) = (recent @ map snd latest, EventAggregator n) \<and>
    recent = drop (length important - n) important \<and> length recent \<le> n \<and>
    distinct (map fst latest) \<and>
    map_of latest = map_of (rev (map (\<lambda>e. (progress_key str_of e, e)) (filter is_progress es)))"
proof -
  let ?a = "fold (ag_push str_of) es (EventAggregator n)"
  let ?kvs = "map (\<lambda>e. (progress_key str_of e, e)) (filter is_progress es)"
  have max: "ag_max_recent (fold (ag_push str_of) es a) = ag_max_recent a" for a :: "'v aggregator"
    by (induction es arbitrary: a) (simp_all add: ag_push_def)
  have ev: "ag_events ?a = drop (length important - n) important"
    by (rule ag_push_events [of _ "[]"]) (simp_all add: important_def EventAggregator_def)
  have lt: "ag_latest ?a = dict.put_all ?kvs []" by (simp add: ag_push_latest EventAggregator_def)
  have "map_of (dict.put_all ?kvs []) = map_of (rev ?kvs)"
    using dict.get_put_all [where kvs = ?kvs and s = "[]"] by (auto simp: fun_eq_iff split: option.splits)
  moreover have "?a\<lparr>ag_events := [], ag_latest := []\<rparr> = EventAggregator n"
    using max [of "EventAggregator n"] by (simp add: EventAggregator_def)
  ultimately show ?thesis
    using ev lt distinct_put_all [of "[]" ?kvs] by (auto simp: ag_drain_def)
qed

section \<open>The governor\<close>

inductive governor_step :: "governor \<Rightarrow> governor \<Rightarrow> bool" where
  lock: "governor_step g (acquire_mutation a t g)"
| unlock: "holds_mutation a t g \<Longrightarrow> governor_step g (release_mutation a g)"
| read: "t \<notin> set (gv_readers g) \<union> set (gv_read_waiters g) \<Longrightarrow> governor_step g (acquire_read t g)"
| unread: "t \<in> set (gv_readers g) \<Longrightarrow> governor_step g (release_read t g)"
| perf_on: "governor_step g (enable_performance_mode g)"
| perf_off: "governor_step g (disable_performance_mode g)"

inductive governor_reachable :: "nat \<Rightarrow> governor \<Rightarrow> bool" for n where
  init: "governor_reachable n (ResourceGovernor n)"
| step: "governor_reachable n g \<Longrightarrow> governor_step g g' \<Longrightarrow> governor_reachable n g'"

definition governor_inv :: "nat \<Rightarrow> governor \<Rightarrow> bool" where
  "governor_inv n g =
     (gv_max_reads g = max 1 n \<and> length (gv_readers g) \<le> gv_max_reads g \<and>
      distinct (gv_readers g @ gv_read_waiters g) \<and>
      (gv_read_waiters g \<noteq> [] \<longrightarrow> length (gv_readers g) = gv_max_reads g))"

lemma governor_step_inv:
  assumes "governor_step g g'" "governor_inv n g"
  shows "governor_inv n g'"
  using assms(1)
proof (cases rule: governor_step.cases)
  case (unread t)
  have "length (remove1 t (gv_readers g)) + 1 = length (gv_readers g)"
    using unread(2) length_pos_if_in_set [OF unread(2)] by (simp add: length_remove1)
  with unread assms(2) show ?thesis
    by (cases "gv_read_waiters g") (auto simp: governor_inv_def release_read_def Let_def dest: in_set_remove1 [THEN iffD1] notin_set_remove1)
qed (use assms(2) in \<open>auto simp: governor_inv_def acquire_mutation_def release_mutation_def acquire_read_def
      enable_performance_mode_def disable_performance_mode_def\<close>)

text \<open>
  The governor keeps its bounds in every reachable state: at most the configured number of
  concurrent reads (and at least one is possible), nobody waits for a read slot while one is free,
  nobody both reads and waits, and at most one task holds the mutation lock of an account.
\<close>

theorem governor_bounds:
  assumes "governor_reachable n g"
  shows "length (gv_readers g) \<le> max 1 n \<and> (gv_read_waiters g = [] \<or> length (gv_readers g) = max 1 n) \<and>
    distinct (gv_readers g @ gv_read_waiters g) \<and>
    (\<forall>t u. holds_mutation a t g \<and> holds_mutation a u g \<longrightarrow> t = u)"
proof -
  have "governor_inv n g"
    using assms
  proof (induction rule: governor_reachable.induct)
    case init
    show ?case by (simp add: governor_inv_def ResourceGovernor_def)
  next
    case (step g g')
    then show ?case using governor_step_inv by blast
  qed
  then show ?thesis by (auto simp: governor_inv_def holds_mutation_def split: list.splits)
qed

theorem governor_bounds_witness: "length (gv_readers (acquire_read 7 (ResourceGovernor 3))) \<le> 3"
proof -
  have "governor_reachable 3 (acquire_read 7 (ResourceGovernor 3))"
    by (rule governor_reachable.step [OF governor_reachable.init governor_step.read])
      (simp add: ResourceGovernor_def)
  from governor_bounds [OF this, of 0] show ?thesis by simp
qed

section \<open>Buses\<close>

interpretation commands: keyed_store "\<lambda>k bus. map_of bus k" bus_register
  by unfold_locales (simp add: bus_register_def)

lemma call_all_ok:
  assumes "\<And>c s. fst (call c s) = None"
  shows "call_all call cs s = (None, fold (\<lambda>c s. snd (call c s)) cs s)"
proof (induction cs arbitrary: s)
  case (Cons c cs)
  then show ?case using assms [of c s] by (cases "call c s") simp
qed simp

lemma subs_of_subscribe:
  "subs_of n (subscribe m c bus) = subs_of n bus @ (if n = m then [c] else [])"
  by (simp add: subs_of_def subscribe_def)

text \<open>
  Stopping the application always ends with the database writer, after the network loop and the
  workers that may still submit writes, whatever the shutdown hooks do; a hook that raises does not
  keep the next ones from running.
\<close>

theorem shutdown_order:
  "\<exists>hook_events. app_stop call finished hooks n = hook_events @ [L_network_stop, L_workers_shutdown, L_writer_stop] \<and>
    set hook_events \<subseteq> L_hook ` set hooks \<union> {L_hook_failed h e | h e. h \<in> set hooks \<and> call h = Some e} \<and>
    filter (\<lambda>x. \<exists>h. x = L_hook h) (shutdown_network_services call hooks) = map L_hook hooks"
proof -
  have all: "set (shutdown_network_services call hs) \<subseteq> L_hook ` set hs \<union> {L_hook_failed h e | h e. h \<in> set hs \<and> call h = Some e}" for hs
    by (induction hs) (auto split: option.splits)
  have order: "filter (\<lambda>x. \<exists>h. x = L_hook h) (shutdown_network_services call hs) = map L_hook hs" for hs
    by (induction hs) (auto split: option.splits)
  show ?thesis
    using all [of hooks] order [of hooks] set_take_subset [of finished "shutdown_network_services call hooks"]
    by (intro exI [of _ "if nw_loop n then take finished (shutdown_network_services call hooks) else []"])
      (auto simp: app_stop_def)
qed

end
