(* ===== verification/Scanner.thy ===== *)
theory Scanner
  imports Gateway Member_Store Runtime_Services
begin

text \<open>
  \<open>telegram/participant_scanner.py\<close>: a producer reads the participant pages of a group, a consumer
  stores them in batches; they share a bounded queue and run as the two tasks of a task group.  A
  state of the scan is what the two coroutines see at their \<open>await\<close>s; the step functions run one of
  them to its next \<open>await\<close>.  The pages the gateway yields, and the exception it may end with, are
  the stream of the \<open>Gateway\<close> theory.  The rate in the progress event, a wall-clock reading for the
  display, is left out.
\<close>

section \<open>State\<close>

record scan_checkpoint =
  sk_offset :: int
  sk_accepted :: int
  sk_invalid :: int
  sk_cancelled :: bool

definition ScanCheckpoint :: scan_checkpoint where
  "ScanCheckpoint = \<lparr>sk_offset = 0, sk_accepted = 0, sk_invalid = 0, sk_cancelled = False\<rparr>"

datatype scan_item = PageEnvelope "member list" int | Sentinel

text \<open>
  Where the producer waits: for the next page, for room in the queue, or, in its \<open>finally\<close> clause,
  for room for the sentinel.
\<close>

datatype producer_state =
    P_reading
  | P_put "member list" int
  | P_end "py_exc option"
  | P_done
  | P_failed py_exc
  | P_cancelled

text \<open>
  Where the consumer waits: for an item, for the ingest of its batch, or for the write of the
  checkpoint; the flag says that the sentinel has been taken.
\<close>

datatype consumer_state =
    C_get
  | C_ingest bool
  | C_checkpoint bool
  | C_done
  | C_failed py_exc
  | C_cancelled

record scan_job =
  sj_job_id :: int
  sj_account_id :: int
  sj_group :: group_context
  sj_dataset_id :: int

record scan_state =
  sc_db :: db
  sc_peers :: peer_memory
  sc_cp :: scan_checkpoint
  sc_cancel :: bool
  sc_queue :: "scan_item list"
  sc_pages :: page_stream
  sc_offset :: int
  sc_producer :: producer_state
  sc_consumer :: consumer_state
  sc_seen :: "int list"
  sc_batch :: "member list"
  sc_batch_offset :: int
  sc_events :: "json domain_event list"

section \<open>The two tasks\<close>

definition queue_has_room :: "scan_state \<Rightarrow> bool" where
  "queue_has_room s = (length (sc_queue s) < SCAN_PAGE_QUEUE_MAX)"

text \<open>One step of the producer; \<open>None\<close> when it is blocked or has ended.\<close>

definition producer_step :: "scan_state \<Rightarrow> scan_state option" where
  "producer_step s =
     (case sc_producer s of
        P_reading \<Rightarrow>
          (case sc_pages s of
             (pg # pgs, e) \<Rightarrow>
               if sc_cancel s then Some (s\<lparr>sc_producer := P_end None\<rparr>)
               else
                 let offset = sc_offset s + int (length pg) in
                 Some (s\<lparr>sc_pages := (pgs, e), sc_offset := offset, sc_producer := P_put pg offset\<rparr>)
           | ([], e) \<Rightarrow> Some (s\<lparr>sc_producer := P_end e\<rparr>))
      | P_put pg offset \<Rightarrow>
          if queue_has_room s
          then Some (s\<lparr>sc_queue := sc_queue s @ [PageEnvelope pg offset], sc_producer := P_reading\<rparr>)
          else None
      | P_end e \<Rightarrow>
          if queue_has_room s
          then Some (s\<lparr>sc_queue := sc_queue s @ [Sentinel],
                       sc_producer := (case e of None \<Rightarrow> P_done | Some x \<Rightarrow> P_failed x)\<rparr>)
          else None
      | _ \<Rightarrow> None)"

text \<open>The duplicate check over one page: members without an id are always kept.\<close>

fun take_page :: "member list \<Rightarrow> int list \<times> member list \<Rightarrow> int list \<times> member list" where
  "take_page [] acc = acc"
| "take_page (m # ms) (seen, batch) =
     (case mb_telegram_user_id m of
        None \<Rightarrow> take_page ms (seen, batch @ [m])
      | Some uid \<Rightarrow>
          if uid \<in> set seen then take_page ms (seen, batch)
          else take_page ms (seen @ [uid], batch @ [m]))"

definition batch_peers :: "int \<Rightarrow> member list \<Rightarrow> cached_peer list" where
  "batch_peers account_id batch =
     List.map_filter (\<lambda>m.
       case (mb_telegram_user_id m, mb_access_hash m) of
         (Some uid, Some h) \<Rightarrow>
           Some \<lparr>cp_account_id = account_id, cp_peer_id = uid, cp_peer_type = ''User'', cp_access_hash = Some h,
                 cp_username = mb_username m, cp_title = None\<rparr>
       | _ \<Rightarrow> None) batch"

text \<open>\<open>persist_batch\<close> up to its first \<open>await\<close>: nothing for an empty batch, else the hashes go to RAM.\<close>

definition begin_persist :: "scan_job \<Rightarrow> bool \<Rightarrow> scan_state \<Rightarrow> scan_state" where
  "begin_persist j final s =
     (if sc_batch s = [] then s\<lparr>sc_consumer := (if final then C_done else C_get)\<rparr>
      else s\<lparr>sc_peers := fold put_memory (batch_peers (sj_account_id j) (sc_batch s)) (sc_peers s),
             sc_consumer := C_ingest final\<rparr>)"

definition consume_item :: "scan_job \<Rightarrow> scan_item \<Rightarrow> scan_state \<Rightarrow> scan_state" where
  "consume_item j item s =
     (case item of
        Sentinel \<Rightarrow> begin_persist j True s
      | PageEnvelope pg next_offset \<Rightarrow>
          (case take_page pg (sc_seen s, sc_batch s) of
             (seen, batch) \<Rightarrow>
               let s1 = s\<lparr>sc_cp := (if sc_cancel s then (sc_cp s)\<lparr>sk_cancelled := True\<rparr> else sc_cp s),
                          sc_seen := seen, sc_batch := batch, sc_batch_offset := next_offset\<rparr>
               in if SCAN_DB_BATCH_SIZE \<le> length batch then begin_persist j False s1 else s1))"

text \<open>A write that the database may refuse for reasons of its own.\<close>

definition faulty :: "exn option \<Rightarrow> 'a dbop \<Rightarrow> 'a dbprog" where
  "faulty fault m d = (case fault of Some e \<Rightarrow> (Inl e, d) | None \<Rightarrow> transact m d)"

definition ingest_write :: "scan_job \<Rightarrow> scan_state \<Rightarrow> ingest_summary dbop" where
  "ingest_write j s =
     submit_ingest_batch (sj_dataset_id j) (sc_batch s) (gc_local_group_id (sj_group j))
       (Some (sj_account_id j)) (Some (gc_title (sj_group j)))"

definition cp_json :: "scan_checkpoint \<Rightarrow> checkpoint" where
  "cp_json cp =
     [(''offset'', JInt (sk_offset cp)), (''accepted'', JInt (sk_accepted cp)), (''invalid'', JInt (sk_invalid cp))]"

definition progress_event :: "scan_job \<Rightarrow> scan_state \<Rightarrow> json domain_event" where
  "progress_event j s =
     DomainEvent ''MemberScanProgress''
       ((''job_id'', JInt (sj_job_id j)) # cp_json (sc_cp s) @ [(''queue_depth'', JInt (int (length (sc_queue s))))])"

definition consumer_step :: "scan_job \<Rightarrow> exn option \<Rightarrow> scan_state \<Rightarrow> scan_state option" where
  "consumer_step j fault s =
     (case sc_consumer s of
        C_get \<Rightarrow>
          (case sc_queue s of
             [] \<Rightarrow> None
           | item # q \<Rightarrow> Some (consume_item j item (s\<lparr>sc_queue := q\<rparr>)))
      | C_ingest final \<Rightarrow>
          (case faulty fault (ingest_write j s) (sc_db s) of
             (Inl e, d) \<Rightarrow> Some (s\<lparr>sc_db := d, sc_consumer := C_failed (exn_exc e)\<rparr>)
           | (Inr z, d) \<Rightarrow>
               Some (s\<lparr>sc_db := d, sc_consumer := C_checkpoint final,
                       sc_cp := (sc_cp s)\<lparr>sk_accepted := sk_accepted (sc_cp s) + is_accepted z,
                                          sk_invalid := sk_invalid (sc_cp s) + is_invalid z,
                                          sk_offset := sc_batch_offset s\<rparr>\<rparr>))
      | C_checkpoint final \<Rightarrow>
          (case faulty fault (submit_checkpoint (sj_job_id j) (cp_json (sc_cp s))) (sc_db s) of
             (Inl e, d) \<Rightarrow> Some (s\<lparr>sc_db := d, sc_consumer := C_failed (exn_exc e)\<rparr>)
           | (Inr _, d) \<Rightarrow>
               Some (s\<lparr>sc_db := d, sc_events := sc_events s @ [progress_event j s], sc_batch := [],
                       sc_consumer := (if final then C_done else C_get)\<rparr>))
      | _ \<Rightarrow> None)"

section \<open>The task group\<close>

definition producer_ended :: "scan_state \<Rightarrow> bool" where
  "producer_ended s = (case sc_producer s of P_done \<Rightarrow> True | P_failed _ \<Rightarrow> True | P_cancelled \<Rightarrow> True | _ \<Rightarrow> False)"

definition consumer_ended :: "scan_state \<Rightarrow> bool" where
  "consumer_ended s = (case sc_consumer s of C_done \<Rightarrow> True | C_failed _ \<Rightarrow> True | C_cancelled \<Rightarrow> True | _ \<Rightarrow> False)"

definition scan_ended :: "scan_state \<Rightarrow> bool" where
  "scan_ended s = (producer_ended s \<and> consumer_ended s)"

text \<open>
  A task that fails cancels the other one at its \<open>await\<close>.  A write the consumer is waiting for has
  been queued already, so it is still made (\<open>late\<close>) unless the database refuses it.
\<close>

definition abort_step :: "scan_job \<Rightarrow> bool \<Rightarrow> scan_state \<Rightarrow> scan_state option" where
  "abort_step j late s =
     (case (sc_producer s, sc_consumer s) of
        (P_failed _, C_get) \<Rightarrow> Some (s\<lparr>sc_consumer := C_cancelled\<rparr>)
      | (P_failed _, C_ingest _) \<Rightarrow>
          Some (s\<lparr>sc_db := (if late then snd (transact (ingest_write j s) (sc_db s)) else sc_db s),
                  sc_consumer := C_cancelled\<rparr>)
      | (P_failed _, C_checkpoint _) \<Rightarrow>
          Some (s\<lparr>sc_db := (if late then snd (transact (submit_checkpoint (sj_job_id j) (cp_json (sc_cp s))) (sc_db s))
                             else sc_db s),
                  sc_consumer := C_cancelled\<rparr>)
      | (_, C_failed _) \<Rightarrow> if producer_ended s then None else Some (s\<lparr>sc_producer := P_cancelled\<rparr>)
      | _ \<Rightarrow> None)"

text \<open>\<open>cancel\<close> of a job that is being scanned.\<close>

definition scan_cancel :: "scan_state \<Rightarrow> scan_state" where
  "scan_cancel s = s\<lparr>sc_cancel := True\<rparr>"

section \<open>The scan\<close>

text \<open>The two writes before the tasks are started, and the state the tasks start in.\<close>

definition scan_begin :: "scan_job \<Rightarrow> scan_checkpoint \<Rightarrow> unit dbprog" where
  "scan_begin j cp =
     pbind (transact (submit_set_state (sj_job_id j) JS_RUNNING None
              (Some [(''offset'', JInt (sk_offset cp)), (''accepted'', JInt (sk_accepted cp))]) False)) (\<lambda>_.
     pbind (transact (submit_event (sj_job_id j) ''INFO'' ''SCAN_STARTED'' (Some (''offset='' @ int_str (sk_offset cp))) None)) (\<lambda>_.
       preturn ()))"

definition scan_init :: "db \<Rightarrow> peer_memory \<Rightarrow> scan_checkpoint option \<Rightarrow> page_stream \<Rightarrow> scan_state" where
  "scan_init d mem checkpoint pages =
     (let cp = (case checkpoint of None \<Rightarrow> ScanCheckpoint | Some c \<Rightarrow> c) in
      \<lparr>sc_db = d, sc_peers = mem, sc_cp = cp, sc_cancel = False, sc_queue = [], sc_pages = pages,
       sc_offset = sk_offset cp, sc_producer = P_reading, sc_consumer = C_get, sc_seen = [], sc_batch = [],
       sc_batch_offset = sk_offset cp, sc_events = []\<rparr>)"

text \<open>The exceptions the task group raises together, as one exception group.\<close>

definition task_errors :: "scan_state \<Rightarrow> py_exc list" where
  "task_errors s =
     (case sc_producer s of P_failed e \<Rightarrow> [e] | _ \<Rightarrow> []) @ (case sc_consumer s of C_failed e \<Rightarrow> [e] | _ \<Rightarrow> [])"

definition exception_group :: "py_exc list \<Rightarrow> py_exc" where
  "exception_group es =
     py_error ''ExceptionGroup''
       (''unhandled errors in a TaskGroup ('' @ int_str (int (length es)) @ '' sub-exception'' @
        (if length es = 1 then [] else ''s'') @ '')'')"

text \<open>The success path: the final state, its event and the completion event.\<close>

definition scan_succeed :: "scan_job \<Rightarrow> exn option \<Rightarrow> exn option \<Rightarrow> scan_checkpoint \<Rightarrow> unit dbprog" where
  "scan_succeed j f1 f2 cp =
     pbind (faulty f1 (submit_set_state (sj_job_id j) (if sk_cancelled cp then JS_CANCELLED else JS_COMPLETED) None
              (Some (cp_json cp)) False)) (\<lambda>_.
     pbind (faulty f2 (submit_event (sj_job_id j) ''INFO''
              (if sk_cancelled cp then ''SCAN_CANCELLED'' else ''SCAN_COMPLETED'')
              (Some (''accepted='' @ int_str (sk_accepted cp) @ '' invalid='' @ int_str (sk_invalid cp) @
                     '' offset='' @ int_str (sk_offset cp))) None)) (\<lambda>_.
       preturn ()))"

definition completed_event :: "scan_job \<Rightarrow> scan_checkpoint \<Rightarrow> json domain_event" where
  "completed_event j cp =
     DomainEvent ''MemberScanCompleted''
       [(''job_id'', JInt (sj_job_id j)), (''dataset_id'', JInt (sj_dataset_id j)), (''accepted'', JInt (sk_accepted cp)),
        (''invalid'', JInt (sk_invalid cp)), (''cancelled'', JBool (sk_cancelled cp))]"

text \<open>The \<open>except\<close> clause, which raises the exception again unless one of its writes raises another.\<close>

definition scan_fail :: "scan_job \<Rightarrow> py_exc \<Rightarrow> scan_state \<Rightarrow> (py_exc + scan_checkpoint) \<times> scan_state" where
  "scan_fail j exc s =
     (case pbind (transact (submit_set_state (sj_job_id j) JS_FAILED None
                    (Some (cp_json (sc_cp s) @ [(''error'', JStr (ex_text exc))])) False)) (\<lambda>_.
             transact (submit_event (sj_job_id j) ''ERROR'' ''SCAN_FAILED'' (Some (ex_text exc)) None)) (sc_db s) of
        (Inl e, d) \<Rightarrow> (Inl (exn_exc e), s\<lparr>sc_db := d\<rparr>)
      | (Inr _, d) \<Rightarrow>
          (Inl exc, s\<lparr>sc_db := d, sc_events := sc_events s @
             [DomainEvent ''JobFailed'' [(''job_id'', JInt (sj_job_id j)), (''error'', JStr (ex_text exc))]]\<rparr>))"

definition scan_finish ::
  "scan_job \<Rightarrow> exn option \<Rightarrow> exn option \<Rightarrow> scan_state \<Rightarrow> (py_exc + scan_checkpoint) \<times> scan_state" where
  "scan_finish j f1 f2 s =
     (if task_errors s \<noteq> [] then scan_fail j (exception_group (task_errors s)) s
      else
        let cp = (sc_cp s)\<lparr>sk_cancelled := (sk_cancelled (sc_cp s) \<or> sc_cancel s)\<rparr> in
        case scan_succeed j f1 f2 cp (sc_db s) of
          (Inl e, d) \<Rightarrow> scan_fail j (exn_exc e) (s\<lparr>sc_db := d, sc_cp := cp\<rparr>)
        | (Inr _, d) \<Rightarrow> (Inr cp, s\<lparr>sc_db := d, sc_cp := cp, sc_events := sc_events s @ [completed_event j cp]\<rparr>))"

section \<open>Interleavings\<close>

text \<open>
  A step of one of the two tasks or of the task group, in any order; besides, the user may cancel
  and the other writers may change the database as long as no user id leaves the dataset and the
  row of the job, which only its own scan checkpoints, keeps its checkpoint.
\<close>

inductive scan_task_step :: "scan_job \<Rightarrow> scan_state \<Rightarrow> scan_state \<Rightarrow> bool" for j where
  produce: "producer_step s = Some s' \<Longrightarrow> scan_task_step j s s'"
| consume: "consumer_step j fault s = Some s' \<Longrightarrow> scan_task_step j s s'"
| abort: "abort_step j late s = Some s' \<Longrightarrow> scan_task_step j s s'"

inductive scan_reachable :: "scan_job \<Rightarrow> db \<Rightarrow> peer_memory \<Rightarrow> scan_checkpoint option \<Rightarrow> page_stream \<Rightarrow> scan_state \<Rightarrow> bool"
  for j d0 mem checkpoint pages where
  initial: "scan_reachable j d0 mem checkpoint pages (scan_init d0 mem checkpoint pages)"
| task: "scan_reachable j d0 mem checkpoint pages s \<Longrightarrow> scan_task_step j s s' \<Longrightarrow> scan_reachable j d0 mem checkpoint pages s'"
| cancel: "scan_reachable j d0 mem checkpoint pages s \<Longrightarrow> scan_reachable j d0 mem checkpoint pages (scan_cancel s)"
| other: "scan_reachable j d0 mem checkpoint pages s \<Longrightarrow> db_wf d \<Longrightarrow>
    (\<And>u. user_in (sj_dataset_id j) u (sc_db s) \<Longrightarrow> user_in (sj_dataset_id j) u d) \<Longrightarrow>
    map_option j_checkpoint_json (job_get (sj_job_id j) d) = map_option j_checkpoint_json (job_get (sj_job_id j) (sc_db s)) \<Longrightarrow>
    scan_reachable j d0 mem checkpoint pages (s\<lparr>sc_db := d\<rparr>)"

inductive_cases scan_task_stepE: "scan_task_step j s s'"

section \<open>Control: the sentinel and the task group\<close>

fun sentinel_sent :: "producer_state \<Rightarrow> bool" where
  "sentinel_sent P_done = True"
| "sentinel_sent (P_failed _) = True"
| "sentinel_sent _ = False"

fun sentinel_taken :: "consumer_state \<Rightarrow> bool" where
  "sentinel_taken (C_ingest final) = final"
| "sentinel_taken (C_checkpoint final) = final"
| "sentinel_taken C_done = True"
| "sentinel_taken _ = False"

fun consumer_loops :: "consumer_state \<Rightarrow> bool" where
  "consumer_loops C_get = True"
| "consumer_loops (C_ingest final) = (\<not> final)"
| "consumer_loops (C_checkpoint final) = (\<not> final)"
| "consumer_loops _ = False"

definition control_ok :: "scan_item list \<Rightarrow> producer_state \<Rightarrow> consumer_state \<Rightarrow> bool" where
  "control_ok q p c \<longleftrightarrow>
     length q \<le> SCAN_PAGE_QUEUE_MAX \<and>
     (if sentinel_sent p \<and> consumer_loops c then \<exists>pgs. q = pgs @ [Sentinel] \<and> Sentinel \<notin> set pgs
      else sentinel_sent p \<or> Sentinel \<notin> set q) \<and>
     (sentinel_taken c \<longrightarrow> q = [] \<and> sentinel_sent p) \<and>
     (p = P_cancelled \<longrightarrow> (\<exists>e. c = C_failed e)) \<and>
     (c = C_cancelled \<longrightarrow> (\<exists>e. p = P_failed e))"

abbreviation control_inv :: "scan_state \<Rightarrow> bool" where
  "control_inv s \<equiv> control_ok (sc_queue s) (sc_producer s) (sc_consumer s)"

lemma control_producer:
  assumes "control_inv s" "producer_step s = Some s'"
  shows "control_inv s'"
proof (cases "sc_producer s")
  case P_reading
  then show ?thesis using assms
    by (cases "fst (sc_pages s)"; cases "sc_pages s")
      (auto simp: producer_step_def control_ok_def Let_def split: if_splits)
next
  case (P_put pg off)
  then show ?thesis using assms
    by (auto simp: producer_step_def control_ok_def queue_has_room_def split: if_splits)
next
  case (P_end e)
  then show ?thesis using assms
    by (cases "sc_consumer s"; cases e)
      (auto simp: producer_step_def control_ok_def queue_has_room_def split: if_splits)
qed (use assms in \<open>auto simp: producer_step_def\<close>)

lemma begin_persist_control [simp]:
  "sc_queue (begin_persist j final s) = sc_queue s" "sc_producer (begin_persist j final s) = sc_producer s"
  "sc_consumer (begin_persist j final s) = (if sc_batch s = [] then if final then C_done else C_get else C_ingest final)"
  by (simp_all add: begin_persist_def)

lemma consume_item_control:
  "sc_queue (consume_item j i s) = sc_queue s" "sc_producer (consume_item j i s) = sc_producer s"
  "sc_consumer s = C_get \<Longrightarrow>
     sc_consumer (consume_item j i s) \<in> (if i = Sentinel then {C_done, C_ingest True} else {C_get, C_ingest False})"
  by (auto simp: consume_item_def Let_def split: scan_item.splits prod.splits)

lemma control_consumer:
  assumes "control_inv s" "consumer_step j fault s = Some s'"
  shows "control_inv s'"
proof (cases "sc_consumer s")
  case C_get
  obtain i q where q: "sc_queue s = i # q" and s': "s' = consume_item j i (s\<lparr>sc_queue := q\<rparr>)"
    using assms(2) C_get by (auto simp: consumer_step_def split: list.splits)
  have c: "sc_consumer s' \<in> (if i = Sentinel then {C_done, C_ingest True} else {C_get, C_ingest False})"
    unfolding s' by (rule consume_item_control) (simp add: C_get)
  have *: "sc_queue s' = q" "sc_producer s' = sc_producer s" by (simp_all add: s' consume_item_control)
  have "sentinel_sent (sc_producer s) \<Longrightarrow> \<exists>pgs. i # q = pgs @ [Sentinel] \<and> Sentinel \<notin> set pgs"
    "\<not> sentinel_sent (sc_producer s) \<Longrightarrow> Sentinel \<notin> set (i # q)"
    using assms(1) C_get q by (auto simp: control_ok_def)
  then have "if i = Sentinel then q = [] \<and> sentinel_sent (sc_producer s)
      else if sentinel_sent (sc_producer s) then \<exists>pgs. q = pgs @ [Sentinel] \<and> Sentinel \<notin> set pgs else Sentinel \<notin> set q"
    by (cases "sentinel_sent (sc_producer s)") (auto simp: Cons_eq_append_conv)
  then show ?thesis using assms(1) C_get q c * by (auto simp: control_ok_def split: if_splits)
next
  case (C_ingest final)
  then show ?thesis using assms
    by (cases final) (auto simp: consumer_step_def control_ok_def split: prod.splits sum.splits)
next
  case (C_checkpoint final)
  then show ?thesis using assms
    by (cases final) (auto simp: consumer_step_def control_ok_def split: prod.splits sum.splits)
qed (use assms in \<open>auto simp: consumer_step_def\<close>)

lemma abort_effect:
  assumes "abort_step j late s = Some s'"
  shows "(\<exists>e d. sc_producer s = P_failed e \<and> sc_consumer s \<noteq> C_done \<and> s' = s\<lparr>sc_db := d, sc_consumer := C_cancelled\<rparr> \<and>
      d \<in> {sc_db s, snd (transact (ingest_write j s) (sc_db s)),
           snd (transact (submit_checkpoint (sj_job_id j) (cp_json (sc_cp s))) (sc_db s))}) \<or>
    (\<exists>e. sc_consumer s = C_failed e \<and> \<not> producer_ended s \<and> s' = s\<lparr>sc_producer := P_cancelled\<rparr>)"
proof (cases "\<exists>e. sc_consumer s = C_failed e")
  case True
  then show ?thesis using assms by (cases "sc_producer s") (auto simp: abort_step_def producer_ended_def)
next
  case False
  then obtain e where e: "sc_producer s = P_failed e"
    using assms by (cases "sc_producer s"; cases "sc_consumer s") (simp_all add: abort_step_def)
  then have "\<exists>d. s' = s\<lparr>sc_db := d, sc_consumer := C_cancelled\<rparr> \<and>
      d \<in> {sc_db s, snd (transact (ingest_write j s) (sc_db s)),
           snd (transact (submit_checkpoint (sj_job_id j) (cp_json (sc_cp s))) (sc_db s))}"
    using assms False
    by (intro exI [of _ "sc_db s'"], cases "sc_consumer s") (auto simp: abort_step_def)
  moreover have "sc_consumer s \<noteq> C_done" using assms e by (auto simp: abort_step_def)
  ultimately show ?thesis using e by blast
qed

lemma control_abort:
  assumes "control_inv s" "abort_step j late s = Some s'"
  shows "control_inv s'"
  using abort_effect [OF assms(2)]
proof (elim disjE exE conjE)
  fix e d assume "sc_producer s = P_failed e" "s' = s\<lparr>sc_db := d, sc_consumer := C_cancelled\<rparr>"
  then show ?thesis using assms(1) by (auto simp: control_ok_def split: if_splits)
next
  fix e assume "sc_consumer s = C_failed e" "\<not> producer_ended s" "s' = s\<lparr>sc_producer := P_cancelled\<rparr>"
  then show ?thesis using assms(1)
    by (cases "sc_producer s") (simp_all add: control_ok_def producer_ended_def)
qed

lemma control_reachable: "scan_reachable j d0 mem cp pages s \<Longrightarrow> control_inv s"
proof (induction rule: scan_reachable.induct)
  case initial
  then show ?case by (simp add: scan_init_def control_ok_def Let_def)
next
  case (task s s')
  then show ?case by (auto elim!: scan_task_stepE intro: control_producer control_consumer control_abort)
qed (simp_all add: scan_cancel_def)

section \<open>A scan always ends\<close>

text \<open>The work that is left, as a number that every step of the tasks decreases.\<close>

fun consumer_work :: "consumer_state \<Rightarrow> nat" where
  "consumer_work C_get = 1"
| "consumer_work (C_ingest _) = 3"
| "consumer_work (C_checkpoint _) = 2"
| "consumer_work _ = 0"

fun producer_work :: "nat \<Rightarrow> producer_state \<Rightarrow> nat" where
  "producer_work n P_reading = 8 * n + 10"
| "producer_work n (P_put _ _) = 8 * n + 15"
| "producer_work n (P_end _) = 9"
| "producer_work n _ = 0"

definition scan_work :: "scan_state \<Rightarrow> nat" where
  "scan_work s = producer_work (length (fst (sc_pages s))) (sc_producer s) + 4 * length (sc_queue s) + consumer_work (sc_consumer s)"

lemma work_producer: "producer_step s = Some s' \<Longrightarrow> scan_work s' < scan_work s"
  by (cases "sc_producer s"; cases "sc_pages s"; cases "fst (sc_pages s)")
    (auto simp: producer_step_def scan_work_def Let_def split: if_splits option.splits)

lemma consume_item_work:
  "sc_consumer s = C_get \<Longrightarrow> consumer_work (sc_consumer (consume_item j i s)) \<le> 3"
  using consume_item_control(3) [of s j i] by (auto split: if_splits)

lemma consume_item_pages [simp]: "sc_pages (consume_item j i s) = sc_pages s"
  by (auto simp: consume_item_def begin_persist_def Let_def split: scan_item.splits prod.splits)

lemma work_consumer:
  assumes "consumer_step j fault s = Some s'"
  shows "scan_work s' < scan_work s"
proof (cases "sc_consumer s")
  case C_get
  obtain i q where q: "sc_queue s = i # q" and s': "s' = consume_item j i (s\<lparr>sc_queue := q\<rparr>)"
    using assms C_get by (auto simp: consumer_step_def split: list.splits)
  show ?thesis using q C_get consume_item_work [of "s\<lparr>sc_queue := q\<rparr>" j i]
    by (simp add: s' scan_work_def consume_item_control)
qed (use assms in \<open>auto simp: consumer_step_def scan_work_def split: prod.splits sum.splits if_splits\<close>)

lemma work_abort: "abort_step j late s = Some s' \<Longrightarrow> scan_work s' < scan_work s"
  by (cases "sc_consumer s"; cases "sc_producer s")
    (auto simp: abort_step_def scan_work_def producer_ended_def split: if_splits)

lemma consumer_enabled:
  "sc_consumer s = C_get \<Longrightarrow> sc_queue s \<noteq> [] \<Longrightarrow> consumer_step j None s \<noteq> None"
  "sc_consumer s = C_ingest f \<Longrightarrow> consumer_step j None s \<noteq> None"
  "sc_consumer s = C_checkpoint f \<Longrightarrow> consumer_step j None s \<noteq> None"
  by (auto simp: consumer_step_def neq_Nil_conv split: prod.splits sum.splits)

lemma producer_enabled: "\<not> producer_ended s \<Longrightarrow> queue_has_room s \<Longrightarrow> producer_step s \<noteq> None"
  by (cases "sc_producer s"; cases "sc_pages s"; cases "fst (sc_pages s)")
    (auto simp: producer_step_def producer_ended_def Let_def)

lemma not_stuck:
  assumes "control_inv s" "\<not> scan_ended s"
  shows "\<exists>s'. scan_task_step j s s'"
proof -
  have room: "sc_queue s = [] \<Longrightarrow> queue_has_room s" by (simp add: queue_has_room_def SCAN_PAGE_QUEUE_MAX_def)
  have full: "\<not> queue_has_room s \<Longrightarrow> sc_queue s \<noteq> []" using room by blast
  have "producer_step s \<noteq> None \<or> consumer_step j None s \<noteq> None \<or> abort_step j False s \<noteq> None"
  proof (cases "sc_consumer s")
    case C_get
    show ?thesis
    proof (cases "sc_queue s = []")
      case True
      then have "\<not> sentinel_sent (sc_producer s)" "sc_producer s \<noteq> P_cancelled"
        using assms(1) C_get by (auto simp: control_ok_def)
      then have "\<not> producer_ended s" by (cases "sc_producer s") (auto simp: producer_ended_def)
      then show ?thesis using producer_enabled room True by blast
    qed (use consumer_enabled(1) C_get in blast)
  next
    case C_done
    then have "sentinel_sent (sc_producer s)" using assms(1) by (simp add: control_ok_def)
    then show ?thesis using assms(2) C_done
      by (cases "sc_producer s") (auto simp: scan_ended_def producer_ended_def consumer_ended_def)
  next
    case (C_failed e)
    then show ?thesis using assms(2)
      by (cases "sc_producer s") (auto simp: abort_step_def scan_ended_def producer_ended_def consumer_ended_def)
  next
    case C_cancelled
    then show ?thesis using assms
      by (auto simp: control_ok_def scan_ended_def producer_ended_def consumer_ended_def)
  qed (use consumer_enabled in blast)+
  then show ?thesis by (auto intro: scan_task_step.intros)
qed

section \<open>The final write\<close>

lemma set_job_state:
  "\<exists>d1. submit_set_state i st None (Some c) False d = Inr ((), d1) \<and>
     job_get i d1 = map_option (state_row st None (Some c) False (db_now d)) (job_get i d) \<and>
     t_members d1 = t_members d \<and> t_dataset_members d1 = t_dataset_members d"
  by (simp add: submit_set_state_def update_jobs_apply) (subst job_get_update, simp_all)

lemma job_event_frame:
  "submit_event i l c m u d = Inr (x, d') \<Longrightarrow>
     job_get i d' = job_get i d \<and> t_members d' = t_members d \<and> t_dataset_members d' = t_dataset_members d"
  by (auto simp: submit_event_def insert_event_def job_get_def Let_def split: if_splits)

text \<open>The row of a job in a state, with a checkpoint, and the users of every dataset as they were.\<close>

definition job_final :: "int \<Rightarrow> job_state \<Rightarrow> checkpoint \<Rightarrow> db \<Rightarrow> db \<Rightarrow> bool" where
  "job_final i st c d d' \<longleftrightarrow>
     map_option (\<lambda>r. (j_state r, j_checkpoint_json r)) (job_get i d') = map_option (\<lambda>_. (st, Some (CkptJson c))) (job_get i d) \<and>
     t_members d' = t_members d \<and> t_dataset_members d' = t_dataset_members d"

lemma set_state_and_event:
  assumes "pbind (faulty f1 (submit_set_state i st None (Some c) False)) (\<lambda>_. pbind (faulty f2 (submit_event i l ec m u)) (\<lambda>_. preturn ())) d = (r, d')"
  shows "(r = Inr () \<longrightarrow> job_final i st c d d') \<and>
    map_option (\<lambda>_. ()) (job_get i d') = map_option (\<lambda>_. ()) (job_get i d) \<and> t_members d' = t_members d \<and> t_dataset_members d' = t_dataset_members d"
proof -
  obtain d1 where d1: "submit_set_state i st None (Some c) False d = Inr ((), d1)"
    "job_get i d1 = map_option (state_row st None (Some c) False (db_now d)) (job_get i d)"
    "t_members d1 = t_members d" "t_dataset_members d1 = t_dataset_members d" using set_job_state by blast
  then show ?thesis using assms
    by (cases "submit_event i l ec m u d1")
       (auto simp: faulty_def pbind_def preturn_def transact_def job_final_def option.map_comp comp_def
        dest!: job_event_frame split: option.splits)
qed

lemma scan_fail_final:
  "job_final (sj_job_id j) JS_FAILED (cp_json (sc_cp s) @ [(''error'', JStr (ex_text e))]) (sc_db s) (sc_db (snd (scan_fail j e s)))"
  "\<exists>x. fst (scan_fail j e s) = Inl x" "sc_cp (snd (scan_fail j e s)) = sc_cp s"
proof -
  let ?c = "cp_json (sc_cp s) @ [(''error'', JStr (ex_text e))]"
  obtain d1 where "submit_set_state (sj_job_id j) JS_FAILED None (Some ?c) False (sc_db s) = Inr ((), d1)"
    "job_get (sj_job_id j) d1 = map_option (state_row JS_FAILED None (Some ?c) False (db_now (sc_db s))) (job_get (sj_job_id j) (sc_db s))"
    "t_members d1 = t_members (sc_db s)" "t_dataset_members d1 = t_dataset_members (sc_db s)" using set_job_state by blast
  then show "job_final (sj_job_id j) JS_FAILED ?c (sc_db s) (sc_db (snd (scan_fail j e s)))"
    "\<exists>x. fst (scan_fail j e s) = Inl x" "sc_cp (snd (scan_fail j e s)) = sc_cp s"
    by (cases "submit_event (sj_job_id j) ''ERROR'' ''SCAN_FAILED'' (Some (ex_text e)) None d1",
        auto simp: scan_fail_def pbind_def transact_def job_final_def option.map_comp comp_def dest!: job_event_frame)+
qed

text \<open>
  However the tasks ended, the row of the job is in the state of the outcome, with the checkpoint
  of the scan.
\<close>

definition final_state :: "py_exc + scan_checkpoint \<Rightarrow> job_state" where
  "final_state outcome =
     (case outcome of Inl _ \<Rightarrow> JS_FAILED | Inr cp \<Rightarrow> if sk_cancelled cp then JS_CANCELLED else JS_COMPLETED)"

lemma scan_finish_final:
  "\<exists>extra. job_final (sj_job_id j) (final_state (fst (scan_finish j f1 f2 s))) (cp_json (sc_cp s) @ extra)
     (sc_db s) (sc_db (snd (scan_finish j f1 f2 s)))"
proof (cases "task_errors s = []")
  case True
  define cp where "cp = (sc_cp s)\<lparr>sk_cancelled := (sk_cancelled (sc_cp s) \<or> sc_cancel s)\<rparr>"
  have same: "cp_json cp = cp_json (sc_cp s)" by (simp add: cp_def cp_json_def)
  obtain r d where w: "scan_succeed j f1 f2 cp (sc_db s) = (r, d)" by fastforce
  note eff = set_state_and_event [OF w [unfolded scan_succeed_def]]
  show ?thesis
  proof (cases r)
    case (Inr u)
    have "job_final (sj_job_id j) (final_state (Inr cp)) (cp_json (sc_cp s) @ []) (sc_db s) d"
      using eff Inr same by (simp add: final_state_def)
    then show ?thesis using True w Inr by (intro exI [of _ "[]"]) (simp add: scan_finish_def Let_def cp_def [symmetric])
  next
    case (Inl e)
    let ?s = "s\<lparr>sc_db := d, sc_cp := cp\<rparr>"
    note fin = scan_fail_final [where j = j and s = ?s and e = "exn_exc e"]
    obtain x where x: "fst (scan_fail j (exn_exc e) ?s) = Inl x" using fin(2) by blast
    have "job_final (sj_job_id j) JS_FAILED (cp_json (sc_cp s) @ [(''error'', JStr (ex_text (exn_exc e)))]) (sc_db s)
        (sc_db (snd (scan_fail j (exn_exc e) ?s)))"
      using fin(1) eff same by (auto simp: job_final_def map_option_case split: option.splits)
    then show ?thesis using True w Inl x
      by - (rule exI [of _ "[(''error'', JStr (ex_text (exn_exc e)))]"], simp add: scan_finish_def Let_def cp_def [symmetric] final_state_def)
  qed
next
  case False
  let ?e = "exception_group (task_errors s)"
  obtain x where "fst (scan_fail j ?e s) = Inl x" using scan_fail_final(2) by blast
  then show ?thesis using False scan_fail_final(1) [where j = j and s = s and e = ?e]
    by - (rule exI [of _ "[(''error'', JStr (ex_text ?e))]"], simp add: scan_finish_def final_state_def)
qed

text \<open>
  C4. A scan always ends, whatever the order in which its two tasks run and whichever of them
  fails: as long as one of them has not ended a step is possible, so a full or an empty queue never
  blocks them for good, and every step decreases the work that is left, which is bounded by the
  number of pages.  Then the job is out of \<open>RUNNING\<close>: its row, when it has one, ends as \<open>COMPLETED\<close>,
  \<open>CANCELLED\<close> or \<open>FAILED\<close>, the last exactly when the scan raises, even when the database refuses one
  of the two writes of the success path.  The queue never holds more than four items.
\<close>

theorem scan_always_ends:
  assumes "scan_reachable j d0 mem checkpoint pages s"
  shows "(scan_ended s \<or> (\<exists>s'. scan_task_step j s s')) \<and>
    (\<forall>s'. scan_task_step j s s' \<longrightarrow> scan_work s' < scan_work s) \<and>
    scan_work (scan_init d0 mem checkpoint pages) \<le> 8 * length (fst pages) + 11 \<and> length (sc_queue s) \<le> 4 \<and>
    (case scan_finish j f1 f2 s of (outcome, s') \<Rightarrow>
       map_option j_state (job_get (sj_job_id j) (sc_db s')) =
       map_option (\<lambda>_. case outcome of Inl _ \<Rightarrow> JS_FAILED | Inr cp \<Rightarrow> if sk_cancelled cp then JS_CANCELLED else JS_COMPLETED)
         (job_get (sj_job_id j) (sc_db s)))"
proof -
  have c: "control_inv s" by (rule control_reachable [OF assms])
  then have q: "length (sc_queue s) \<le> 4" by (simp add: control_ok_def SCAN_PAGE_QUEUE_MAX_def)
  have fin: "map_option j_state (job_get (sj_job_id j) (sc_db (snd (scan_finish j f1 f2 s)))) =
      map_option (\<lambda>_. final_state (fst (scan_finish j f1 f2 s))) (job_get (sj_job_id j) (sc_db s))"
    using scan_finish_final [of j f1 f2 s] by (auto simp: job_final_def map_option_case split: option.splits)
  show ?thesis using not_stuck [OF c] q fin
    by (auto elim!: scan_task_stepE dest: work_producer work_consumer work_abort
        simp: scan_init_def scan_work_def Let_def final_state_def split: prod.splits)
qed

section \<open>What is stored\<close>

definition uids :: "member list \<Rightarrow> int set" where
  "uids ms = {u. \<exists>m \<in> set ms. mb_telegram_user_id m = Some u}"

lemma uids_simps [simp]: "uids [] = {}" "uids (xs @ ys) = uids xs \<union> uids ys"
  "uids (m # ms) = (case mb_telegram_user_id m of None \<Rightarrow> {} | Some u \<Rightarrow> {u}) \<union> uids ms"
  by (auto simp: uids_def split: option.splits)

abbreviation stored_users :: "scan_job \<Rightarrow> db \<Rightarrow> int set" where
  "stored_users j d \<equiv> {u. user_in (sj_dataset_id j) u d}"

lemma take_page_effect:
  assumes "take_page pg (seen, batch) = (seen', batch')"
  shows "uids batch \<subseteq> uids batch' \<and> uids pg \<subseteq> set seen \<union> uids batch' \<and> set seen' \<subseteq> set seen \<union> uids batch'"
  using assms
proof (induction pg arbitrary: seen batch)
  case (Cons m ms)
  show ?case
  proof (cases "mb_telegram_user_id m")
    case None
    then have "take_page ms (seen, batch @ [m]) = (seen', batch')" using Cons.prems by simp
    from Cons.IH [OF this] None show ?thesis by auto
  next
    case (Some u)
    show ?thesis
    proof (cases "u \<in> set seen")
      case True
      then have "take_page ms (seen, batch) = (seen', batch')" using Cons.prems Some by simp
      from Cons.IH [OF this] Some True show ?thesis by auto
    next
      case False
      then have "take_page ms (seen @ [u], batch @ [m]) = (seen', batch')" using Cons.prems Some by simp
      from Cons.IH [OF this] Some show ?thesis by auto
    qed
  qed
qed simp

lemma ingest_write_users:
  assumes "db_wf (sc_db s)" "ingest_write j s (sc_db s) = Inr (z, d)"
  shows "db_wf d" "stored_users j (sc_db s) \<union> uids (sc_batch s) \<subseteq> stored_users j d"
proof -
  obtain d1 where loop: "ingest_loop (sj_dataset_id j) (gc_local_group_id (sj_group j)) (Some (sj_account_id j))
      (Some (gc_title (sj_group j))) (sc_batch s) \<lparr>is_accepted = 0, is_invalid = 0, is_local_member_ids = []\<rparr> (sc_db s) = Inr (z, d1)"
    and d: "recount (sj_dataset_id j) d1 = Inr ((), d)"
    using assms(2) by (auto simp: ingest_write_def submit_ingest_batch_def dbind_Inr)
  note eff = ingest_loop_effect [OF assms(1) loop]
  show "db_wf d" using keeps_wfD [OF upsert_writes_wf(3) _ d] eff by blast
  have "user_in (sj_dataset_id j) u d = user_in (sj_dataset_id j) u d1" for u
    using d by (auto simp: recount_def update_datasets_def user_in_def)
  then show "stored_users j (sc_db s) \<union> uids (sc_batch s) \<subseteq> stored_users j d"
    using eff by (auto simp: uids_def)
qed

lemma submit_checkpoint_users:
  "submit_checkpoint i c d = Inr (x, d') \<Longrightarrow> stored_users j d' = stored_users j d"
  by (auto simp: submit_checkpoint_def update_jobs_apply user_in_def)

text \<open>
  The pages of the stream are those the consumer has taken, those in the queue and in the hands of
  the producer, and those not read yet; each envelope carries the offset after its page.
\<close>

fun stamped :: "int \<Rightarrow> member list list \<Rightarrow> (member list \<times> int) list" where
  "stamped b [] = []"
| "stamped b (p # ps) = (p, b + int (length p)) # stamped (b + int (length p)) ps"

lemma stamped_append: "stamped b (ps @ [p]) = stamped b ps @ [(p, b + int (length (concat ps)) + int (length p))]"
  by (induction ps arbitrary: b) auto

fun envelope :: "scan_item \<Rightarrow> (member list \<times> int) list" where
  "envelope (PageEnvelope p off) = [(p, off)]"
| "envelope Sentinel = []"

fun held :: "producer_state \<Rightarrow> (member list \<times> int) list" where
  "held (P_put p off) = [(p, off)]"
| "held _ = []"

fun producer_reads :: "producer_state \<Rightarrow> bool" where
  "producer_reads P_reading = True"
| "producer_reads (P_put _ _) = True"
| "producer_reads _ = False"

text \<open>A producer that is cancelled may drop the page it holds.\<close>

definition in_flight :: "scan_item list \<Rightarrow> producer_state \<Rightarrow> (member list \<times> int) list \<Rightarrow> bool" where
  "in_flight q p ls =
     (let have = concat (map envelope q) @ held p in if p = P_cancelled then prefix have ls else have = ls)"

lemma in_flight_simps [simp]:
  "in_flight q P_reading ls \<longleftrightarrow> concat (map envelope q) = ls"
  "in_flight q (P_put pg off) ls \<longleftrightarrow> concat (map envelope q) @ [(pg, off)] = ls"
  "in_flight q (P_end e) ls \<longleftrightarrow> concat (map envelope q) = ls"
  "in_flight q P_done ls \<longleftrightarrow> concat (map envelope q) = ls"
  "in_flight q (P_failed x) ls \<longleftrightarrow> concat (map envelope q) = ls"
  "in_flight q P_cancelled ls \<longleftrightarrow> prefix (concat (map envelope q)) ls"
  "in_flight (Sentinel # q) p ls = in_flight q p ls"
  by (auto simp: in_flight_def)

lemma in_flight_Cons:
  "in_flight (PageEnvelope pg off # q) p ls \<longleftrightarrow> (\<exists>ls'. ls = (pg, off) # ls' \<and> in_flight q p ls')"
  by (cases ls) (auto simp: in_flight_def Let_def)

definition flight_ok :: "int \<Rightarrow> page_stream \<Rightarrow> member list list \<Rightarrow> member list list \<Rightarrow> member list list \<Rightarrow> scan_state \<Rightarrow> bool" where
  "flight_ok b pages dn fl rest s \<longleftrightarrow>
     fst pages = dn @ fl @ rest \<and> sc_batch_offset s = b + int (length (concat dn)) \<and>
     in_flight (sc_queue s) (sc_producer s) (stamped (sc_batch_offset s) fl) \<and>
     (producer_reads (sc_producer s) \<longrightarrow> sc_pages s = (rest, snd pages) \<and> sc_offset s = b + int (length (concat (dn @ fl)))) \<and>
     (sc_producer s \<in> {P_end None, P_done} \<longrightarrow> sc_cancel s \<or> rest = [] \<and> snd pages = None)"

definition stored_ok :: "scan_job \<Rightarrow> int \<Rightarrow> member list list \<Rightarrow> scan_state \<Rightarrow> bool" where
  "stored_ok j b dn s \<longleftrightarrow>
     db_wf (sc_db s) \<and>
     uids (concat dn) \<union> set (sc_seen s) \<subseteq> stored_users j (sc_db s) \<union> uids (sc_batch s) \<and>
     (sc_consumer s = C_done \<or> (\<exists>f. sc_consumer s = C_checkpoint f) \<longrightarrow>
        uids (concat dn) \<union> set (sc_seen s) \<subseteq> stored_users j (sc_db s)) \<and>
     (\<exists>k \<le> length dn. sk_offset (sc_cp s) = b + int (length (concat (take k dn))) \<and>
        uids (concat (take k dn)) \<subseteq> stored_users j (sc_db s))"

text \<open>What the two invariants do not look at.\<close>

lemma flight_frame [simp]:
  "flight_ok b pages dn fl rest (s\<lparr>sc_db := d\<rparr>) = flight_ok b pages dn fl rest s"
  "flight_ok b pages dn fl rest (s\<lparr>sc_peers := m\<rparr>) = flight_ok b pages dn fl rest s"
  "flight_ok b pages dn fl rest (s\<lparr>sc_cp := c\<rparr>) = flight_ok b pages dn fl rest s"
  "flight_ok b pages dn fl rest (s\<lparr>sc_consumer := k\<rparr>) = flight_ok b pages dn fl rest s"
  "flight_ok b pages dn fl rest (s\<lparr>sc_seen := ids\<rparr>) = flight_ok b pages dn fl rest s"
  "flight_ok b pages dn fl rest (s\<lparr>sc_batch := ms\<rparr>) = flight_ok b pages dn fl rest s"
  "flight_ok b pages dn fl rest (s\<lparr>sc_events := evs\<rparr>) = flight_ok b pages dn fl rest s"
  by (simp_all add: flight_ok_def)

lemma stored_frame [simp]:
  "stored_ok j b dn (s\<lparr>sc_peers := m\<rparr>) = stored_ok j b dn s"
  "stored_ok j b dn (s\<lparr>sc_cancel := cl\<rparr>) = stored_ok j b dn s"
  "stored_ok j b dn (s\<lparr>sc_queue := q\<rparr>) = stored_ok j b dn s"
  "stored_ok j b dn (s\<lparr>sc_pages := ps\<rparr>) = stored_ok j b dn s"
  "stored_ok j b dn (s\<lparr>sc_offset := off\<rparr>) = stored_ok j b dn s"
  "stored_ok j b dn (s\<lparr>sc_producer := p\<rparr>) = stored_ok j b dn s"
  "stored_ok j b dn (s\<lparr>sc_batch_offset := boff\<rparr>) = stored_ok j b dn s"
  "stored_ok j b dn (s\<lparr>sc_events := evs\<rparr>) = stored_ok j b dn s"
  by (simp_all add: stored_ok_def)

lemma flight_producer:
  assumes "flight_ok b pages dn fl rest s" "producer_step s = Some s'"
  shows "\<exists>fl' rest'. flight_ok b pages dn fl' rest' s'"
proof (cases "sc_producer s")
  case P_reading
  have pg: "sc_pages s = (rest, snd pages)" using assms(1) P_reading by (simp add: flight_ok_def)
  show ?thesis
  proof (cases rest)
    case Nil
    then show ?thesis using assms P_reading pg by - (rule exI [of _ fl], rule exI [of _ rest], auto simp: flight_ok_def producer_step_def)
  next
    case (Cons p ps)
    show ?thesis
    proof (cases "sc_cancel s")
      case True
      then show ?thesis using assms P_reading pg Cons
        by - (rule exI [of _ fl], rule exI [of _ rest], auto simp: flight_ok_def producer_step_def)
    next
      case False
      then show ?thesis using assms P_reading pg Cons
        by - (rule exI [of _ "fl @ [p]"], rule exI [of _ ps], auto simp: flight_ok_def producer_step_def Let_def stamped_append)
    qed
  qed
next
  case (P_put p off)
  then show ?thesis using assms
    by - (rule exI [of _ fl], rule exI [of _ rest], auto simp: flight_ok_def producer_step_def split: if_splits)
next
  case (P_end e)
  then show ?thesis using assms
    by - (rule exI [of _ fl], rule exI [of _ rest], auto simp: flight_ok_def producer_step_def split: if_splits option.splits)
qed (use assms in \<open>auto simp: producer_step_def\<close>)

lemma stored_producer: "stored_ok j b dn s \<Longrightarrow> producer_step s = Some s' \<Longrightarrow> stored_ok j b dn s'"
  by (auto simp: producer_step_def Let_def split: producer_state.splits prod.splits list.splits if_splits)

lemma flight_abort:
  assumes "flight_ok b pages dn fl rest s" "abort_step j late s = Some s'"
  shows "flight_ok b pages dn fl rest s'"
  using abort_effect [OF assms(2)]
proof (elim disjE exE conjE)
  fix e d assume "s' = s\<lparr>sc_db := d, sc_consumer := C_cancelled\<rparr>"
  then show ?thesis using assms(1) by simp
next
  fix e assume "\<not> producer_ended s" "s' = s\<lparr>sc_producer := P_cancelled\<rparr>"
  then show ?thesis using assms(1)
    by (cases "sc_producer s") (auto simp: flight_ok_def producer_ended_def intro: prefixI [OF sym])
qed

lemma stored_db:
  "stored_ok j b dn s \<Longrightarrow> db_wf d \<Longrightarrow> stored_users j (sc_db s) \<subseteq> stored_users j d \<Longrightarrow> stored_ok j b dn (s\<lparr>sc_db := d\<rparr>)"
  unfolding stored_ok_def by simp blast

lemma stored_consumer_state:
  "stored_ok j b dn s \<Longrightarrow> c \<noteq> C_done \<Longrightarrow> (\<And>f. c \<noteq> C_checkpoint f) \<Longrightarrow> stored_ok j b dn (s\<lparr>sc_consumer := c\<rparr>)"
  by (simp add: stored_ok_def)

text \<open>The writes of the consumer keep what is stored, whether they commit or not.\<close>

lemma write_keeps_users:
  assumes "db_wf (sc_db s)"
  shows "db_wf (snd (transact (ingest_write j s) (sc_db s))) \<and>
      stored_users j (sc_db s) \<subseteq> stored_users j (snd (transact (ingest_write j s) (sc_db s)))"
    and "db_wf (snd (transact (submit_checkpoint i c) (sc_db s))) \<and>
      stored_users j (snd (transact (submit_checkpoint i c) (sc_db s))) = stored_users j (sc_db s)"
proof -
  show "db_wf (snd (transact (ingest_write j s) (sc_db s))) \<and>
      stored_users j (sc_db s) \<subseteq> stored_users j (snd (transact (ingest_write j s) (sc_db s)))"
    using ingest_write_users [of s j] assms by (cases "ingest_write j s (sc_db s)") (auto simp: transact_def)
  show "db_wf (snd (transact (submit_checkpoint i c) (sc_db s))) \<and>
      stored_users j (snd (transact (submit_checkpoint i c) (sc_db s))) = stored_users j (sc_db s)"
    using keeps_wfD [OF submit_checkpoint_wf assms, of i c "()"]
    by (auto simp: submit_checkpoint_def update_jobs_apply transact_def user_in_def)
qed

lemma stored_wf: "stored_ok j b dn s \<Longrightarrow> db_wf (sc_db s)"
  by (simp add: stored_ok_def)

lemma stored_abort:
  assumes "stored_ok j b dn s" "abort_step j late s = Some s'"
  shows "stored_ok j b dn s'"
  using abort_effect [OF assms(2)]
proof (elim disjE exE conjE)
  fix e d assume s': "s' = s\<lparr>sc_db := d, sc_consumer := C_cancelled\<rparr>"
    and d: "d \<in> {sc_db s, snd (transact (ingest_write j s) (sc_db s)),
           snd (transact (submit_checkpoint (sj_job_id j) (cp_json (sc_cp s))) (sc_db s))}"
  note keep = write_keeps_users [OF stored_wf [OF assms(1)]]
  have "db_wf d \<and> stored_users j (sc_db s) \<subseteq> stored_users j d"
    using d keep(1) [of j] keep(2) [of "sj_job_id j" "cp_json (sc_cp s)" j] stored_wf [OF assms(1)]
    by (metis empty_iff insert_iff order_refl)
  then show ?thesis unfolding s' by (intro stored_consumer_state stored_db [OF assms(1)]) simp_all
qed (simp add: assms(1))

lemma begin_persist_ok:
  "flight_ok b pages dn fl rest s \<Longrightarrow> flight_ok b pages dn fl rest (begin_persist j final s)"
  "stored_ok j b dn s \<Longrightarrow> stored_ok j b dn (begin_persist j final s)"
  by (auto simp: begin_persist_def flight_ok_def stored_ok_def)

lemma consume_page_flight:
  assumes "flight_ok b pages dn fl rest s" "sc_queue s = PageEnvelope pg off # q"
  obtains fl' where "fl = pg # fl'" "off = sc_batch_offset s + int (length pg)"
    "flight_ok b pages (dn @ [pg]) fl' rest (s\<lparr>sc_queue := q, sc_cp := cp, sc_seen := seen, sc_batch := batch, sc_batch_offset := off\<rparr>)"
proof -
  have "in_flight (PageEnvelope pg off # q) (sc_producer s) (stamped (sc_batch_offset s) fl)"
    using assms(1) [unfolded flight_ok_def assms(2)] by blast
  then obtain fl' where fl: "fl = pg # fl'" and off: "off = sc_batch_offset s + int (length pg)"
    and tl: "in_flight q (sc_producer s) (stamped off fl')"
    by (cases fl) (auto simp: in_flight_Cons)
  have "flight_ok b pages (dn @ [pg]) fl' rest
      (s\<lparr>sc_queue := q, sc_cp := cp, sc_seen := seen, sc_batch := batch, sc_batch_offset := off\<rparr>)"
    using assms fl off tl by (auto simp: flight_ok_def)
  then show ?thesis using that fl off by blast
qed

lemma consume_page_stored:
  assumes "stored_ok j b dn s" "sc_consumer s = C_get" "take_page pg (sc_seen s, sc_batch s) = (seen, batch)"
    and "sk_offset cp = sk_offset (sc_cp s)"
  shows "stored_ok j b (dn @ [pg]) (s\<lparr>sc_queue := q, sc_cp := cp, sc_seen := seen, sc_batch := batch, sc_batch_offset := off\<rparr>)"
proof -
  note eff = take_page_effect [OF assms(3)]
  obtain k where k: "k \<le> length dn" "sk_offset (sc_cp s) = b + int (length (concat (take k dn)))"
    "uids (concat (take k dn)) \<subseteq> stored_users j (sc_db s)"
    using assms(1) by (auto simp: stored_ok_def)
  then have "\<exists>k \<le> length (dn @ [pg]). sk_offset cp = b + int (length (concat (take k (dn @ [pg])))) \<and>
      uids (concat (take k (dn @ [pg]))) \<subseteq> stored_users j (sc_db s)"
    using assms(4) by (intro exI [of _ k]) simp
  then show ?thesis using assms(1,2) eff by (simp add: stored_ok_def) blast
qed

lemma data_consumer_get:
  assumes "flight_ok b pages dn fl rest s" "stored_ok j b dn s" "sc_consumer s = C_get" "consumer_step j fault s = Some s'"
  shows "\<exists>dn' fl'. flight_ok b pages dn' fl' rest s' \<and> stored_ok j b dn' s'"
proof -
  obtain i q where q: "sc_queue s = i # q" and s': "s' = consume_item j i (s\<lparr>sc_queue := q\<rparr>)"
    using assms(3,4) by (auto simp: consumer_step_def split: list.splits)
  show ?thesis
  proof (cases i)
    case Sentinel
    have "flight_ok b pages dn fl rest (s\<lparr>sc_queue := q\<rparr>)" using assms(1) q Sentinel by (auto simp: flight_ok_def)
    moreover have "stored_ok j b dn (s\<lparr>sc_queue := q\<rparr>)" using assms(2) by simp
    ultimately
    show ?thesis unfolding s' Sentinel consume_item_def scan_item.case by (blast intro: begin_persist_ok)
  next
    case (PageEnvelope pg off)
    obtain seen batch where tp: "take_page pg (sc_seen s, sc_batch s) = (seen, batch)" by fastforce
    define cp where "cp = (if sc_cancel s then (sc_cp s)\<lparr>sk_cancelled := True\<rparr> else sc_cp s)"
    let ?s1 = "s\<lparr>sc_queue := q, sc_cp := cp, sc_seen := seen, sc_batch := batch, sc_batch_offset := off\<rparr>"
    obtain fl' where fl: "flight_ok b pages (dn @ [pg]) fl' rest ?s1"
      using consume_page_flight [OF assms(1) q [unfolded PageEnvelope]] .
    moreover have st: "stored_ok j b (dn @ [pg]) ?s1"
      by (rule consume_page_stored [OF assms(2,3) tp]) (simp add: cp_def)
    moreover have "s' = (if SCAN_DB_BATCH_SIZE \<le> length batch then begin_persist j False ?s1 else ?s1)"
      by (simp add: s' PageEnvelope consume_item_def tp cp_def Let_def)
    ultimately have "flight_ok b pages (dn @ [pg]) fl' rest s' \<and> stored_ok j b (dn @ [pg]) s'"
      using begin_persist_ok(1) [OF fl, of j False] begin_persist_ok(2) [OF st, of False] by presburger
    then show ?thesis by blast
  qed
qed

lemma data_consumer_write:
  assumes "stored_ok j b dn s" "sc_batch_offset s = b + int (length (concat dn))"
    and "sc_consumer s = C_ingest f \<or> sc_consumer s = C_checkpoint f" "consumer_step j fault s = Some s'"
  shows "stored_ok j b dn s'"
proof (cases "faulty fault (ingest_write j s) (sc_db s)")
  case (Pair r d)
  note wf = stored_wf [OF assms(1)]
  show ?thesis
  proof (cases "sc_consumer s")
    case (C_ingest final)
    show ?thesis
    proof (cases r)
      case (Inl e)
      then have "d = sc_db s" using Pair by (auto simp: faulty_def transact_def split: option.splits sum.splits prod.splits)
      then show ?thesis using assms(1,4) C_ingest Pair Inl by (auto simp: consumer_step_def stored_ok_def)
    next
      case (Inr z)
      then have "ingest_write j s (sc_db s) = Inr (z, d)"
        using Pair by (auto simp: faulty_def transact_def split: option.splits sum.splits prod.splits)
      note users = ingest_write_users [OF wf this]
      have all: "uids (concat dn) \<union> set (sc_seen s) \<subseteq> stored_users j d"
        using assms(1) users(2) unfolding stored_ok_def by blast
      then have "\<exists>k \<le> length dn. sc_batch_offset s = b + int (length (concat (take k dn))) \<and> uids (concat (take k dn)) \<subseteq> stored_users j d"
        using assms(2) by (intro exI [of _ "length dn"]) simp
      then show ?thesis using assms(4) C_ingest Pair Inr users(1) all by (auto simp: consumer_step_def stored_ok_def)
    qed
  next
    case (C_checkpoint final)
    obtain r' d' where w: "faulty fault (submit_checkpoint (sj_job_id j) (cp_json (sc_cp s))) (sc_db s) = (r', d')" by fastforce
    have d': "db_wf d'" "stored_users j d' = stored_users j (sc_db s)"
      using w wf write_keeps_users(2) [OF wf, of "sj_job_id j" "cp_json (sc_cp s)" j]
      by (auto simp: faulty_def split: option.splits)
    have st: "stored_ok j b dn (s\<lparr>sc_db := d'\<rparr>)" by (rule stored_db [OF assms(1)]) (simp_all add: d')
    have all: "uids (concat dn) \<union> set (sc_seen s) \<subseteq> stored_users j d'"
      using assms(1) C_checkpoint d' by (auto simp: stored_ok_def)
    show ?thesis using assms(4) C_checkpoint w st all
      by (cases r') (auto simp: consumer_step_def stored_ok_def)
  qed (use assms(3) in auto)
qed

lemma flight_consumer_write:
  "flight_ok b pages dn fl rest s \<Longrightarrow> sc_consumer s \<noteq> C_get \<Longrightarrow> consumer_step j fault s = Some s' \<Longrightarrow> flight_ok b pages dn fl rest s'"
  by (auto simp: consumer_step_def split: consumer_state.splits prod.splits sum.splits)

definition start_offset :: "scan_checkpoint option \<Rightarrow> int" where
  "start_offset checkpoint = sk_offset (case checkpoint of None \<Rightarrow> ScanCheckpoint | Some c \<Rightarrow> c)"

lemma data_step:
  assumes "flight_ok b pages dn fl rest s" "stored_ok j b dn s" "scan_task_step j s s'"
  shows "\<exists>dn fl rest. flight_ok b pages dn fl rest s' \<and> stored_ok j b dn s'"
  using assms(3)
proof cases
  case produce
  then show ?thesis using flight_producer [OF assms(1)] stored_producer [OF assms(2)] by blast
next
  case (consume fault)
  show ?thesis
  proof (cases "sc_consumer s = C_get")
    case True
    then show ?thesis using data_consumer_get [OF assms(1,2) _ consume] by blast
  next
    case False
    then obtain f where "sc_consumer s = C_ingest f \<or> sc_consumer s = C_checkpoint f"
      using consume by (cases "sc_consumer s") (auto simp: consumer_step_def)
    then show ?thesis
      using data_consumer_write [OF assms(2) _ _ consume] flight_consumer_write [OF assms(1) False consume] assms(1)
      unfolding flight_ok_def by blast
  qed
next
  case (abort late)
  then show ?thesis using flight_abort [OF assms(1)] stored_abort [OF assms(2)] by blast
qed

lemma data_reachable:
  assumes "scan_reachable j d0 mem checkpoint pages s" "db_wf d0"
  shows "\<exists>dn fl rest. flight_ok (start_offset checkpoint) pages dn fl rest s \<and> stored_ok j (start_offset checkpoint) dn s"
  using assms
proof (induction rule: scan_reachable.induct)
  case initial
  have "flight_ok (start_offset checkpoint) pages [] [] (fst pages) (scan_init d0 mem checkpoint pages)"
    by (simp add: flight_ok_def scan_init_def start_offset_def Let_def)
  moreover have "stored_ok j (start_offset checkpoint) [] (scan_init d0 mem checkpoint pages)"
    using initial by (simp add: stored_ok_def scan_init_def start_offset_def Let_def)
  ultimately show ?case by blast
next
  case (task s s')
  then show ?case using data_step by blast
next
  case (cancel s)
  then obtain dn fl rest where "flight_ok (start_offset checkpoint) pages dn fl rest s" "stored_ok j (start_offset checkpoint) dn s" by blast
  then have "flight_ok (start_offset checkpoint) pages dn fl rest (scan_cancel s)" "stored_ok j (start_offset checkpoint) dn (scan_cancel s)"
    by (simp_all add: scan_cancel_def) (auto simp: flight_ok_def)
  then show ?case by blast
next
  case (other s d)
  then obtain dn fl rest where st: "flight_ok (start_offset checkpoint) pages dn fl rest s" "stored_ok j (start_offset checkpoint) dn s" by blast
  have "stored_ok j (start_offset checkpoint) dn (s\<lparr>sc_db := d\<rparr>)"
    by (rule stored_db [OF st(2) other.hyps(2)]) (use other.hyps(3) in blast)
  moreover have "flight_ok (start_offset checkpoint) pages dn fl rest (s\<lparr>sc_db := d\<rparr>)" using st(1) by (auto simp: flight_ok_def)
  ultimately show ?case by blast
qed

lemma ended_without_errors:
  assumes "control_inv s" "scan_ended s" "task_errors s = []"
  shows "sc_producer s = P_done \<and> sc_consumer s = C_done \<and> sc_queue s = []"
  using assms
  by (cases "sc_producer s"; cases "sc_consumer s")
    (auto simp: scan_ended_def producer_ended_def consumer_ended_def task_errors_def control_ok_def)

section \<open>The checkpoint in the row of the job\<close>

text \<open>Storing members leaves the jobs alone.\<close>

named_theorems job_frames \<open>operations that leave the jobs alone\<close>

definition keeps_jobs :: "'a dbop \<Rightarrow> bool" where
  "keeps_jobs m = (\<forall>d x d'. m d = Inr (x, d') \<longrightarrow> t_jobs d' = t_jobs d)"

lemma keeps_jobsI: "(\<And>d x d'. m d = Inr (x, d') \<Longrightarrow> t_jobs d' = t_jobs d) \<Longrightarrow> keeps_jobs m"
  by (simp add: keeps_jobs_def)

lemma keeps_jobs_plain [job_frames]:
  "keeps_jobs (dreturn v)" "keeps_jobs (dselect q)"
  by (auto simp: keeps_jobs_def)

lemma keeps_jobs_dbind [job_frames]: "keeps_jobs m \<Longrightarrow> (\<And>x. keeps_jobs (f x)) \<Longrightarrow> keeps_jobs (dbind m f)"
  unfolding keeps_jobs_def dbind_Inr by metis

lemma keeps_jobs_dfold [job_frames]: "(\<And>x. keeps_jobs (f x)) \<Longrightarrow> keeps_jobs (dfold f xs)"
proof (induction xs)
  case (Cons x xs)
  then have "keeps_jobs (dbind (f x) (\<lambda>_. dfold f xs))" by (intro keeps_jobs_dbind) auto
  then show ?case by simp
qed (simp add: keeps_jobs_plain)

lemma keeps_jobs_branch [job_frames]:
  "keeps_jobs m \<Longrightarrow> keeps_jobs n \<Longrightarrow> keeps_jobs (if b then m else n)"
  "keeps_jobs m \<Longrightarrow> (\<And>x. keeps_jobs (f x)) \<Longrightarrow> keeps_jobs (case v of None \<Rightarrow> m | Some x \<Rightarrow> f x)"
  "(\<And>x y. keeps_jobs (g x y)) \<Longrightarrow> keeps_jobs (case pr of (x, y) \<Rightarrow> g x y)"
  by (auto split: option.splits prod.splits)

lemma keeps_jobs_statements [job_frames]:
  "keeps_jobs (update_datasets p f)" "keeps_jobs (update_member i g)" "keeps_jobs (insert_member mk)"
  "keeps_jobs (delete_member_row i)" "keeps_jobs (insert_dataset_member_or_ignore r)"
  "keeps_jobs (insert_provenance_or_ignore q)" "keeps_jobs (upsert_peer pr h)"
  by (auto simp: keeps_jobs_def update_datasets_def update_member_def insert_member_def delete_member_row_def
      insert_dataset_member_or_ignore_def insert_provenance_or_ignore_def upsert_peer_def Let_def
      split: if_splits option.splits)

lemma keeps_jobs_upsert [job_frames]: "keeps_jobs (upsert_one m)"
proof -
  have row: "keeps_jobs (upsert_user_row uid m)" for uid m
  proof (rule keeps_jobsI)
    fix d x d' assume "upsert_user_row uid m d = Inr (x, d')"
    then show "t_jobs d' = t_jobs d"
      using keeps_jobs_statements(2) [of _ "set_values m"] keeps_jobs_statements(3) [of "new_member_row m"]
      unfolding keeps_jobs_def upsert_user_row_def ignore_result_def dbind_Inr
      by (auto simp: dbind_Inr split: option.splits)
  qed
  show ?thesis
    unfolding upsert_one_def upsert_user_def upsert_named_def merge_fallback_row_def ignore_result_def Let_def
    by (intro job_frames row)
qed

lemma keeps_jobs_ingest [job_frames]: "keeps_jobs (ingest_loop ds g a l ms z)"
proof (induction ms arbitrary: z)
  case (Cons m ms)
  have "keeps_jobs (ingest_one ds g a l m z)"
    unfolding ingest_one_def cache_member_def by (intro job_frames)
  then show ?case using Cons by (simp add: keeps_jobs_dbind)
qed (simp add: keeps_jobs_plain)

lemma ingest_write_jobs: "ingest_write j s d = Inr (z, d') \<Longrightarrow> t_jobs d' = t_jobs d"
proof -
  have "keeps_jobs (ingest_write j s)"
    unfolding ingest_write_def submit_ingest_batch_def recount_def by (intro job_frames)
  then show "ingest_write j s d = Inr (z, d') \<Longrightarrow> t_jobs d' = t_jobs d" by (auto simp: keeps_jobs_def)
qed

text \<open>The checkpoint column of the job, if there is such a job.\<close>

abbreviation job_ckpt :: "scan_job \<Rightarrow> db \<Rightarrow> ckpt_text option option" where
  "job_ckpt j d \<equiv> map_option j_checkpoint_json (job_get (sj_job_id j) d)"

text \<open>A step leaves the column alone or writes the checkpoint of the scan, and nobody leaves the dataset.\<close>

lemma step_checkpoint:
  assumes "scan_task_step j s s'" "db_wf (sc_db s)"
  shows "stored_users j (sc_db s) \<subseteq> stored_users j (sc_db s') \<and>
    (job_ckpt j (sc_db s') = job_ckpt j (sc_db s) \<or>
     job_ckpt j (sc_db s') = map_option (\<lambda>_. Some (CkptJson (cp_json (sc_cp s)))) (job_get (sj_job_id j) (sc_db s)))"
proof -
  have ingest: "job_ckpt j (snd (transact (ingest_write j s) (sc_db s))) = job_ckpt j (sc_db s)"
    by (cases "ingest_write j s (sc_db s)") (auto simp: transact_def job_get_def dest: ingest_write_jobs)
  have check: "job_ckpt j (snd (transact (submit_checkpoint (sj_job_id j) c) (sc_db s))) =
      map_option (\<lambda>_. Some (CkptJson c)) (job_get (sj_job_id j) (sc_db s))" for c
    by (simp add: transact_def submit_checkpoint_def update_jobs_apply)
       (subst job_get_update, simp_all add: option.map_comp comp_def)
  note keep = write_keeps_users [OF assms(2)]
  have writes: "stored_users j (sc_db s) \<subseteq> stored_users j d \<and>
    (job_ckpt j d = job_ckpt j (sc_db s) \<or> job_ckpt j d = map_option (\<lambda>_. Some (CkptJson (cp_json (sc_cp s)))) (job_get (sj_job_id j) (sc_db s)))"
    if "d \<in> {sc_db s, snd (transact (ingest_write j s) (sc_db s)),
           snd (transact (submit_checkpoint (sj_job_id j) (cp_json (sc_cp s))) (sc_db s))}" for d
    using that ingest check keep(1) [of j] keep(2) [of "sj_job_id j" "cp_json (sc_cp s)" j] by auto
  show ?thesis using assms(1)
  proof cases
    case produce
    then have "sc_db s' = sc_db s"
      by (auto simp: producer_step_def Let_def split: producer_state.splits prod.splits list.splits if_splits)
    then show ?thesis using writes by simp
  next
    case (consume fault)
    have item: "sc_db (consume_item j i t) = sc_db t" for i t
      by (simp add: consume_item_def begin_persist_def Let_def split: scan_item.splits prod.splits)
    have "sc_db s' \<in> {sc_db s, snd (transact (ingest_write j s) (sc_db s)),
           snd (transact (submit_checkpoint (sj_job_id j) (cp_json (sc_cp s))) (sc_db s))}"
      using consume by (auto simp: consumer_step_def faulty_def item
          split: consumer_state.splits list.splits option.splits prod.splits sum.splits)
    then show ?thesis by (rule writes)
  next
    case (abort late)
    then show ?thesis using abort_effect [OF abort] writes by fastforce
  qed
qed

text \<open>
  An offset that can be resumed from: it is the end of a page, and every user on the pages before
  it is in the dataset.
\<close>

definition resumable :: "scan_job \<Rightarrow> int \<Rightarrow> page_stream \<Rightarrow> db \<Rightarrow> int \<Rightarrow> bool" where
  "resumable j b pages d offset \<longleftrightarrow>
     (\<exists>k \<le> length (fst pages). offset = b + int (length (concat (take k (fst pages)))) \<and>
        uids (concat (take k (fst pages))) \<subseteq> {u. user_in (sj_dataset_id j) u d})"

lemma resumable_mono: "resumable j b pages d off \<Longrightarrow> stored_users j d \<subseteq> stored_users j d' \<Longrightarrow> resumable j b pages d' off"
  unfolding resumable_def by blast

lemma memory_resumable:
  assumes "flight_ok b pages dn fl rest s" "stored_ok j b dn s"
  shows "resumable j b pages (sc_db s) (sk_offset (sc_cp s))"
proof -
  obtain k where k: "k \<le> length dn" "sk_offset (sc_cp s) = b + int (length (concat (take k dn)))"
    "uids (concat (take k dn)) \<subseteq> stored_users j (sc_db s)" using assms(2) by (auto simp: stored_ok_def)
  have "fst pages = dn @ fl @ rest" using assms(1) by (simp add: flight_ok_def)
  then show ?thesis unfolding resumable_def using k by (intro exI [of _ k]) simp
qed

text \<open>What \<open>get_checkpoint\<close> reads, whose offset a resumed scan starts from.\<close>

definition row_resumable :: "scan_job \<Rightarrow> int \<Rightarrow> page_stream \<Rightarrow> db \<Rightarrow> bool" where
  "row_resumable j b pages d \<longleftrightarrow>
     (\<exists>offset. map_of (get_checkpoint (sj_job_id j) d) ''offset'' = Some (JInt offset) \<and> resumable j b pages d offset)"

lemma row_resumable_written:
  assumes "job_ckpt j d = Some (Some (CkptJson (cp_json cp @ extra)))" "resumable j b pages d (sk_offset cp)"
  shows "row_resumable j b pages d"
  using assms by (auto simp: row_resumable_def get_checkpoint_def cp_json_def)

lemma row_resumable_kept:
  assumes "job_ckpt j d' = job_ckpt j d" "stored_users j d \<subseteq> stored_users j d'" "row_resumable j b pages d"
  shows "row_resumable j b pages d'"
proof -
  have "get_checkpoint (sj_job_id j) d' = get_checkpoint (sj_job_id j) d"
    using assms(1) by (auto simp: get_checkpoint_def map_option_case split: option.splits)
  then show ?thesis using assms(2,3) resumable_mono unfolding row_resumable_def by metis
qed

lemma row_step:
  assumes "flight_ok b pages dn fl rest s" "stored_ok j b dn s" "scan_task_step j s s'"
    and "row_resumable j b pages (sc_db s)" "job_get (sj_job_id j) (sc_db s) \<noteq> None"
  shows "row_resumable j b pages (sc_db s') \<and> job_get (sj_job_id j) (sc_db s') \<noteq> None"
proof -
  note step = step_checkpoint [OF assms(3) stored_wf [OF assms(2)]]
  have res: "resumable j b pages (sc_db s') (sk_offset (sc_cp s))"
    using resumable_mono [OF memory_resumable [OF assms(1,2)]] step by blast
  from step show ?thesis
  proof (elim conjE disjE)
    assume "stored_users j (sc_db s) \<subseteq> stored_users j (sc_db s')" "job_ckpt j (sc_db s') = job_ckpt j (sc_db s)"
    then show ?thesis using row_resumable_kept [OF _ _ assms(4)] assms(5) by (metis option.map_disc_iff)
  next
    assume ck: "job_ckpt j (sc_db s') = map_option (\<lambda>_. Some (CkptJson (cp_json (sc_cp s)))) (job_get (sj_job_id j) (sc_db s))"
    then have "job_ckpt j (sc_db s') = Some (Some (CkptJson (cp_json (sc_cp s) @ [])))" using assms(5) by auto
    from row_resumable_written [OF this res] ck assms(5) show ?thesis by auto
  qed
qed

lemma row_reachable:
  assumes "scan_reachable j d0 mem checkpoint pages s" "db_wf d0"
    and "row_resumable j (start_offset checkpoint) pages d0" "job_get (sj_job_id j) d0 \<noteq> None"
  shows "row_resumable j (start_offset checkpoint) pages (sc_db s) \<and> job_get (sj_job_id j) (sc_db s) \<noteq> None"
  using assms
proof (induction rule: scan_reachable.induct)
  case (task s s')
  then show ?case using data_reachable [OF task.hyps(1) task.prems(1)] row_step by blast
next
  case (other s d)
  have "job_get (sj_job_id j) d \<noteq> None" using other by (metis option.map_disc_iff)
  moreover have "row_resumable j (start_offset checkpoint) pages d"
    using row_resumable_kept [OF other.hyps(4)] other by blast
  ultimately show ?case by simp
qed (simp_all add: scan_init_def scan_cancel_def Let_def)

text \<open>The two writes before the tasks put the start into the row.\<close>

lemma scan_begin_effect:
  assumes "scan_begin j cp d = (r, d0)" "db_wf d" "job_get (sj_job_id j) d \<noteq> None"
  shows "db_wf d0 \<and> job_get (sj_job_id j) d0 \<noteq> None \<and> row_resumable j (sk_offset cp) pages d0"
proof -
  let ?c = "[(''offset'', JInt (sk_offset cp)), (''accepted'', JInt (sk_accepted cp))]"
  obtain d1 where d1: "submit_set_state (sj_job_id j) JS_RUNNING None (Some ?c) False d = Inr ((), d1)"
    "job_get (sj_job_id j) d1 = map_option (state_row JS_RUNNING None (Some ?c) False (db_now d)) (job_get (sj_job_id j) d)"
    using set_job_state by blast
  have wf1: "db_wf d1" by (rule keeps_wfD [OF submit_set_state_wf assms(2) d1(1)])
  have "d0 = d1 \<or> (\<exists>x. submit_event (sj_job_id j) ''INFO'' ''SCAN_STARTED'' (Some (''offset='' @ int_str (sk_offset cp))) None d1 = Inr (x, d0))"
    using assms(1) d1(1) by (auto simp: scan_begin_def pbind_def preturn_def transact_def split: sum.splits prod.splits)
  then have d0: "db_wf d0" "job_get (sj_job_id j) d0 = job_get (sj_job_id j) d1"
    using wf1 keeps_wfD [OF submit_event_wf wf1] job_event_frame by blast+
  have "get_checkpoint (sj_job_id j) d0 = ?c" using d0(2) d1(2) assms(3) by (auto simp: get_checkpoint_def)
  moreover have "resumable j (sk_offset cp) pages d0 (sk_offset cp)"
    unfolding resumable_def by (intro exI [of _ 0]) simp
  ultimately show ?thesis using d0 d1(2) assms(3) by (auto simp: row_resumable_def)
qed

lemma job_final_users: "job_final i st c d d' \<Longrightarrow> stored_users j d' = stored_users j d"
  by (simp add: job_final_def user_in_def)

text \<open>A scan that ends without an error or a cancellation has read and stored everything.\<close>

lemma uncancelled_complete:
  assumes "db_wf d0" "scan_reachable j d0 mem checkpoint pages s"
    and "scan_ended s" "scan_finish j f1 f2 s = (Inr cp, s')" "\<not> sk_cancelled cp"
  shows "snd pages = None \<and> uids (concat (fst pages)) \<subseteq> stored_users j (sc_db s)"
proof -
  obtain dn fl rest where fl: "flight_ok (start_offset checkpoint) pages dn fl rest s"
    and st: "stored_ok j (start_offset checkpoint) dn s" using data_reachable [OF assms(2,1)] by blast
  have ok: "task_errors s = []" and cp: "cp = (sc_cp s)\<lparr>sk_cancelled := (sk_cancelled (sc_cp s) \<or> sc_cancel s)\<rparr>"
    using assms(4) by (auto simp: scan_finish_def scan_fail_def Let_def split: if_splits prod.splits sum.splits)
  have done_: "sc_producer s = P_done" "sc_consumer s = C_done" "sc_queue s = []"
    using ended_without_errors [OF control_reachable [OF assms(2)] assms(3) ok] by simp_all
  have "uids (concat dn) \<subseteq> stored_users j (sc_db s)" using st done_(2) by (auto simp: stored_ok_def)
  moreover have "fl = []" using fl done_ by (cases fl) (auto simp: flight_ok_def)
  moreover have "rest = [] \<and> snd pages = None" using fl done_(1) cp assms(5) by (auto simp: flight_ok_def)
  moreover have "fst pages = dn @ fl @ rest" using fl by (simp add: flight_ok_def)
  ultimately show ?thesis by simp
qed

text \<open>
  C9. The stored checkpoint of a scan can be trusted at every moment, in every interleaving of
  reading, storing, cancelling, failing and other writes.  From the two writes that open the scan
  on, \<open>get_checkpoint\<close> on the row of the job reads an offset that is the end of a page, with every
  user on the pages before it in the dataset, so a scan resumed from it loses nobody; the checkpoint
  in memory is as good, and the final write of the scan, also after a failure, keeps this.  A scan
  that reports an uncancelled completion has read the group to its end and stored every user of it.
\<close>

theorem scan_checkpoint_sound:
  assumes "db_wf d" "job_get (sj_job_id j) d \<noteq> None"
    and "scan_begin j (case checkpoint of None \<Rightarrow> ScanCheckpoint | Some c \<Rightarrow> c) d = (r, d0)"
    and "scan_reachable j d0 mem checkpoint pages s"
  shows "(\<exists>offset. map_of (get_checkpoint (sj_job_id j) (sc_db s)) ''offset'' = Some (JInt offset) \<and>
      resumable j (start_offset checkpoint) pages (sc_db s) offset) \<and>
    resumable j (start_offset checkpoint) pages (sc_db s) (sk_offset (sc_cp s)) \<and>
    (scan_ended s \<longrightarrow>
      (case scan_finish j f1 f2 s of (outcome, s') \<Rightarrow>
        map_of (get_checkpoint (sj_job_id j) (sc_db s')) ''offset'' = Some (JInt (sk_offset (sc_cp s))) \<and>
        resumable j (start_offset checkpoint) pages (sc_db s') (sk_offset (sc_cp s)) \<and>
        (case outcome of
           Inr cp \<Rightarrow> \<not> sk_cancelled cp \<longrightarrow>
             snd pages = None \<and> uids (concat (fst pages)) \<subseteq> {u. user_in (sj_dataset_id j) u (sc_db s')}
         | Inl _ \<Rightarrow> True)))"
proof -
  have d0: "db_wf d0" "job_get (sj_job_id j) d0 \<noteq> None" "row_resumable j (start_offset checkpoint) pages d0"
    using scan_begin_effect [OF assms(3,1,2)] by (simp_all add: start_offset_def)
  note row = row_reachable [OF assms(4) d0(1,3,2)]
  have mem: "resumable j (start_offset checkpoint) pages (sc_db s) (sk_offset (sc_cp s))"
    using data_reachable [OF assms(4) d0(1)] memory_resumable by blast
  obtain outcome s' where fin: "scan_finish j f1 f2 s = (outcome, s')" by fastforce
  obtain extra where final: "job_final (sj_job_id j) (final_state outcome) (cp_json (sc_cp s) @ extra) (sc_db s) (sc_db s')"
    using scan_finish_final [of j f1 f2 s] fin by auto
  note users = job_final_users [OF final, of j]
  have "get_checkpoint (sj_job_id j) (sc_db s') = cp_json (sc_cp s) @ extra"
    using final row by (auto simp: job_final_def get_checkpoint_def)
  then have "map_of (get_checkpoint (sj_job_id j) (sc_db s')) ''offset'' = Some (JInt (sk_offset (sc_cp s)))"
    by (simp add: cp_json_def)
  moreover have "resumable j (start_offset checkpoint) pages (sc_db s') (sk_offset (sc_cp s))"
    using resumable_mono [OF mem] users by blast
  moreover have "snd pages = None \<and> uids (concat (fst pages)) \<subseteq> {u. user_in (sj_dataset_id j) u (sc_db s')}"
    if "scan_ended s" "outcome = Inr cp" "\<not> sk_cancelled cp" for cp
    using uncancelled_complete [OF d0(1) assms(4) that(1) fin [unfolded that(2)] that(3)] users by blast
  ultimately show ?thesis using row mem fin by (auto simp: row_resumable_def split: sum.splits)
qed

section \<open>A complete scan\<close>

text \<open>One schedule: the producer runs whenever it can.\<close>

fun run_scan :: "scan_job \<Rightarrow> nat \<Rightarrow> scan_state \<Rightarrow> scan_state" where
  "run_scan j 0 s = s"
| "run_scan j (Suc n) s =
     (case producer_step s of
        Some s' \<Rightarrow> run_scan j n s'
      | None \<Rightarrow> (case consumer_step j None s of Some s' \<Rightarrow> run_scan j n s' | None \<Rightarrow> s))"

lemma run_scan_reachable:
  "scan_reachable j d0 mem checkpoint pages s \<Longrightarrow> scan_reachable j d0 mem checkpoint pages (run_scan j n s)"
proof (induction j n s rule: run_scan.induct)
  case (2 j n s)
  have step: "scan_reachable j d0 mem checkpoint pages s'"
    if "producer_step s = Some s' \<or> consumer_step j None s = Some s'" for s'
    using that scan_reachable.task [OF 2(3)] scan_task_step.intros by metis
  show ?case using 2(1,2) step 2(3) by (auto split: option.splits)
qed simp

definition sample_scan_job :: scan_job where
  "sample_scan_job = \<lparr>sj_job_id = 1, sj_account_id = 1, sj_group = sample_group, sj_dataset_id = 1\<rparr>"

definition sample_pages :: page_stream where
  "sample_pages = ([[normalize_member (sample_user 300), normalize_member (sample_user 301)]], None)"

definition sample_begun :: db where
  "sample_begun = snd (scan_begin sample_scan_job ScanCheckpoint sample_db)"

definition sample_scan :: scan_state where
  "sample_scan = run_scan sample_scan_job 9 (scan_init sample_begun [] None sample_pages)"

lemma sample_scan_reachable: "scan_reachable sample_scan_job sample_begun [] None sample_pages sample_scan"
  unfolding sample_scan_def by (intro run_scan_reachable scan_reachable.initial)

lemma sample_scan_ended: "scan_ended sample_scan"
  by code_simp

lemma sample_scan_finished:
  "case fst (scan_finish sample_scan_job None None sample_scan) of Inl e \<Rightarrow> False | Inr cp \<Rightarrow> \<not> sk_cancelled cp"
  by code_simp

theorem scan_always_ends_witness:
  "scan_ended sample_scan \<and> length (sc_queue sample_scan) \<le> 4 \<and>
   map_option j_state (job_get 1 (sc_db (snd (scan_finish sample_scan_job None None sample_scan)))) = Some JS_COMPLETED"
proof -
  have "job_get 1 (sc_db sample_scan) \<noteq> None" by code_simp
  moreover obtain cp s' where "scan_finish sample_scan_job None None sample_scan = (Inr cp, s')" "\<not> sk_cancelled cp"
    using sample_scan_finished by (cases "scan_finish sample_scan_job None None sample_scan") (auto split: sum.splits)
  ultimately show ?thesis
    using scan_always_ends [OF sample_scan_reachable, of None None] sample_scan_ended by (auto simp: sample_scan_job_def)
qed

theorem scan_checkpoint_sound_witness:
  "scan_ended sample_scan \<and>
   (\<exists>cp s'. scan_finish sample_scan_job None None sample_scan = (Inr cp, s') \<and> \<not> sk_cancelled cp \<and>
     map_of (get_checkpoint 1 (sc_db s')) ''offset'' = Some (JInt 2) \<and>
     uids (concat (fst sample_pages)) \<subseteq> {u. user_in 1 u (sc_db s')})"
proof -
  have begun: "scan_begin sample_scan_job (case None of None \<Rightarrow> ScanCheckpoint | Some c \<Rightarrow> c) sample_db =
      (fst (scan_begin sample_scan_job ScanCheckpoint sample_db), sample_begun)"
    by (simp add: sample_begun_def)
  have job: "job_get (sj_job_id sample_scan_job) sample_db \<noteq> None" and off: "sk_offset (sc_cp sample_scan) = 2" by code_simp+
  obtain cp s' where fin: "scan_finish sample_scan_job None None sample_scan = (Inr cp, s')" "\<not> sk_cancelled cp"
    using sample_scan_finished by (cases "scan_finish sample_scan_job None None sample_scan") (auto split: sum.splits)
  then show ?thesis
    using scan_checkpoint_sound [OF sample_db_wf job begun sample_scan_reachable, of None None] sample_scan_ended off
    by (auto simp: sample_scan_job_def)
qed

end
