(* ===== verification/Auth.thy ===== *)
theory Auth
  imports Telegram_Client
begin

text \<open>
  \<open>telegram/auth_service.py\<close>: signing an account in with a code and, when Telegram asks for it, a
  password, and connecting an account that already has a session.  Every outcome is written into
  the row of the account.
\<close>

section \<open>The service\<close>

record auth_identity =
  ai_telegram_user_id :: "int option"
  ai_username :: "string option"
  ai_display_name :: "string option"

text \<open>\<open>session_lookup\<close> of \<open>bootstrap.py\<close>, unlike the gateway's, accepts a disabled account.\<close>

definition session_lookup :: "int \<Rightarrow> string nm" where
  "session_lookup account_id =
     nbind (nget (\<lambda>s. account_get account_id (n_db s))) (\<lambda>acc.
       case acc of
         None \<Rightarrow> nraise (key_error (''Unknown account id: '' @ int_str account_id))
       | Some a \<Rightarrow> nreturn (ac_session_path a))"

definition set_account_state :: "int \<Rightarrow> account_state \<Rightarrow> string option \<Rightarrow> unit nm" where
  "set_account_state account_id state error = nwrite (account_set_state_v12 account_id state error)"

definition auth_client :: "tg_env \<Rightarrow> int \<Rightarrow> unit nm" where
  "auth_client env account_id = nbind (session_lookup account_id) (client_get env account_id)"

text \<open>\<open>sep.join(parts)\<close>.\<close>

fun join_sep :: "string \<Rightarrow> string list \<Rightarrow> string" where
  "join_sep sep [] = []"
| "join_sep sep [p] = p"
| "join_sep sep (p # ps) = p @ sep @ join_sep sep ps"

definition display_name :: "tg_user \<Rightarrow> string option" where
  "display_name me =
     (let name = py_strip (join_sep '' '' (filter (\<lambda>p. p \<noteq> []) [or_empty (tu_first_name me), or_empty (tu_last_name me)]))
      in if name = [] then None else Some name)"

definition user_identity :: "tg_user \<Rightarrow> auth_identity" where
  "user_identity me =
     \<lparr>ai_telegram_user_id = tu_id me, ai_username = tu_username me, ai_display_name = display_name me\<rparr>"

definition refresh_identity :: "tg_env \<Rightarrow> int \<Rightarrow> auth_identity nm" where
  "refresh_identity env account_id =
     nbind (auth_client env account_id) (\<lambda>_.
     nbind (rpc_call env account_id R_get_me (tg_me env)) (\<lambda>me.
       case me of
         None \<Rightarrow> nraise (py_error ''RuntimeError'' ''Telegram session has no authenticated user'')
       | Some u \<Rightarrow>
           let identity = user_identity u in
           nbind (nwrite (account_update_identity account_id (ai_telegram_user_id identity)
                    (ai_username identity) (ai_display_name identity))) (\<lambda>_.
             nreturn identity)))"

text \<open>The \<open>except Exception\<close> clauses that record the error and raise it again.\<close>

definition recording_error :: "int \<Rightarrow> (py_exc \<Rightarrow> account_state) \<Rightarrow> 'a nm \<Rightarrow> 'a nm" where
  "recording_error account_id state m =
     ncatch m (\<lambda>e. nbind (set_account_state account_id (state e) (Some (ex_text e))) (\<lambda>_. nraise e))"

text \<open>\<open>None\<close> says that the session was authorized already.\<close>

definition request_code :: "tg_env \<Rightarrow> int \<Rightarrow> string \<Rightarrow> string option nm" where
  "request_code env account_id phone =
     nbind (auth_client env account_id) (\<lambda>_.
     nbind (rpc_call env account_id R_is_authorized (tg_bool env)) (\<lambda>authorized.
       if authorized then nbind (refresh_identity env account_id) (\<lambda>_. nreturn None)
       else nbind (rpc_call env account_id (R_send_code phone) (tg_code env)) (\<lambda>h. nreturn (Some h))))"

definition send_code :: "tg_env \<Rightarrow> int \<Rightarrow> string \<Rightarrow> string nm" where
  "send_code env account_id phone =
     nbind (set_account_state account_id AS_CONNECTING None) (\<lambda>_.
     nbind (recording_error account_id (\<lambda>_. AS_ERROR) (request_code env account_id phone)) (\<lambda>sent.
       case sent of
         None \<Rightarrow> nreturn []
       | Some h \<Rightarrow> nbind (set_account_state account_id AS_AUTH_REQUIRED None) (\<lambda>_. nreturn h)))"

definition sign_in_error_state :: "py_exc \<Rightarrow> account_state" where
  "sign_in_error_state e =
     (if any_in [''phonecode'', ''password'', ''auth''] (py_lower (ex_type e)) then AS_AUTH_REQUIRED else AS_ERROR)"

definition sign_in_password :: "tg_env \<Rightarrow> int \<Rightarrow> string option \<Rightarrow> unit nm" where
  "sign_in_password env account_id password =
     (if \<not> truthy_str password
      then nbind (set_account_state account_id AS_AUTH_REQUIRED (Some ''Telegram 2FA password is required'')) (\<lambda>_.
             nraise (py_error ''RuntimeError'' ''Telegram 2FA password is required''))
      else recording_error account_id (\<lambda>_. AS_AUTH_REQUIRED)
             (rpc_call env account_id (R_sign_in_password (or_empty password)) (\<lambda>_. ())))"

definition sign_in ::
  "tg_env \<Rightarrow> int \<Rightarrow> string \<Rightarrow> string \<Rightarrow> string \<Rightarrow> string option \<Rightarrow> auth_identity nm" where
  "sign_in env account_id phone code phone_code_hash password =
     nbind (auth_client env account_id) (\<lambda>_.
     nbind (ncatch (rpc_call env account_id (R_sign_in phone code phone_code_hash) (\<lambda>_. ())) (\<lambda>e.
              if sublist ''sessionpasswordneeded'' (py_lower (ex_type e))
              then sign_in_password env account_id password
              else nbind (set_account_state account_id (sign_in_error_state e) (Some (ex_text e))) (\<lambda>_. nraise e))) (\<lambda>_.
       refresh_identity env account_id))"

definition connect_existing :: "tg_env \<Rightarrow> int \<Rightarrow> auth_identity option nm" where
  "connect_existing env account_id =
     nbind (set_account_state account_id AS_CONNECTING None) (\<lambda>_.
       recording_error account_id (\<lambda>_. AS_ERROR)
         (nbind (auth_client env account_id) (\<lambda>_.
          nbind (rpc_call env account_id R_is_authorized (tg_bool env)) (\<lambda>authorized.
            if \<not> authorized then nbind (set_account_state account_id AS_AUTH_REQUIRED None) (\<lambda>_. nreturn None)
            else nbind (refresh_identity env account_id) (\<lambda>identity. nreturn (Some identity))))))"

section \<open>What they leave in the row of the account\<close>

definition status_of :: "int \<Rightarrow> net_state \<Rightarrow> (account_state \<times> string option) option" where
  "status_of account_id s = map_option (\<lambda>r. (a_status r, a_last_error r)) (account_row_of account_id (n_db s))"

definition signed_in :: "int \<Rightarrow> auth_identity \<Rightarrow> net_state \<Rightarrow> bool" where
  "signed_in account_id i s =
     (case account_row_of account_id (n_db s) of
        None \<Rightarrow> False
      | Some r \<Rightarrow> a_status r = AS_READY \<and> a_last_error r = None \<and> a_telegram_user_id r = ai_telegram_user_id i \<and>
                  a_username r = ai_username i \<and> a_display_name r = ai_display_name i)"

lemma nbind_cases:
  "nbind m k s = (case m s of (Inl e, s') \<Rightarrow> (Inl e, s') | (Inr x, s') \<Rightarrow> k x s')"
  by (simp add: nbind_def)

lemma ncatch_cases:
  "ncatch m h s = (case m s of (Inl e, s') \<Rightarrow> h e s' | (Inr x, s') \<Rightarrow> (Inr x, s'))"
  by (simp add: ncatch_def)

lemma client_get_db: "client_get env a p s = (r, s') \<Longrightarrow> n_db s' = n_db s"
  by (auto simp: client_get_def client_get_with_def nbind_def nget_def nmodify_def nreturn_def rpc_call_def
      require_credentials_def Let_def split: option.splits sum.splits prod.splits if_splits)

lemma rpc_call_db: "rpc_call env a q f s = (r, s') \<Longrightarrow> n_db s' = n_db s"
  by (auto simp: rpc_call_def Let_def split: option.splits)

lemma auth_client_db: "auth_client env a s = (r, s') \<Longrightarrow> n_db s' = n_db s"
  unfolding auth_client_def session_lookup_def
  by (auto simp: nbind_cases nreturn_def dest: client_get_db split: option.splits prod.splits sum.splits)

text \<open>An account whose row exists, whatever its state.\<close>

definition known :: "int \<Rightarrow> net_state \<Rightarrow> bool" where
  "known account_id s = (account_row_of account_id (n_db s) \<noteq> None)"

lemma account_row_update:
  assumes "\<And>r. a_id (f r) = a_id r"
  shows "account_row_of a (d\<lparr>t_accounts := update_where (\<lambda>r. a_id r = a) f (t_accounts d)\<rparr>) =
    map_option f (account_row_of a d)"
proof -
  have "find_row (\<lambda>r. a_id r = a) (update_where (\<lambda>r. a_id r = a) f (t_accounts d)) =
      (case find_row (\<lambda>r. a_id r = a) (t_accounts d) of None \<Rightarrow> None | Some r \<Rightarrow> Some (if a_id r = a then f r else r))"
    by (rule find_row_update_where) (simp add: assms)
  then show ?thesis
    by (auto simp: account_row_of_def dest: find_row_SomeD split: option.splits)
qed

lemma set_account_state_effect:
  "set_account_state a st e s = (Inr (), s') \<Longrightarrow> known a s \<Longrightarrow> known a s' \<and> status_of a s' = Some (st, e)"
  "\<exists>s'. set_account_state a st e s = (Inr (), s')"
  by (auto simp: set_account_state_def nwrite_def transact_def account_set_state_v12_def update_accounts_def
      known_def status_of_def account_row_update split: prod.splits)

lemma set_account_state_cases:
  assumes "known a s"
  obtains s' where "set_account_state a st e s = (Inr (), s')" "known a s'" "status_of a s' = Some (st, e)"
  using set_account_state_effect assms by blast

lemma refresh_identity_effect:
  assumes "known a s" "refresh_identity env a s = (r, s')"
  shows "known a s' \<and> (case r of Inr i \<Rightarrow> signed_in a i s' | Inl e \<Rightarrow> status_of a s' = status_of a s)"
  using assms unfolding refresh_identity_def
  by (auto simp: nbind_cases nreturn_def nraise_def nwrite_def transact_def account_update_identity_def update_accounts_def
      known_def status_of_def signed_in_def account_row_update Let_def
      dest!: auth_client_db rpc_call_db split: option.splits prod.splits sum.splits)

text \<open>An error that is recorded is in the row when it is raised.\<close>

lemma recording_error_effect:
  assumes "known a s" "recording_error a st m s = (r, s')"
    and "\<And>r s'. m s = (r, s') \<Longrightarrow> known a s'"
  shows "known a s' \<and> (case r of Inr x \<Rightarrow> m s = (Inr x, s') | Inl e \<Rightarrow> status_of a s' = Some (st e, Some (ex_text e)))"
proof (cases "m s")
  case (Pair q s1)
  have k: "known a s1" using assms(3) [OF Pair] .
  show ?thesis
  proof (cases q)
    case (Inr x)
    then show ?thesis using assms(2) Pair k by (auto simp: recording_error_def ncatch_cases)
  next
    case (Inl e)
    obtain s2 where "set_account_state a (st e) (Some (ex_text e)) s1 = (Inr (), s2)" "known a s2"
      "status_of a s2 = Some (st e, Some (ex_text e))"
      using set_account_state_cases [OF k] by blast
    then show ?thesis using assms(2) Pair Inl by (auto simp: recording_error_def ncatch_cases nbind_cases nraise_def)
  qed
qed

lemma request_code_effect:
  assumes "known a s" "request_code env a phone s = (r, s')"
  shows "known a s' \<and> (r = Inr None \<longrightarrow> (\<exists>i. signed_in a i s'))"
  using assms unfolding request_code_def
  by (auto simp: nbind_cases known_def dest!: auth_client_db rpc_call_db refresh_identity_effect [unfolded known_def, rotated]
      split: prod.splits sum.splits if_splits)

lemma connect_body_effect:
  assumes "known a s"
    and "nbind (auth_client env a) (\<lambda>_. nbind (rpc_call env a R_is_authorized (tg_bool env)) (\<lambda>authorized.
           if \<not> authorized then nbind (set_account_state a AS_AUTH_REQUIRED None) (\<lambda>_. nreturn None)
           else nbind (refresh_identity env a) (\<lambda>identity. nreturn (Some identity)))) s = (r, s')"
  shows "known a s' \<and> (case r of Inr (Some i) \<Rightarrow> signed_in a i s'
    | Inr None \<Rightarrow> status_of a s' = Some (AS_AUTH_REQUIRED, None) | Inl e \<Rightarrow> True)"
proof -
  obtain q1 s1 where 1: "auth_client env a s = (q1, s1)" by fastforce
  obtain q2 s2 where 2: "rpc_call env a R_is_authorized (tg_bool env) s1 = (q2, s2)" by fastforce
  have k: "known a s2" "known a s1" using assms(1) auth_client_db [OF 1] rpc_call_db [OF 2] by (simp_all add: known_def)
  obtain s3 where 3: "set_account_state a AS_AUTH_REQUIRED None s2 = (Inr (), s3)" "known a s3"
    "status_of a s3 = Some (AS_AUTH_REQUIRED, None)" using set_account_state_cases [OF k(1)] .
  obtain q4 s4 where 4: "refresh_identity env a s2 = (q4, s4)" by fastforce
  show ?thesis using assms(2) k 1 2 3 4 refresh_identity_effect [OF k(1) 4]
    by (auto simp: nbind_cases nreturn_def split: sum.splits if_splits)
qed

lemma connect_existing_effect:
  assumes "known a s"
  shows "case connect_existing env a s of
      (Inr (Some i), s') \<Rightarrow> signed_in a i s'
    | (Inr None, s') \<Rightarrow> status_of a s' = Some (AS_AUTH_REQUIRED, None)
    | (Inl e, s') \<Rightarrow> status_of a s' = Some (AS_ERROR, Some (ex_text e))"
proof -
  obtain s1 where 1: "set_account_state a AS_CONNECTING None s = (Inr (), s1)" "known a s1"
    using set_account_state_cases [OF assms] by blast
  obtain r s' where 2: "connect_existing env a s = (r, s')" by fastforce
  note body = recording_error_effect [OF 1(2) 2 [unfolded connect_existing_def nbind_cases [of "set_account_state a AS_CONNECTING None"] 1(1), simplified]]
  show ?thesis using 2 body connect_body_effect [OF 1(2)] by (fastforce split: sum.splits option.splits)
qed

lemma send_code_effect:
  assumes "known a s"
  shows "case send_code env a phone s of
      (Inr h, s') \<Rightarrow>
        (case request_code env a phone (snd (set_account_state a AS_CONNECTING None s)) of
           (Inr None, _) \<Rightarrow> h = [] \<and> (\<exists>i. signed_in a i s')
         | (Inr (Some sent), _) \<Rightarrow> h = sent \<and> status_of a s' = Some (AS_AUTH_REQUIRED, None)
         | (Inl _, _) \<Rightarrow> False)
    | (Inl e, s') \<Rightarrow> status_of a s' = Some (AS_ERROR, Some (ex_text e))"
proof -
  obtain s1 where 1: "set_account_state a AS_CONNECTING None s = (Inr (), s1)" "known a s1"
    using set_account_state_cases [OF assms] by blast
  obtain r s2 where 2: "recording_error a (\<lambda>_. AS_ERROR) (request_code env a phone) s1 = (r, s2)" by fastforce
  have k: "known a s2"
    and out: "case r of Inr x \<Rightarrow> request_code env a phone s1 = (Inr x, s2) | Inl e \<Rightarrow> status_of a s2 = Some (AS_ERROR, Some (ex_text e))"
    using recording_error_effect [OF 1(2) 2] request_code_effect [OF 1(2)] by blast+
  obtain s3 where 3: "set_account_state a AS_AUTH_REQUIRED None s2 = (Inr (), s3)"
    "status_of a s3 = Some (AS_AUTH_REQUIRED, None)" using set_account_state_cases [OF k] by blast
  show ?thesis using out 1(1) 2 3 request_code_effect [OF 1(2)]
    by (auto simp: send_code_def nbind_cases nreturn_def split: sum.splits option.splits)
qed

text \<open>The two ways a sign-in can end once Telegram has answered: the error that is raised is in the
  row, or the account is as \<open>get_me\<close> reports it (whose own failure leaves the status alone).\<close>

definition recorded :: "int \<Rightarrow> account_state \<Rightarrow> py_exc \<Rightarrow> (py_exc + auth_identity) \<times> net_state \<Rightarrow> bool" where
  "recorded account_id state e outcome \<longleftrightarrow>
     fst outcome = Inl e \<and> status_of account_id (snd outcome) = Some (state, Some (ex_text e))"

definition identified :: "tg_env \<Rightarrow> int \<Rightarrow> net_state \<Rightarrow> (py_exc + auth_identity) \<times> net_state \<Rightarrow> bool" where
  "identified env account_id s outcome \<longleftrightarrow>
     outcome = refresh_identity env account_id s \<and>
     (case outcome of
        (Inr i, s') \<Rightarrow> signed_in account_id i s'
      | (Inl _, s') \<Rightarrow> status_of account_id s' = status_of account_id s)"

lemma identified_refresh: "known a s \<Longrightarrow> identified env a s (refresh_identity env a s)"
  using refresh_identity_effect [of a s env] by (cases "refresh_identity env a s") (auto simp: identified_def split: sum.splits)

lemma recorded_state:
  assumes "known a s"
  shows "recorded a st e (nbind (set_account_state a st (Some (ex_text e))) (\<lambda>_. nraise e) s)"
proof -
  obtain s1 where "set_account_state a st (Some (ex_text e)) s = (Inr (), s1)" "status_of a s1 = Some (st, Some (ex_text e))"
    using set_account_state_cases [OF assms] by blast
  then show ?thesis by (simp add: recorded_def nbind_cases nraise_def)
qed

lemma sign_in_effect:
  assumes "known a s"
  shows "(case auth_client env a s of
      (Inl e, s1) \<Rightarrow> sign_in env a phone code h password s = (Inl e, s1) \<and> status_of a s1 = status_of a s
    | (Inr _, s1) \<Rightarrow>
       (case rpc_call env a (R_sign_in phone code h) (\<lambda>_. ()) s1 of
          (Inr _, s2) \<Rightarrow> identified env a s2 (sign_in env a phone code h password s)
        | (Inl e, s2) \<Rightarrow>
            if \<not> sublist ''sessionpasswordneeded'' (py_lower (ex_type e))
            then recorded a (sign_in_error_state e) e (sign_in env a phone code h password s)
            else if \<not> truthy_str password
            then recorded a AS_AUTH_REQUIRED (py_error ''RuntimeError'' ''Telegram 2FA password is required'')
                   (sign_in env a phone code h password s)
            else (case rpc_call env a (R_sign_in_password (or_empty password)) (\<lambda>_. ()) s2 of
                    (Inl e', _) \<Rightarrow> recorded a AS_AUTH_REQUIRED e' (sign_in env a phone code h password s)
                  | (Inr _, s3) \<Rightarrow> identified env a s3 (sign_in env a phone code h password s))))"
proof -
  obtain q1 s1 where 1: "auth_client env a s = (q1, s1)" by fastforce
  obtain q2 s2 where 2: "rpc_call env a (R_sign_in phone code h) (\<lambda>_. ()) s1 = (q2, s2)" by fastforce
  obtain q3 s3 where 3: "rpc_call env a (R_sign_in_password (or_empty password)) (\<lambda>_. ()) s2 = (q3, s3)" by fastforce
  have db: "n_db s1 = n_db s" "n_db s2 = n_db s" "n_db s3 = n_db s"
    using auth_client_db [OF 1] rpc_call_db [OF 2] rpc_call_db [OF 3] by simp_all
  then have k: "known a s2" "known a s3" and st: "status_of a s1 = status_of a s"
    using assms by (simp_all add: known_def status_of_def)
  note written = recorded_state [OF k(1)] recorded_state [OF k(2)]
  note sign = sign_in_def sign_in_password_def recording_error_def nbind_cases ncatch_cases recorded_def py_error_def
  show ?thesis
  proof (cases q1)
    case (Inl e)
    then show ?thesis using st by (simp add: 1 sign)
  next
    case client: (Inr u)
    show ?thesis
    proof (cases q2)
      case (Inr v)
      then show ?thesis using client identified_refresh [OF k(1), of env] by (simp add: 1 2 sign)
    next
      case (Inl e)
      then show ?thesis
        using client written(1) [of "sign_in_error_state e" e] identified_refresh [OF k(2), of env]
          written(1) [of AS_AUTH_REQUIRED "py_error ''RuntimeError'' ''Telegram 2FA password is required''"]
          written(2) [of AS_AUTH_REQUIRED "case q3 of Inl e' \<Rightarrow> e'"]
        by (cases q3) (auto simp: 1 2 3 sign split: prod.splits sum.splits)
    qed
  qed
qed

text \<open>
  C24. Authentication leaves in the row of the account exactly the outcome it returns.  Connecting
  ends as signed in with the identity Telegram reports, as waiting for a sign-in, or as an error
  with the text of the exception that is raised.  Asking for a code returns the hash Telegram sent
  with the account waiting for the sign-in, the empty hash with the account signed in when the
  session was authorized already, or raises with the error in the row.  Signing in: a refused code
  is raised and recorded, as \<open>AUTH_REQUIRED\<close> when its type names the code, the password or the
  authorization and as \<open>ERROR\<close> otherwise; a password that is needed and missing, or refused, is raised
  and recorded as \<open>AUTH_REQUIRED\<close>; an accepted sign-in puts the identity it returns into the row.
  Only two failures are not recorded, as the code has it: no client could be had at all, or the
  sign-in was accepted and reading the identity back failed.
\<close>

theorem auth_outcome_is_recorded:
  assumes "account_row_of a (n_db s) \<noteq> None"
  shows "(case connect_existing env a s of
      (Inr (Some i), s') \<Rightarrow> signed_in a i s'
    | (Inr None, s') \<Rightarrow> status_of a s' = Some (AS_AUTH_REQUIRED, None)
    | (Inl e, s') \<Rightarrow> status_of a s' = Some (AS_ERROR, Some (ex_text e))) \<and>
    (case send_code env a phone s of
      (Inr hash, s') \<Rightarrow>
        (case request_code env a phone (snd (set_account_state a AS_CONNECTING None s)) of
           (Inr None, _) \<Rightarrow> hash = [] \<and> (\<exists>i. signed_in a i s')
         | (Inr (Some sent), _) \<Rightarrow> hash = sent \<and> status_of a s' = Some (AS_AUTH_REQUIRED, None)
         | (Inl _, _) \<Rightarrow> False)
    | (Inl e, s') \<Rightarrow> status_of a s' = Some (AS_ERROR, Some (ex_text e))) \<and>
    (case auth_client env a s of
      (Inl e, s1) \<Rightarrow> sign_in env a phone code h password s = (Inl e, s1) \<and> status_of a s1 = status_of a s
    | (Inr _, s1) \<Rightarrow>
       (case rpc_call env a (R_sign_in phone code h) (\<lambda>_. ()) s1 of
          (Inr _, s2) \<Rightarrow> identified env a s2 (sign_in env a phone code h password s)
        | (Inl e, s2) \<Rightarrow>
            if \<not> sublist ''sessionpasswordneeded'' (py_lower (ex_type e))
            then recorded a (sign_in_error_state e) e (sign_in env a phone code h password s)
            else if \<not> truthy_str password
            then recorded a AS_AUTH_REQUIRED (py_error ''RuntimeError'' ''Telegram 2FA password is required'')
                   (sign_in env a phone code h password s)
            else (case rpc_call env a (R_sign_in_password (or_empty password)) (\<lambda>_. ()) s2 of
                    (Inl e', _) \<Rightarrow> recorded a AS_AUTH_REQUIRED e' (sign_in env a phone code h password s)
                  | (Inr _, s3) \<Rightarrow> identified env a s3 (sign_in env a phone code h password s))))"
  using connect_existing_effect send_code_effect sign_in_effect assms by (simp add: known_def)

definition code_refused :: tg_env where
  "code_refused = (server [])\<lparr>tg_done := \<lambda>_ q. case q of
     R_sign_in _ _ _ \<Rightarrow> Some (py_error ''PhoneCodeInvalidError'' ''bad code'') | _ \<Rightarrow> None\<rparr>"

theorem auth_outcome_is_recorded_witness:
  "account_row_of 1 (n_db sample_net) \<noteq> None \<and>
   recorded 1 AS_AUTH_REQUIRED (py_error ''PhoneCodeInvalidError'' ''bad code'')
     (sign_in code_refused 1 ''+84'' ''00000'' ''code'' None sample_net)"
proof -
  have k: "account_row_of 1 (n_db sample_net) \<noteq> None"
    by (simp add: sample_net_def new_net_state_def account_row_of_def sample_defs)
  have client: "\<exists>s1. auth_client code_refused 1 sample_net = (Inr (), s1)"
    by (simp add: auth_client_def session_lookup_def client_get_def client_get_with_def sample_net_def new_net_state_def
        sample_defs account_get_def account_row_of_def row_account_def require_credentials_def code_refused_def server_def
        rpc_call_def nbind_def Let_def)
  have "sign_in_error_state (py_error ''PhoneCodeInvalidError'' ''bad code'') = AS_AUTH_REQUIRED"
    "\<not> sublist ''sessionpasswordneeded'' (py_lower (ex_type (py_error ''PhoneCodeInvalidError'' ''bad code'')))"
    by code_simp+
  then show ?thesis
    using k client auth_outcome_is_recorded [OF k, of code_refused "''+84''" "''00000''" "''code''" None]
    by (auto simp: rpc_call_def code_refused_def Let_def)
qed

end
