(* ===== verification/Handlers.thy ===== *)
theory Handlers
  imports State_Store Import_Export Scanner Auth Executor
begin

text \<open>
  \<open>runtime/command_handlers.py\<close> and the wiring of \<open>bootstrap.py\<close>: what the commands of the user
  interface check, which work they hand to the worker pool or to the network loop, and what happens
  when that work is done.  A closure the code submits is a \<open>task\<close>; \<open>task_work\<close> is its body,
  \<open>on_success\<close> and \<open>on_finished\<close> are its callbacks.
\<close>

section \<open>Tasks, events and the state of the application\<close>

datatype (plugins only: code size) task =
    T_apply_credentials int string
  | T_save_settings int string
  | T_add_account string
  | T_enable_account int bool
  | T_disconnect int
  | T_delete_account int
  | T_connect int
  | T_send_code int string
  | T_sign_in int string string string "string option"
  | T_resolve_source int string
  | T_joined_groups int
  | T_scan_prepare int string group_context
  | T_scan string scan_job "scan_checkpoint option"
  | T_cancel_scan int
  | T_import string string "int option"
  | T_combine string int int string
  | T_export_dataset int string "int option"
  | T_resolve_target int string
  | T_precheck_prepare int group_context
  | T_precheck int int group_context
  | T_plan int int int precheck_result "filter_spec option" "string option"
  | T_run string int int group_context
  | T_request nat control_request
  | T_export_log int string
  | T_export_results int string
  | T_join int string
  | T_leave int string

datatype (plugins only: code size) app_event =
    CommandFailed string string string
  | SettingsChanged
  | AccountsChanged "int option"
  | ActiveAccountChanged int
  | AccountConnected int "auth_identity option"
  | AuthCodeSent int bool
  | AccountAuthenticated int auth_identity
  | SourceGroupResolved group_context
  | JoinedGroupsLoaded int "group_context list"
  | MemberScanStarted int int
  | DatasetCreated int
  | ActiveDatasetChanged int
  | ImportCompleted int int
  | BackgroundTaskDeferred string
  | TargetGroupResolved group_context
  | TargetPrecheckCompleted int target_coverage int
  | MigrationPlanReady int plan_summary "string option"
  | LogExportCompleted int string
  | ResultExportCompleted int string
  | UtilityCompleted string group_context

text \<open>
  An executor that a handler has registered: its identity, the scheduler and the action it was built
  with, and the control requests that have reached it.
\<close>

record exec_slot =
  es_id :: nat
  es_scheduler :: scheduler
  es_action :: string
  es_requests :: "control_request list"

record app =
  ap_net :: net_state
  ap_state :: state_snapshot
  ap_executors :: "(int \<times> exec_slot) list"
  ap_tasks :: "task list"
  ap_events :: "app_event list"
  ap_next_executor :: nat
  ap_network_up :: bool
  ap_workers_up :: bool
  ap_performance_users :: nat
  ap_cancelled_scans :: "int list"
  ap_settings :: "int option \<times> string option"
  ap_saved_settings :: "int option \<times> string option"
  ap_sessions_dir :: string
  ap_session_files :: "string list"
  ap_files :: "(string \<times> written_file) list"
  ap_clock :: clock
  ap_utc :: int

abbreviation ap_db :: "app \<Rightarrow> db" where
  "ap_db a \<equiv> n_db (ap_net a)"

definition publish_event :: "app_event \<Rightarrow> app \<Rightarrow> app" where
  "publish_event e a = a\<lparr>ap_events := ap_events a @ [e]\<rparr>"

definition store_update :: "(string \<times> state_value) list \<Rightarrow> app \<Rightarrow> app" where
  "store_update kvs a = a\<lparr>ap_state := snd (state_update kvs (ap_state a))\<rparr>"

fun task_command :: "task \<Rightarrow> string" where
  "task_command (T_apply_credentials _ _) = ''settings.update''"
| "task_command (T_save_settings _ _) = ''settings.update''"
| "task_command (T_add_account _) = ''account.add''"
| "task_command (T_enable_account _ _) = ''account.enable''"
| "task_command (T_disconnect _) = ''account.delete''"
| "task_command (T_delete_account _) = ''account.delete''"
| "task_command (T_connect _) = ''account.connect''"
| "task_command (T_send_code _ _) = ''auth.send_code''"
| "task_command (T_sign_in _ _ _ _ _) = ''auth.sign_in''"
| "task_command (T_resolve_source _ _) = ''source.resolve''"
| "task_command (T_joined_groups _) = ''source.joined_groups''"
| "task_command (T_scan_prepare _ _ _) = ''source.scan.prepare''"
| "task_command (T_scan command _ _) = command"
| "task_command (T_cancel_scan _) = ''source.cancel_scan''"
| "task_command (T_import _ _ _) = ''dataset.import''"
| "task_command (T_combine _ _ _ _) = ''dataset.combine''"
| "task_command (T_export_dataset _ _ _) = ''dataset.export''"
| "task_command (T_resolve_target _ _) = ''target.resolve''"
| "task_command (T_precheck_prepare _ _) = ''migration.precheck.prepare''"
| "task_command (T_precheck _ _ _) = ''migration.precheck''"
| "task_command (T_plan _ _ _ _ _ _) = ''migration.plan''"
| "task_command (T_run command _ _ _) = command"
| "task_command (T_request _ r) = (if r = RequestPause then ''migration.pause'' else ''migration.stop'')"
| "task_command (T_export_log _ _) = ''job.export_log''"
| "task_command (T_export_results _ _) = ''job.export_results''"
| "task_command (T_join _ _) = ''utility.join''"
| "task_command (T_leave _ _) = ''utility.leave''"

section \<open>Submitting\<close>

definition publish_failure :: "string \<Rightarrow> py_exc \<Rightarrow> app \<Rightarrow> app" where
  "publish_failure command exc = publish_event (CommandFailed command (ex_text exc) (ex_type exc))"

text \<open>The \<open>on_finished\<close> callback: a run, however it ends, takes its executor off the registry.\<close>

definition on_finished :: "task \<Rightarrow> app \<Rightarrow> app" where
  "on_finished t a =
     (case t of T_run _ job_id _ _ \<Rightarrow> a\<lparr>ap_executors := dict_pop job_id (ap_executors a)\<rparr> | _ \<Rightarrow> a)"

text \<open>A pool that has been shut down raises in the caller.\<close>

definition submit_worker :: "task \<Rightarrow> app \<Rightarrow> app res" where
  "submit_worker t a =
     (if ap_workers_up a then Inr (a\<lparr>ap_tasks := ap_tasks a @ [t]\<rparr>)
      else Inl (RuntimeError ''cannot schedule new futures after shutdown''))"

text \<open>A loop that does not run is reported as a failure of the command.\<close>

definition submit_network :: "task \<Rightarrow> app \<Rightarrow> app" where
  "submit_network t a =
     (if ap_network_up a then a\<lparr>ap_tasks := ap_tasks a @ [t]\<rparr>
      else on_finished t (publish_failure (task_command t) (py_error ''RuntimeError'' ''Network runtime is not running'') a))"

section \<open>Accounts and settings\<close>

definition update_settings :: "int \<Rightarrow> string \<Rightarrow> app \<Rightarrow> app res" where
  "update_settings api_id api_hash a =
     (if api_id \<le> 0 \<or> py_strip api_hash = [] then Inl (ValueError ''API ID and API Hash are required'')
      else Inr (submit_network (T_apply_credentials api_id (py_strip api_hash)) a))"

definition require_enabled_account :: "int \<Rightarrow> app \<Rightarrow> account res" where
  "require_enabled_account account_id a =
     (case account_get account_id (ap_db a) of
        None \<Rightarrow> Inl (ValueError ''Account not found'')
      | Some ac \<Rightarrow> if ac_enabled ac then Inr ac else Inl (RuntimeError ''Selected account is disabled''))"

definition add_account :: "string \<Rightarrow> app \<Rightarrow> app res" where
  "add_account phone = submit_worker (T_add_account phone)"

definition enable_account :: "int \<Rightarrow> bool \<Rightarrow> app \<Rightarrow> app res" where
  "enable_account account_id enabled a =
     (if enabled then submit_worker (T_enable_account account_id enabled) a
      else
        (case account_get account_id (ap_db a) of
           None \<Rightarrow> Inl (ValueError ''Account not found'')
         | Some ac \<Rightarrow>
             if ac_status ac \<in> {AS_BUSY, AS_WAITING_SERVER, AS_CONNECTING} \<or> has_nonterminal_jobs account_id (ap_db a)
             then Inl (RuntimeError ''Stop/pause active Telegram work before disabling this account'')
             else submit_worker (T_enable_account account_id enabled) a))"

definition delete_account :: "int \<Rightarrow> app \<Rightarrow> app res" where
  "delete_account account_id a =
     (if account_get account_id (ap_db a) = None then Inl (ValueError ''Account not found'')
      else if has_nonterminal_jobs account_id (ap_db a)
      then Inl (RuntimeError ''Account has non-terminal jobs. Complete/cancel those jobs before deletion.'')
      else Inr (submit_network (T_disconnect account_id) a))"

definition select_account :: "int \<Rightarrow> app \<Rightarrow> app res" where
  "select_account account_id a =
     Inr (publish_event (ActiveAccountChanged account_id) (store_update [(''active_account_id'', SV_int (Some account_id))] a))"

definition connect_account :: "int \<Rightarrow> app \<Rightarrow> app res" where
  "connect_account account_id a =
     bindR (require_enabled_account account_id a) (\<lambda>_. Inr (submit_network (T_connect account_id) a))"

definition handle_send_code :: "int \<Rightarrow> app \<Rightarrow> app res" where
  "handle_send_code account_id a =
     bindR (require_enabled_account account_id a) (\<lambda>ac. Inr (submit_network (T_send_code account_id (ac_phone ac)) a))"

definition handle_sign_in :: "int \<Rightarrow> string \<Rightarrow> string option \<Rightarrow> app \<Rightarrow> app res" where
  "handle_sign_in account_id code password a =
     bindR (require_enabled_account account_id a) (\<lambda>ac.
       let code_hash = map_of (ss_phone_code_hashes (snapshot (ap_state a))) account_id in
       if \<not> truthy_str code_hash then Inl (ValueError ''Request OTP before signing in'')
       else Inr (submit_network (T_sign_in account_id (ac_phone ac) code (or_empty code_hash) password) a))"

section \<open>Sources and datasets\<close>

definition resolve_source :: "int \<Rightarrow> string \<Rightarrow> app \<Rightarrow> app res" where
  "resolve_source account_id reference a =
     bindR (require_enabled_account account_id a) (\<lambda>_. Inr (submit_network (T_resolve_source account_id reference) a))"

definition joined_groups :: "int \<Rightarrow> app \<Rightarrow> app res" where
  "joined_groups account_id a =
     bindR (require_enabled_account account_id a) (\<lambda>_. Inr (submit_network (T_joined_groups account_id) a))"

definition select_source_group :: "int \<Rightarrow> group_context \<Rightarrow> app \<Rightarrow> app res" where
  "select_source_group account_id g a =
     Inr (publish_event (SourceGroupResolved g)
       (store_update [(''source_group'', SV_group (Some g)), (''source_account_id'', SV_int (Some account_id))] a))"

definition scan_source :: "int \<Rightarrow> string \<Rightarrow> app \<Rightarrow> app res" where
  "scan_source account_id dataset_name a =
     bindR (require_enabled_account account_id a) (\<lambda>_.
       let snap = snapshot (ap_state a) in
       case ss_source_group snap of
         None \<Rightarrow> Inl (ValueError ''Resolve/select a source group first'')
       | Some g \<Rightarrow>
           if gc_local_group_id g = None then Inl (ValueError ''Resolve/select a source group first'')
           else if ss_source_account_id snap \<noteq> Some account_id
           then Inl (ValueError ''Source group was resolved with a different account; resolve it again'')
           else submit_worker (T_scan_prepare account_id dataset_name g) a)"

definition cancel_scan :: "int \<Rightarrow> app \<Rightarrow> app res" where
  "cancel_scan job_id a = Inr (submit_network (T_cancel_scan job_id) a)"

text \<open>\<open>int(data.get(key, 0) or 0)\<close>; a text that is no number raises.\<close>

definition checkpoint_int :: "string \<Rightarrow> checkpoint \<Rightarrow> int res" where
  "checkpoint_int key c =
     (case map_of c key of
        None \<Rightarrow> Inr 0
      | Some (JInt i) \<Rightarrow> Inr i
      | Some (JBool b) \<Rightarrow> Inr (if b then 1 else 0)
      | Some (JStr t) \<Rightarrow>
          if t = [] then Inr 0
          else (case parse_int (py_strip t) of Some i \<Rightarrow> Inr i | None \<Rightarrow> Inl (ValueError ''invalid literal for int()'')))"

definition resume_scan :: "int \<Rightarrow> app \<Rightarrow> app res" where
  "resume_scan job_id a =
     (case job_get job_id (ap_db a) of
        None \<Rightarrow> Inl (ValueError ''Scan job not found'')
      | Some row \<Rightarrow>
          if j_job_type row \<noteq> JT_SCAN then Inl (ValueError ''Scan job not found'')
          else if j_state row \<noteq> JS_PAUSED then Inl (ValueError ''Only paused scan jobs can be resumed'')
          else
            (case (j_account_id row, j_source_dataset_id row, j_target_group_id row) of
               (Some account_id, Some dataset_id, Some group_id) \<Rightarrow>
                 bindR (require_enabled_account account_id a) (\<lambda>_.
                   case group_get group_id (Some account_id) (ap_db a) of
                     None \<Rightarrow> Inl (ValueError ''Source group metadata is unavailable'')
                   | Some g \<Rightarrow>
                       let data = get_checkpoint job_id (ap_db a) in
                       bindR (checkpoint_int ''offset'' data) (\<lambda>offset.
                       bindR (checkpoint_int ''accepted'' data) (\<lambda>accepted.
                       bindR (checkpoint_int ''invalid'' data) (\<lambda>invalid.
                         Inr (submit_network
                           (T_scan ''source.resume_scan''
                              \<lparr>sj_job_id = job_id, sj_account_id = account_id, sj_group = g, sj_dataset_id = dataset_id\<rparr>
                              (Some \<lparr>sk_offset = offset, sk_accepted = accepted, sk_invalid = invalid, sk_cancelled = False\<rparr>)) a)))))
             | _ \<Rightarrow> Inl (ValueError ''Scan job is missing account/dataset/group metadata'')))"

definition handle_import :: "string \<Rightarrow> string \<Rightarrow> int option \<Rightarrow> app \<Rightarrow> app res" where
  "handle_import path name account_id = submit_worker (T_import path name account_id)"

definition combine_dataset :: "string \<Rightarrow> int \<Rightarrow> int \<Rightarrow> string \<Rightarrow> app \<Rightarrow> app res" where
  "combine_dataset name first second operation = submit_worker (T_combine name first second operation)"

definition select_dataset :: "int \<Rightarrow> app \<Rightarrow> app res" where
  "select_dataset dataset_id a =
     Inr (publish_event (ActiveDatasetChanged dataset_id) (store_update [(''source_dataset_id'', SV_int (Some dataset_id))] a))"

text \<open>Exports wait for the end of the migrations.\<close>

definition deferring :: "string \<Rightarrow> task \<Rightarrow> app \<Rightarrow> app res" where
  "deferring what t a =
     (if 0 < ap_performance_users a then Inr (publish_event (BackgroundTaskDeferred what) a) else submit_worker t a)"

definition handle_export_dataset :: "int \<Rightarrow> string \<Rightarrow> int option \<Rightarrow> app \<Rightarrow> app res" where
  "handle_export_dataset dataset_id path account_id = deferring ''export'' (T_export_dataset dataset_id path account_id)"

definition handle_export_log :: "int \<Rightarrow> string \<Rightarrow> app \<Rightarrow> app res" where
  "handle_export_log job_id path = deferring ''log_export'' (T_export_log job_id path)"

definition handle_export_results :: "int \<Rightarrow> string \<Rightarrow> app \<Rightarrow> app res" where
  "handle_export_results job_id path = deferring ''result_export'' (T_export_results job_id path)"

section \<open>Migrations\<close>

definition resolve_target :: "int \<Rightarrow> string \<Rightarrow> app \<Rightarrow> app res" where
  "resolve_target account_id reference a =
     bindR (require_enabled_account account_id a) (\<lambda>_. Inr (submit_network (T_resolve_target account_id reference) a))"

definition precheck_target :: "int \<Rightarrow> app \<Rightarrow> app res" where
  "precheck_target account_id a =
     bindR (require_enabled_account account_id a) (\<lambda>_.
       let snap = snapshot (ap_state a) in
       case ss_target_group snap of
         None \<Rightarrow> Inl (ValueError ''Resolve target group first'')
       | Some g \<Rightarrow>
           if gc_local_group_id g = None then Inl (ValueError ''Resolve target group first'')
           else if ss_target_account_id snap \<noteq> Some account_id
           then Inl (ValueError ''Target group was resolved with a different account; resolve it again'')
           else submit_worker (T_precheck_prepare account_id g) a)"

definition plan_migration :: "int \<Rightarrow> int \<Rightarrow> filter_spec option \<Rightarrow> app \<Rightarrow> app res" where
  "plan_migration account_id source_dataset_id filter_spec a =
     bindR (require_enabled_account account_id a) (\<lambda>_.
       let snap = snapshot (ap_state a) in
       case ss_target_group snap of
         None \<Rightarrow> Inl (ValueError ''Resolve target group first'')
       | Some g \<Rightarrow>
           (case gc_local_group_id g of
              None \<Rightarrow> Inl (ValueError ''Resolve target group first'')
            | Some target_group_id \<Rightarrow>
                if ss_target_account_id snap \<noteq> Some account_id
                then Inl (ValueError ''Target group/pre-check belongs to a different account'')
                else
                  (case ss_precheck snap of
                     None \<Rightarrow> Inl (ValueError ''Run target pre-check first'')
                   | Some p \<Rightarrow>
                       if \<not> gc_can_invite g
                       then Inl (PermissionError ''Selected account has no invite permission in target group'')
                       else submit_worker (T_plan account_id source_dataset_id target_group_id p filter_spec None) a)))"

text \<open>\<open>plan_action\<close> of \<open>bootstrap.py\<close>, registered over \<open>plan_migration\<close> in V1.2 (texts in ASCII).\<close>

definition plan_action :: "int \<Rightarrow> int \<Rightarrow> filter_spec option \<Rightarrow> string \<Rightarrow> app \<Rightarrow> app res" where
  "plan_action account_id source_dataset_id filter_spec action a =
     (let snap = snapshot (ap_state a);
          action' = py_upper action in
      case (ss_target_group snap, ss_precheck snap) of
        (Some g, Some p) \<Rightarrow>
          (case gc_local_group_id g of
             None \<Rightarrow> Inl (ValueError ''Check the target group before planning'')
           | Some target_group_id \<Rightarrow>
               if ss_target_account_id snap \<noteq> Some account_id
               then Inl (ValueError ''The target group was checked with another account'')
               else if action' = ''INVITE'' \<and> py_lower (gc_type g) = ''chat''
               then Inl (RuntimeError ''Basic chats are blocked for batch adds'')
               else submit_worker (T_plan account_id source_dataset_id target_group_id p filter_spec (Some action')) a)
      | _ \<Rightarrow> Inl (ValueError ''Check the target group before planning''))"

definition remaining_wait :: "int \<Rightarrow> iso_text option \<Rightarrow> seconds" where
  "remaining_wait now waiting_until =
     (case waiting_until of
        None \<Rightarrow> 0
      | Some NotIso \<Rightarrow> 0
      | Some (IsoUtc t) \<Rightarrow> max 0 (of_int (t - now) / 1000000)
      | Some (IsoNaive t) \<Rightarrow> max 0 (of_int (t - now) / 1000000))"

definition account_server_wait :: "int \<Rightarrow> app \<Rightarrow> scheduler \<Rightarrow> scheduler" where
  "account_server_wait account_id a sch =
     (let remaining = remaining_wait (ap_utc a) (account_waiting_until_v12 account_id (ap_db a))
      in if 0 < remaining then apply_server_wait remaining sch else sch)"

text \<open>
  \<open>_new_executor\<close> as \<open>bootstrap.py\<close> replaces it: the action is read from the checkpoint of the job.
  The executor is registered before \<open>_apply_account_server_wait\<close> updates its scheduler.
\<close>

definition new_executor :: "int \<Rightarrow> int \<Rightarrow> seconds \<Rightarrow> app \<Rightarrow> app res" where
  "new_executor job_id account_id interval a =
     (let action = executor_action (get_checkpoint job_id (ap_db a)) in
      bindR (InviteScheduler interval (ap_clock a)) (\<lambda>sch.
      bindR (valid_action action) (\<lambda>_.
        Inr (a\<lparr>ap_executors := dict_set job_id
                 \<lparr>es_id = ap_next_executor a, es_scheduler = account_server_wait account_id a sch, es_action = action,
                  es_requests = []\<rparr> (ap_executors a),
               ap_next_executor := ap_next_executor a + 1\<rparr>))))"

definition start_migration :: "int \<Rightarrow> int \<Rightarrow> seconds \<Rightarrow> app \<Rightarrow> app res" where
  "start_migration job_id account_id interval a =
     (if map_of (ap_executors a) job_id \<noteq> None then Inl (RuntimeError ''Migration job is already running'')
      else bindR (require_enabled_account account_id a) (\<lambda>_.
        case job_get job_id (ap_db a) of
          None \<Rightarrow> Inl (ValueError ''Migration job not found'')
        | Some row \<Rightarrow>
            if j_job_type row \<noteq> JT_MIGRATION then Inl (ValueError ''Migration job not found'')
            else if j_state row \<noteq> JS_READY then Inl (ValueError ''Only READY migration jobs can be started'')
            else if j_account_id row \<noteq> Some account_id
            then Inl (ValueError ''Selected account does not match the migration plan'')
            else
              (case j_target_group_id row of
                 None \<Rightarrow> Inl (ValueError ''Migration job is missing target metadata'')
               | Some gid \<Rightarrow>
                   (case group_get gid (Some account_id) (ap_db a) of
                      None \<Rightarrow> Inl (ValueError ''Target group metadata is unavailable'')
                    | Some g \<Rightarrow>
                        bindR (new_executor job_id account_id interval a) (\<lambda>a1.
                          Inr (submit_network (T_run ''migration.start'' job_id account_id (g\<lparr>gc_can_invite := True\<rparr>)) a1))))))"

text \<open>The request goes to the executor that is registered now, even if it has ended when it arrives.\<close>

definition request_migration :: "control_request \<Rightarrow> int \<Rightarrow> app \<Rightarrow> app res" where
  "request_migration r job_id a =
     (case map_of (ap_executors a) job_id of
        None \<Rightarrow> Inl (ValueError ''Migration job is not currently running'')
      | Some sl \<Rightarrow> Inr (submit_network (T_request (es_id sl) r) a))"

definition pause_migration :: "int \<Rightarrow> app \<Rightarrow> app res" where
  "pause_migration = request_migration RequestPause"

definition stop_migration :: "int \<Rightarrow> app \<Rightarrow> app res" where
  "stop_migration = request_migration RequestStop"

definition resume_migration :: "int \<Rightarrow> seconds \<Rightarrow> app \<Rightarrow> app res" where
  "resume_migration job_id interval a =
     (if map_of (ap_executors a) job_id \<noteq> None then Inl (RuntimeError ''Migration job is already running'')
      else
        (case job_get job_id (ap_db a) of
           None \<Rightarrow> Inl (ValueError ''Migration job not found'')
         | Some row \<Rightarrow>
             if j_job_type row \<noteq> JT_MIGRATION then Inl (ValueError ''Migration job not found'')
             else if j_state row \<notin> {JS_PAUSED, JS_WAITING_SERVER}
             then Inl (ValueError ''Only PAUSED/WAITING_SERVER migration jobs can be resumed'')
             else
               (case (j_account_id row, j_target_group_id row) of
                  (Some account_id, Some gid) \<Rightarrow>
                    bindR (require_enabled_account account_id a) (\<lambda>_.
                      case group_get gid (Some account_id) (ap_db a) of
                        None \<Rightarrow> Inl (ValueError ''Target group metadata is unavailable'')
                      | Some g \<Rightarrow>
                          bindR (new_executor job_id account_id interval a) (\<lambda>a1.
                            Inr (submit_network (T_run ''migration.resume'' job_id account_id (g\<lparr>gc_can_invite := True\<rparr>)) a1)))
                | _ \<Rightarrow> Inl (ValueError ''Migration job is missing account/target metadata''))))"

fun job_type_str :: "job_type \<Rightarrow> string" where
  "job_type_str JT_SCAN = ''SCAN''"
| "job_type_str JT_TARGET_SCAN = ''TARGET_SCAN''"
| "job_type_str JT_MIGRATION = ''MIGRATION''"
| "job_type_str JT_REMOVE = ''REMOVE''"
| "job_type_str JT_IMPORT = ''IMPORT''"
| "job_type_str JT_EXPORT = ''EXPORT''"

definition resume_job :: "int \<Rightarrow> seconds \<Rightarrow> app \<Rightarrow> app res" where
  "resume_job job_id interval a =
     (case job_get job_id (ap_db a) of
        None \<Rightarrow> Inl (ValueError ''Job not found'')
      | Some row \<Rightarrow>
          if j_job_type row = JT_MIGRATION then resume_migration job_id interval a
          else if j_job_type row = JT_SCAN then resume_scan job_id a
          else Inl (ValueError (''Job type '' @ job_type_str (j_job_type row) @ '' is not resumable'')))"

definition handle_join :: "int \<Rightarrow> string \<Rightarrow> app \<Rightarrow> app res" where
  "handle_join account_id reference a =
     bindR (require_enabled_account account_id a) (\<lambda>_. Inr (submit_network (T_join account_id reference) a))"

definition handle_leave :: "int \<Rightarrow> string \<Rightarrow> app \<Rightarrow> app res" where
  "handle_leave account_id reference a =
     bindR (require_enabled_account account_id a) (\<lambda>_. Inr (submit_network (T_leave account_id reference) a))"

section \<open>The work\<close>

datatype (plugins only: code size) work_result =
    W_unit
  | W_account account
  | W_identity "auth_identity option"
  | W_code string
  | W_group group_context
  | W_groups "group_context list"
  | W_prepared int int
  | W_id int
  | W_precheck precheck_result
  | W_plan int plan_summary

text \<open>
  What the world contributes to a piece of work: Telegram, the pages a precheck reads, how a scan or
  a run of an executor ends and the database it leaves, the rows of a file that is imported, the
  faults of the file system.  The scan and the run themselves are the theories \<open>Scanner\<close> and
  \<open>Executor\<close>; here their last database is whatever the world says, so that a theorem over all worlds
  holds for every scan and run.
\<close>

record world =
  wo_telegram :: tg_env
  wo_pages :: page_stream
  wo_scan :: "py_exc option \<times> db \<times> peer_memory"
  wo_run :: "py_exc option \<times> db"
  wo_rows :: "exn + (string \<times> cell) list list"
  wo_file_fault :: "exn option"
  wo_refuses :: "string \<Rightarrow> bool"

definition nprog :: "'a dbprog \<Rightarrow> 'a nm" where
  "nprog m s =
     (case m (n_db s) of
        (Inl e, d) \<Rightarrow> (Inl (exn_exc e), s\<lparr>n_db := d\<rparr>)
      | (Inr x, d) \<Rightarrow> (Inr x, s\<lparr>n_db := d\<rparr>))"

definition apply_credentials :: "tg_env \<Rightarrow> int \<Rightarrow> string \<Rightarrow> unit nm" where
  "apply_credentials env api_id api_hash = nbind (close_all env) (\<lambda>_. update_credentials api_id api_hash)"

definition resolve_and_persist :: "tg_env \<Rightarrow> int \<Rightarrow> string \<Rightarrow> group_context nm" where
  "resolve_and_persist env account_id reference =
     nbind (group_service_resolve env account_id reference) (\<lambda>g.
     nbind (nwrite (group_submit_upsert g)) (\<lambda>local_id.
       nreturn (g\<lparr>gc_local_group_id := Some local_id\<rparr>)))"

fun persist_groups :: "group_context list \<Rightarrow> group_context list nm" where
  "persist_groups [] = nreturn []"
| "persist_groups (g # gs) =
     nbind (nwrite (group_submit_upsert g)) (\<lambda>local_id.
     nbind (persist_groups gs) (\<lambda>rest. nreturn (g\<lparr>gc_local_group_id := Some local_id\<rparr> # rest)))"

definition load_joined_groups :: "tg_env \<Rightarrow> int \<Rightarrow> group_context list nm" where
  "load_joined_groups env account_id = nbind (get_joined_groups env account_id) persist_groups"

definition prepare_scan :: "int \<Rightarrow> string \<Rightarrow> group_context \<Rightarrow> (int \<times> int) dbprog" where
  "prepare_scan account_id dataset_name g =
     pbind (transact (dataset_create \<lparr>ds_id = None,
              ds_name = (if py_strip dataset_name = [] then gc_title g else py_strip dataset_name),
              ds_source_type = ''TELEGRAM_GROUP'', ds_source_reference = Some (int_str (gc_telegram_id g)),
              ds_status = ''READY'', ds_member_count = 0\<rparr>)) (\<lambda>dataset_id.
     pbind (transact (job_create \<lparr>jb_job_type = JT_SCAN, jb_state = JS_READY, jb_account_id = Some account_id,
              jb_source_dataset_id = Some dataset_id, jb_target_group_id = gc_local_group_id g, jb_total = 0\<rparr>)) (\<lambda>job_id.
       preturn (dataset_id, job_id)))"

definition prepare_precheck :: "int \<Rightarrow> group_context \<Rightarrow> int dbprog" where
  "prepare_precheck account_id g =
     transact (job_create \<lparr>jb_job_type = JT_TARGET_SCAN, jb_state = JS_RUNNING, jb_account_id = Some account_id,
       jb_source_dataset_id = None, jb_target_group_id = gc_local_group_id g, jb_total = 0\<rparr>)"

fun coverage_str :: "target_coverage \<Rightarrow> string" where
  "coverage_str COMPLETE = ''COMPLETE''"
| "coverage_str PARTIAL = ''PARTIAL''"
| "coverage_str UNAVAILABLE = ''UNAVAILABLE''"

text \<open>
  The precheck proper never raises: an exception of the gateway only lowers the coverage.  A write
  that fails afterwards marks the job as failed.
\<close>

definition precheck_operation :: "page_stream \<Rightarrow> int \<Rightarrow> group_context \<Rightarrow> precheck_result nm" where
  "precheck_operation pages job_id target =
     nbind (nwrite (submit_event job_id ''INFO'' ''TARGET_PRECHECK_STARTED''
              (Some (''target='' @ int_str (gc_telegram_id target))) None)) (\<lambda>_.
     ncatch
       (let result = precheck_run (fst pages, map_option (\<lambda>e. ExternalError (ex_text e)) (snd pages));
            n = int (length (pc_target_ids result)) in
        nbind (nwrite (submit_set_state job_id JS_COMPLETED None
                 (Some [(''coverage'', JStr (coverage_str (pc_coverage result))), (''target_count'', JInt n)]) False)) (\<lambda>_.
        nbind (nwrite (submit_event job_id ''INFO'' ''TARGET_PRECHECK_COMPLETED''
                 (Some (''coverage='' @ coverage_str (pc_coverage result) @ '' target_count='' @ int_str n)) None)) (\<lambda>_.
          nreturn result)))
       (\<lambda>exc.
        nbind (nwrite (submit_set_state job_id JS_FAILED None (Some [(''error'', JStr (ex_text exc))]) False)) (\<lambda>_.
        nbind (nwrite (submit_event job_id ''ERROR'' ''TARGET_PRECHECK_FAILED'' (Some (ex_text exc)) None)) (\<lambda>_.
          nraise exc))))"

definition plan_work :: "int \<Rightarrow> int \<Rightarrow> int \<Rightarrow> precheck_result \<Rightarrow> filter_spec option \<Rightarrow> string option \<Rightarrow> (int \<times> plan_summary) dbprog" where
  "plan_work account_id source_dataset_id target_group_id p spec action =
     (if action = Some ''REMOVE'' then create_remove_plan account_id source_dataset_id target_group_id p spec
      else create_plan account_id source_dataset_id target_group_id p spec)"

definition leave_work :: "tg_env \<Rightarrow> int \<Rightarrow> string \<Rightarrow> group_context nm" where
  "leave_work env account_id reference =
     nbind (resolve_and_persist env account_id reference) (\<lambda>g.
     nbind (membership_leave env account_id g) (\<lambda>_. nreturn g))"

text \<open>Running one of these on the state of the application, with the result tagged.\<close>

definition on_net :: "('a \<Rightarrow> work_result) \<Rightarrow> 'a nm \<Rightarrow> app \<Rightarrow> (py_exc + work_result) \<times> app" where
  "on_net tag m a = (case m (ap_net a) of (r, s) \<Rightarrow> (map_sum id tag r, a\<lparr>ap_net := s\<rparr>))"

definition set_db :: "db \<Rightarrow> app \<Rightarrow> app" where
  "set_db d a = a\<lparr>ap_net := (ap_net a)\<lparr>n_db := d\<rparr>\<rparr>"

definition delete_work :: "(string \<Rightarrow> bool) \<Rightarrow> int \<Rightarrow> app \<Rightarrow> (py_exc + work_result) \<times> app" where
  "delete_work refuses account_id a =
     (case service_delete refuses account_id (ap_db a, ap_session_files a) of
        Inl e \<Rightarrow> (Inl (exn_exc e), a)
      | Inr (d, files) \<Rightarrow> (Inr W_unit, (set_db d a)\<lparr>ap_session_files := files\<rparr>))"

definition save_file :: "exn option \<Rightarrow> string \<Rightarrow> written_file \<Rightarrow> app \<Rightarrow> (py_exc + work_result) \<times> app" where
  "save_file fault path file a =
     (case fault of
        Some e \<Rightarrow> (Inl (exn_exc e), a)
      | None \<Rightarrow> (Inr W_unit, a\<lparr>ap_files := dict_set path file (ap_files a)\<rparr>))"

definition export_work :: "world \<Rightarrow> int \<Rightarrow> string \<Rightarrow> int option \<Rightarrow> app \<Rightarrow> (py_exc + work_result) \<times> app" where
  "export_work w dataset_id path account_id a =
     (case export_dataset (wo_file_fault w) dataset_id account_id (ap_db a) of
        (Inl e, d) \<Rightarrow> (Inl (exn_exc e), set_db d a)
      | (Inr (job_id, file), d) \<Rightarrow> (Inr (W_id job_id), (set_db d a)\<lparr>ap_files := dict_set path file (ap_files a)\<rparr>))"

definition import_work :: "world \<Rightarrow> string \<Rightarrow> string \<Rightarrow> int option \<Rightarrow> app \<Rightarrow> (py_exc + work_result) \<times> app" where
  "import_work w path name account_id a =
     (case import_dataset (wo_rows w) path name account_id (ap_db a) of
        (Inl e, d) \<Rightarrow> (Inl (exn_exc e), set_db d a)
      | (Inr (dataset_id, job_id), d) \<Rightarrow>
          (Inr (W_prepared dataset_id job_id), publish_event (ImportCompleted dataset_id job_id) (set_db d a)))"

definition save_settings :: "exn option \<Rightarrow> int \<Rightarrow> string \<Rightarrow> app \<Rightarrow> (py_exc + work_result) \<times> app" where
  "save_settings fault api_id api_hash a =
     (let a1 = a\<lparr>ap_settings := (Some api_id, Some api_hash)\<rparr> in
      case fault of
        Some e \<Rightarrow> (Inl (exn_exc e), a1)
      | None \<Rightarrow> (Inr W_unit, a1\<lparr>ap_saved_settings := (Some api_id, Some api_hash)\<rparr>))"

definition deliver_request :: "nat \<Rightarrow> control_request \<Rightarrow> app \<Rightarrow> app" where
  "deliver_request i r a =
     a\<lparr>ap_executors := map (\<lambda>(j, sl). (j, if es_id sl = i then sl\<lparr>es_requests := es_requests sl @ [r]\<rparr> else sl)) (ap_executors a)\<rparr>"

fun task_work :: "world \<Rightarrow> task \<Rightarrow> app \<Rightarrow> (py_exc + work_result) \<times> app" where
  "task_work w (T_apply_credentials i h) a = on_net (\<lambda>_. W_unit) (apply_credentials (wo_telegram w) i h) a"
| "task_work w (T_save_settings i h) a = save_settings (wo_file_fault w) i h a"
| "task_work w (T_add_account phone) a = on_net W_account (nwrite (account_add (ap_sessions_dir a) phone)) a"
| "task_work w (T_enable_account i b) a = on_net (\<lambda>_. W_unit) (nwrite (account_enable i b)) a"
| "task_work w (T_disconnect i) a = on_net (\<lambda>_. W_unit) (client_disconnect (wo_telegram w) i) a"
| "task_work w (T_delete_account i) a = delete_work (wo_refuses w) i a"
| "task_work w (T_connect i) a = on_net W_identity (connect_existing (wo_telegram w) i) a"
| "task_work w (T_send_code i phone) a = on_net W_code (send_code (wo_telegram w) i phone) a"
| "task_work w (T_sign_in i phone code h pw) a =
     on_net (\<lambda>x. W_identity (Some x)) (sign_in (wo_telegram w) i phone code h pw) a"
| "task_work w (T_resolve_source i r) a = on_net W_group (resolve_and_persist (wo_telegram w) i r) a"
| "task_work w (T_joined_groups i) a = on_net W_groups (load_joined_groups (wo_telegram w) i) a"
| "task_work w (T_scan_prepare i name g) a = on_net (\<lambda>(x, y). W_prepared x y) (nprog (prepare_scan i name g)) a"
| "task_work w (T_scan _ j cp) a =
     (case wo_scan w of (e, d, mem) \<Rightarrow>
        (case e of None \<Rightarrow> Inr W_unit | Some x \<Rightarrow> Inl x,
         a\<lparr>ap_net := (ap_net a)\<lparr>n_db := d, n_peers := mem\<rparr>, ap_cancelled_scans := removeAll (sj_job_id j) (ap_cancelled_scans a)\<rparr>))"
| "task_work w (T_cancel_scan i) a = (Inr W_unit, a\<lparr>ap_cancelled_scans := i # ap_cancelled_scans a\<rparr>)"
| "task_work w (T_import path name i) a = import_work w path name i a"
| "task_work w (T_combine name x y operation) a = on_net W_id (nwrite (combine name x y operation)) a"
| "task_work w (T_export_dataset i path acc) a = export_work w i path acc a"
| "task_work w (T_resolve_target i r) a = on_net W_group (resolve_and_persist (wo_telegram w) i r) a"
| "task_work w (T_precheck_prepare i g) a = on_net W_id (nprog (prepare_precheck i g)) a"
| "task_work w (T_precheck job i g) a = on_net W_precheck (precheck_operation (wo_pages w) job g) a"
| "task_work w (T_plan i s t p f act) a = on_net (\<lambda>(x, y). W_plan x y) (nprog (plan_work i s t p f act)) a"
| "task_work w (T_run _ job i g) a =
     (case fst (wo_run w) of None \<Rightarrow> Inr W_unit | Some x \<Rightarrow> Inl x, set_db (snd (wo_run w)) a)"
| "task_work w (T_request i r) a = (Inr W_unit, deliver_request i r a)"
| "task_work w (T_export_log job path) a = save_file (wo_file_fault w) path (export_job_log job (ap_db a)) a"
| "task_work w (T_export_results job path) a = save_file (wo_file_fault w) path (export_job_results job (ap_db a)) a"
| "task_work w (T_join i r) a = on_net W_group (membership_join (wo_telegram w) i r) a"
| "task_work w (T_leave i r) a = on_net W_group (leave_work (wo_telegram w) i r) a"

section \<open>The callbacks\<close>

definition code_sent :: "int \<Rightarrow> string \<Rightarrow> app \<Rightarrow> app res" where
  "code_sent i h a =
     Inr (publish_event (AuthCodeSent i (h = []))
       (if h = [] then a else a\<lparr>ap_state := set_phone_code_hash i h (ap_state a)\<rparr>))"

definition authenticated :: "int \<Rightarrow> auth_identity \<Rightarrow> app \<Rightarrow> app res" where
  "authenticated i identity a =
     Inr (publish_event (AccountAuthenticated i identity) (a\<lparr>ap_state := snd (pop_phone_code_hash i (ap_state a))\<rparr>))"

definition scan_prepared :: "int \<Rightarrow> group_context \<Rightarrow> int \<Rightarrow> int \<Rightarrow> app \<Rightarrow> app res" where
  "scan_prepared i g ds job a =
     Inr (submit_network
       (T_scan ''source.scan'' \<lparr>sj_job_id = job, sj_account_id = i, sj_group = g, sj_dataset_id = ds\<rparr> None)
       (publish_event (MemberScanStarted job ds) (store_update [(''source_dataset_id'', SV_int (Some ds))] a)))"

definition combined :: "int \<Rightarrow> app \<Rightarrow> app res" where
  "combined ds a =
     Inr (publish_event (DatasetCreated ds) (store_update [(''source_dataset_id'', SV_int (Some ds))] a))"

definition target_resolved :: "int \<Rightarrow> group_context \<Rightarrow> app \<Rightarrow> app res" where
  "target_resolved i g a =
     Inr (publish_event (TargetGroupResolved g)
       (store_update [(''target_group'', SV_group (Some g)), (''target_account_id'', SV_int (Some i)),
                      (''precheck'', SV_precheck None), (''migration_job_id'', SV_int None)] a))"

definition precheck_done :: "int \<Rightarrow> precheck_result \<Rightarrow> app \<Rightarrow> app res" where
  "precheck_done job p a =
     Inr (publish_event (TargetPrecheckCompleted job (pc_coverage p) (int (length (pc_target_ids p))))
       (store_update [(''precheck'', SV_precheck (Some p))] a))"

definition plan_done :: "int \<Rightarrow> string option \<Rightarrow> int \<Rightarrow> plan_summary \<Rightarrow> app \<Rightarrow> app res" where
  "plan_done s act job summ a =
     Inr (publish_event (MigrationPlanReady job summ act)
       (store_update ((if act = None then [(''source_dataset_id'', SV_int (Some s))] else []) @
          [(''migration_job_id'', SV_int (Some job)), (''plan_summary'', SV_summary (Some summ))]) a))"

text \<open>A callback that raises ends like failed work; the pairs of task and result that do not occur do nothing.\<close>

definition on_success :: "task \<Rightarrow> work_result \<Rightarrow> app \<Rightarrow> app res" where
  "on_success t x a =
     (case t of
        T_apply_credentials i h \<Rightarrow> submit_worker (T_save_settings i h) a
      | T_save_settings _ _ \<Rightarrow> Inr (publish_event SettingsChanged a)
      | T_add_account _ \<Rightarrow> (case x of W_account ac \<Rightarrow> Inr (publish_event (AccountsChanged (ac_id ac)) a) | _ \<Rightarrow> Inr a)
      | T_enable_account i _ \<Rightarrow> Inr (publish_event (AccountsChanged (Some i)) a)
      | T_disconnect i \<Rightarrow> submit_worker (T_delete_account i) a
      | T_delete_account i \<Rightarrow> Inr (publish_event (AccountsChanged (Some i)) a)
      | T_connect i \<Rightarrow> (case x of W_identity y \<Rightarrow> Inr (publish_event (AccountConnected i y) a) | _ \<Rightarrow> Inr a)
      | T_send_code i _ \<Rightarrow> (case x of W_code h \<Rightarrow> code_sent i h a | _ \<Rightarrow> Inr a)
      | T_sign_in i _ _ _ _ \<Rightarrow> (case x of W_identity (Some y) \<Rightarrow> authenticated i y a | _ \<Rightarrow> Inr a)
      | T_resolve_source i _ \<Rightarrow> (case x of W_group g \<Rightarrow> select_source_group i g a | _ \<Rightarrow> Inr a)
      | T_joined_groups i \<Rightarrow> (case x of W_groups gs \<Rightarrow> Inr (publish_event (JoinedGroupsLoaded i gs) a) | _ \<Rightarrow> Inr a)
      | T_scan_prepare i _ g \<Rightarrow> (case x of W_prepared ds job \<Rightarrow> scan_prepared i g ds job a | _ \<Rightarrow> Inr a)
      | T_combine _ _ _ _ \<Rightarrow> (case x of W_id ds \<Rightarrow> combined ds a | _ \<Rightarrow> Inr a)
      | T_resolve_target i _ \<Rightarrow> (case x of W_group g \<Rightarrow> target_resolved i g a | _ \<Rightarrow> Inr a)
      | T_precheck_prepare i g \<Rightarrow> (case x of W_id job \<Rightarrow> Inr (submit_network (T_precheck job i g) a) | _ \<Rightarrow> Inr a)
      | T_precheck job _ _ \<Rightarrow> (case x of W_precheck p \<Rightarrow> precheck_done job p a | _ \<Rightarrow> Inr a)
      | T_plan _ s _ _ _ act \<Rightarrow> (case x of W_plan job summ \<Rightarrow> plan_done s act job summ a | _ \<Rightarrow> Inr a)
      | T_export_log job path \<Rightarrow> Inr (publish_event (LogExportCompleted job path) a)
      | T_export_results job path \<Rightarrow> Inr (publish_event (ResultExportCompleted job path) a)
      | T_join _ _ \<Rightarrow> (case x of W_group g \<Rightarrow> Inr (publish_event (UtilityCompleted ''join'' g) a) | _ \<Rightarrow> Inr a)
      | T_leave _ _ \<Rightarrow> (case x of W_group g \<Rightarrow> Inr (publish_event (UtilityCompleted ''leave'' g) a) | _ \<Rightarrow> Inr a)
      | _ \<Rightarrow> Inr a)"

text \<open>The \<open>done\<close> callbacks: the result or the failure, and \<open>on_finished\<close> in any case.\<close>

definition finish_task :: "world \<Rightarrow> task \<Rightarrow> app \<Rightarrow> app" where
  "finish_task w t a =
     (case task_work w t (a\<lparr>ap_tasks := remove1 t (ap_tasks a)\<rparr>) of
        (Inl e, a1) \<Rightarrow> on_finished t (publish_failure (task_command t) e a1)
      | (Inr x, a1) \<Rightarrow>
          on_finished t
            (case on_success t x a1 of
               Inl e \<Rightarrow> publish_failure (task_command t) (exn_exc e) a1
             | Inr a2 \<Rightarrow> a2))"

section \<open>Shutdown\<close>

text \<open>
  \<open>prepare_shutdown\<close>: every registered executor is asked to pause; the loop waits, up to its
  timeout, until none of them runs a job.
\<close>

definition prepare_shutdown :: "app \<Rightarrow> app" where
  "prepare_shutdown a = fold (\<lambda>(j, sl). deliver_request (es_id sl) RequestPause) (ap_executors a) a"

section \<open>Commands\<close>

text \<open>\<open>register_all\<close>, with \<open>migration.plan\<close> as \<open>bootstrap.py\<close> registers it.\<close>

datatype (plugins only: code size) command =
    Settings_update int string
  | Account_add string
  | Account_enable int bool
  | Account_delete int
  | Account_select int
  | Account_connect int
  | Auth_send_code int
  | Auth_sign_in int string "string option"
  | Source_resolve int string
  | Source_joined_groups int
  | Source_select_group int group_context
  | Source_scan int string
  | Source_cancel_scan int
  | Source_resume_scan int
  | Dataset_import string string "int option"
  | Dataset_combine string int int string
  | Dataset_select int
  | Dataset_export int string "int option"
  | Target_resolve int string
  | Migration_precheck int
  | Migration_plan int int "filter_spec option" string
  | Migration_start int int seconds
  | Migration_pause int
  | Migration_stop int
  | Migration_resume int seconds
  | Job_export_results int string
  | Job_export_log int string
  | Job_resume int seconds
  | Utility_join int string
  | Utility_leave int string

fun handle :: "command \<Rightarrow> app \<Rightarrow> app res" where
  "handle (Settings_update i h) = update_settings i h"
| "handle (Account_add phone) = add_account phone"
| "handle (Account_enable i b) = enable_account i b"
| "handle (Account_delete i) = delete_account i"
| "handle (Account_select i) = select_account i"
| "handle (Account_connect i) = connect_account i"
| "handle (Auth_send_code i) = handle_send_code i"
| "handle (Auth_sign_in i code pw) = handle_sign_in i code pw"
| "handle (Source_resolve i r) = resolve_source i r"
| "handle (Source_joined_groups i) = joined_groups i"
| "handle (Source_select_group i g) = select_source_group i g"
| "handle (Source_scan i name) = scan_source i name"
| "handle (Source_cancel_scan j) = cancel_scan j"
| "handle (Source_resume_scan j) = resume_scan j"
| "handle (Dataset_import path name i) = handle_import path name i"
| "handle (Dataset_combine name x y operation) = combine_dataset name x y operation"
| "handle (Dataset_select i) = select_dataset i"
| "handle (Dataset_export i path acc) = handle_export_dataset i path acc"
| "handle (Target_resolve i r) = resolve_target i r"
| "handle (Migration_precheck i) = precheck_target i"
| "handle (Migration_plan i s f act) = plan_action i s f act"
| "handle (Migration_start j i t) = start_migration j i t"
| "handle (Migration_pause j) = pause_migration j"
| "handle (Migration_stop j) = stop_migration j"
| "handle (Migration_resume j t) = resume_migration j t"
| "handle (Job_export_results j path) = handle_export_results j path"
| "handle (Job_export_log j path) = handle_export_log j path"
| "handle (Job_resume j t) = resume_job j t"
| "handle (Utility_join i r) = handle_join i r"
| "handle (Utility_leave i r) = handle_leave i r"

text \<open>
  The application at work: commands arrive, tasks end in any order, shutdown asks the executors to
  pause, and meanwhile the work that is still running writes to the database, time passes, and the
  loop and the pool may stop.
\<close>

inductive app_step :: "app \<Rightarrow> app \<Rightarrow> bool" where
  command: "handle c a = Inr a' \<Longrightarrow> app_step a a'"
| finish: "t \<in> set (ap_tasks a) \<Longrightarrow> app_step a (finish_task w t a)"
| shutdown: "app_step a (prepare_shutdown a)"
| background: "app_step a (a\<lparr>ap_net := net, ap_performance_users := users, ap_clock := clk, ap_utc := utc,
    ap_network_up := up, ap_workers_up := wup\<rparr>)"

inductive app_reachable :: "app \<Rightarrow> app \<Rightarrow> bool" for a0 where
  start: "app_reachable a0 a0"
| step: "app_reachable a0 a \<Longrightarrow> app_step a a' \<Longrightarrow> app_reachable a0 a'"

end
