(* ===== verification/Handler_Safety.thy ===== *)
theory Handler_Safety
  imports Handlers
begin

text \<open>
  What the command handlers guarantee together: the registry of executors is exact, so that a job
  never runs twice at the same time, and a migration is only started or resumed as its plan allows.
\<close>

section \<open>One run per job\<close>

fun run_job :: "task \<Rightarrow> int option" where
  "run_job (T_run _ j _ _) = Some j"
| "run_job _ = None"

definition run_jobs :: "app \<Rightarrow> int list" where
  "run_jobs a = List.map_filter run_job (ap_tasks a)"

text \<open>The part of the state that is about running executors.\<close>

definition runs :: "app \<Rightarrow> int list \<times> (int \<times> nat) list \<times> nat" where
  "runs a = (run_jobs a, map (\<lambda>(j, sl). (j, es_id sl)) (ap_executors a), ap_next_executor a)"

definition runs_ok :: "app \<Rightarrow> bool" where
  "runs_ok a \<longleftrightarrow>
     distinct (run_jobs a) \<and> set (run_jobs a) = fst ` set (ap_executors a) \<and> distinct (map fst (ap_executors a)) \<and>
     distinct (map (es_id \<circ> snd) (ap_executors a)) \<and> (\<forall>(j, sl) \<in> set (ap_executors a). es_id sl < ap_next_executor a)"

lemma runs_ok_frame:
  assumes "runs a' = runs a"
  shows "runs_ok a' = runs_ok a"
proof -
  have m: "map (\<lambda>(j, sl). (j, es_id sl)) (ap_executors a') = map (\<lambda>(j, sl). (j, es_id sl)) (ap_executors a)"
    using assms by (simp add: runs_def)
  have "map fst (ap_executors a') = map fst (ap_executors a)" "map (es_id \<circ> snd) (ap_executors a') = map (es_id \<circ> snd) (ap_executors a)"
    using arg_cong [OF m, of "map fst"] arg_cong [OF m, of "map snd"] by (simp_all add: comp_def split_def)
  moreover have "fst ` set (ap_executors a) = set (map fst (ap_executors a))" "fst ` set (ap_executors a') = set (map fst (ap_executors a'))"
    "(\<forall>(j, sl) \<in> set (ap_executors a). es_id sl < n) \<longleftrightarrow> (\<forall>i \<in> set (map (es_id \<circ> snd) (ap_executors a)). i < n)"
    "(\<forall>(j, sl) \<in> set (ap_executors a'). es_id sl < n) \<longleftrightarrow> (\<forall>i \<in> set (map (es_id \<circ> snd) (ap_executors a')). i < n)" for n
    by auto
  ultimately show ?thesis using assms by (simp add: runs_ok_def runs_def)
qed

lemma runs_simps [simp]:
  "runs (publish_event e a) = runs a" "runs (store_update kvs a) = runs a" "runs (publish_failure c x a) = runs a"
  "runs (set_db d a) = runs a" "runs (a\<lparr>ap_net := n\<rparr>) = runs a" "runs (a\<lparr>ap_state := st\<rparr>) = runs a"
  "runs (a\<lparr>ap_session_files := fs\<rparr>) = runs a" "runs (a\<lparr>ap_files := fl\<rparr>) = runs a" "runs (a\<lparr>ap_cancelled_scans := cs\<rparr>) = runs a"
  "runs (a\<lparr>ap_settings := se\<rparr>) = runs a" "runs (a\<lparr>ap_saved_settings := se\<rparr>) = runs a"
  "runs (a\<lparr>ap_events := ev\<rparr>) = runs a"
  by (simp_all add: runs_def run_jobs_def publish_event_def store_update_def publish_failure_def set_db_def)

lemma run_jobs_simps [simp]:
  "run_jobs (a\<lparr>ap_tasks := ap_tasks a @ [t]\<rparr>) = run_jobs a @ (case run_job t of None \<Rightarrow> [] | Some j \<Rightarrow> [j])"
  by (simp add: run_jobs_def List.map_filter_def split: option.splits)

lemma on_finished_other: "run_job t = None \<Longrightarrow> on_finished t a = a"
  by (cases t) (simp_all add: on_finished_def)

lemma submit_network_runs: "run_job t = None \<Longrightarrow> runs (submit_network t a) = runs a"
  by (simp add: submit_network_def on_finished_other) (simp add: runs_def)

lemma submit_worker_runs: "submit_worker t a = Inr a' \<Longrightarrow> run_job t = None \<Longrightarrow> runs a' = runs a"
  by (auto simp: submit_worker_def runs_def split: if_splits)

lemma deliver_request_runs [simp]: "runs (deliver_request i r a) = runs a"
  by (auto simp: runs_def run_jobs_def deliver_request_def)

lemma on_net_runs: "on_net tag m a = (r, a') \<Longrightarrow> runs a' = runs a"
  by (auto simp: on_net_def split: prod.splits)

lemma task_work_runs: "task_work w t a = (r, a') \<Longrightarrow> runs a' = runs a"
  by (cases t)
    (auto simp: save_settings_def delete_work_def import_work_def export_work_def save_file_def Let_def
      dest: on_net_runs split: prod.splits sum.splits option.splits)

lemma on_success_runs:
  assumes "on_success t x a = Inr a'"
  shows "runs a' = runs a"
  using assms
  by (cases t)
    (auto simp: on_success_def code_sent_def authenticated_def scan_prepared_def combined_def target_resolved_def
      precheck_done_def plan_done_def select_source_group_def submit_network_runs submit_worker_runs
      split: work_result.splits option.splits dest!: submit_worker_runs)

lemma handler_runs:
  "update_settings i h a = Inr a' \<Longrightarrow> runs a' = runs a"
  "enable_account i b a = Inr a' \<Longrightarrow> runs a' = runs a"
  "delete_account i a = Inr a' \<Longrightarrow> runs a' = runs a"
  "handle_sign_in i code pw a = Inr a' \<Longrightarrow> runs a' = runs a"
  "scan_source i name a = Inr a' \<Longrightarrow> runs a' = runs a"
  "resume_scan j a = Inr a' \<Longrightarrow> runs a' = runs a"
  "precheck_target i a = Inr a' \<Longrightarrow> runs a' = runs a"
  "plan_action i sds f act a = Inr a' \<Longrightarrow> runs a' = runs a"
  "request_migration r j a = Inr a' \<Longrightarrow> runs a' = runs a"
  "deferring what t a = Inr a' \<Longrightarrow> run_job t = None \<Longrightarrow> runs a' = runs a"
  by (auto simp: update_settings_def enable_account_def delete_account_def handle_sign_in_def scan_source_def resume_scan_def
      precheck_target_def plan_action_def request_migration_def deferring_def submit_network_runs Let_def
      dest!: submit_worker_runs split: if_splits option.splits)

lemma new_executor_effect:
  assumes "new_executor j i t a = Inr a1"
  shows "\<exists>sl. a1 = a\<lparr>ap_executors := dict_set j sl (ap_executors a), ap_next_executor := ap_next_executor a + 1\<rparr> \<and>
    es_id sl = ap_next_executor a \<and> es_action sl = executor_action (get_checkpoint j (ap_db a)) \<and> es_requests sl = []"
  using assms by (auto simp: new_executor_def Let_def)

lemma dict_set_new: "map_of d k = None \<Longrightarrow> dict_set k v d = d @ [(k, v)]"
  by (induction d rule: dict_set.induct) (auto split: if_splits)

lemma dict_pop_set_new: "map_of d k = None \<Longrightarrow> dict_pop k (dict_set k v d) = d"
  by (auto simp: dict_set_new dict_pop_def map_of_eq_None_iff intro!: filter_True)

text \<open>A run that is submitted registers its executor; one that cannot be submitted leaves no trace.\<close>

lemma begin_run_ok:
  assumes "runs_ok a" "map_of (ap_executors a) j = None" "new_executor j i t a = Inr a1"
  shows "runs_ok (submit_network (T_run c j i g) a1)"
proof -
  obtain sl where a1: "a1 = a\<lparr>ap_executors := dict_set j sl (ap_executors a), ap_next_executor := ap_next_executor a + 1\<rparr>"
    and sl: "es_id sl = ap_next_executor a" using new_executor_effect [OF assms(3)] by blast
  have new: "j \<notin> fst ` set (ap_executors a)" using assms(2) by (simp add: map_of_eq_None_iff)
  show ?thesis
  proof (cases "ap_network_up a1")
    case True
    have "run_jobs (submit_network (T_run c j i g) a1) = run_jobs a @ [j]"
      using True by (simp add: submit_network_def a1 run_jobs_def List.map_filter_def)
    moreover have "ap_executors (submit_network (T_run c j i g) a1) = ap_executors a @ [(j, sl)]"
      "ap_next_executor (submit_network (T_run c j i g) a1) = ap_next_executor a + 1"
      using True assms(2) by (simp_all add: submit_network_def a1 dict_set_new)
    ultimately show ?thesis using assms(1) new sl by (fastforce simp: runs_ok_def)
  next
    case False
    have "run_jobs (submit_network (T_run c j i g) a1) = run_jobs a"
      using False by (simp add: submit_network_def a1 run_jobs_def on_finished_def publish_failure_def publish_event_def)
    moreover have "ap_executors (submit_network (T_run c j i g) a1) = ap_executors a"
      "ap_next_executor (submit_network (T_run c j i g) a1) = ap_next_executor a + 1"
      using False assms(2)
      by (simp_all add: submit_network_def a1 on_finished_def publish_failure_def publish_event_def dict_pop_set_new)
    ultimately show ?thesis using assms(1) by (fastforce simp: runs_ok_def)
  qed
qed

lemma start_migration_runs: "runs_ok a \<Longrightarrow> start_migration j i t a = Inr a' \<Longrightarrow> runs_ok a'"
  by (auto simp: start_migration_def split: if_splits option.splits intro: begin_run_ok)

lemma resume_migration_runs: "runs_ok a \<Longrightarrow> resume_migration j t a = Inr a' \<Longrightarrow> runs_ok a'"
  by (auto simp: resume_migration_def split: if_splits option.splits intro: begin_run_ok)

lemma enabled_submit_runs:
  "bindR (require_enabled_account i a) (\<lambda>x. Inr (submit_network (f x) a)) = Inr a' \<Longrightarrow> (\<And>x. run_job (f x) = None) \<Longrightarrow>
     runs a' = runs a"
  by (auto simp: submit_network_runs)

lemma simple_handler_runs:
  "add_account phone a = Inr a' \<Longrightarrow> runs a' = runs a"
  "select_account i a = Inr a' \<Longrightarrow> runs a' = runs a"
  "connect_account i a = Inr a' \<Longrightarrow> runs a' = runs a"
  "handle_send_code i a = Inr a' \<Longrightarrow> runs a' = runs a"
  "resolve_source i r a = Inr a' \<Longrightarrow> runs a' = runs a"
  "joined_groups i a = Inr a' \<Longrightarrow> runs a' = runs a"
  "select_source_group i g a = Inr a' \<Longrightarrow> runs a' = runs a"
  "cancel_scan j a = Inr a' \<Longrightarrow> runs a' = runs a"
  "handle_import path name acc a = Inr a' \<Longrightarrow> runs a' = runs a"
  "combine_dataset name x y operation a = Inr a' \<Longrightarrow> runs a' = runs a"
  "select_dataset i a = Inr a' \<Longrightarrow> runs a' = runs a"
  "handle_export_dataset i path acc a = Inr a' \<Longrightarrow> runs a' = runs a"
  "resolve_target i r a = Inr a' \<Longrightarrow> runs a' = runs a"
  "pause_migration j a = Inr a' \<Longrightarrow> runs a' = runs a"
  "stop_migration j a = Inr a' \<Longrightarrow> runs a' = runs a"
  "handle_export_results j path a = Inr a' \<Longrightarrow> runs a' = runs a"
  "handle_export_log j path a = Inr a' \<Longrightarrow> runs a' = runs a"
  "handle_join i r a = Inr a' \<Longrightarrow> runs a' = runs a"
  "handle_leave i r a = Inr a' \<Longrightarrow> runs a' = runs a"
  unfolding add_account_def select_account_def connect_account_def handle_send_code_def resolve_source_def joined_groups_def
    select_source_group_def cancel_scan_def handle_import_def combine_dataset_def select_dataset_def handle_export_dataset_def
    resolve_target_def pause_migration_def stop_migration_def handle_export_results_def handle_export_log_def
    handle_join_def handle_leave_def
  by (auto simp: submit_network_runs dest: submit_worker_runs handler_runs(9,10))

lemma resume_job_runs:
  assumes "runs_ok a" "resume_job j t a = Inr a'"
  shows "runs_ok a'"
proof -
  have "resume_migration j t a = Inr a' \<or> resume_scan j a = Inr a'"
    using assms(2) by (simp add: resume_job_def split: option.splits if_splits)
  then show ?thesis
  proof
    assume "resume_scan j a = Inr a'"
    then show ?thesis by (rule iffD2 [OF runs_ok_frame [OF handler_runs(6)] assms(1)])
  qed (rule resume_migration_runs [OF assms(1)])
qed

lemma handle_runs:
  assumes "runs_ok a" "handle c a = Inr a'"
  shows "runs_ok a'"
proof -
  have frame: "runs a' = runs a \<Longrightarrow> runs_ok a'" by (rule iffD2 [OF runs_ok_frame assms(1)])
  note keeps = handler_runs(1-8) simple_handler_runs
  note starts = start_migration_runs [OF assms(1)] resume_migration_runs [OF assms(1)] resume_job_runs [OF assms(1)]
  show ?thesis
  proof (cases c)
    case (Migration_start j i t)
    then show ?thesis using assms(2) starts(1) by simp
  next
    case (Migration_resume j t)
    then show ?thesis using assms(2) starts(2) by simp
  next
    case (Job_resume j t)
    then show ?thesis using assms(2) starts(3) by simp
  qed (insert assms(2), (simp, rule frame, erule keeps)+)
qed

lemma map_filter_append: "List.map_filter f (xs @ ys) = List.map_filter f xs @ List.map_filter f ys"
  by (simp add: List.map_filter_def)

text \<open>The end of a run takes exactly its own entry off the registry.\<close>

lemma run_jobs_remove:
  assumes "t \<in> set (ap_tasks a)" "distinct (run_jobs a)"
  shows "distinct (run_jobs (a\<lparr>ap_tasks := remove1 t (ap_tasks a)\<rparr>))"
    "set (run_jobs (a\<lparr>ap_tasks := remove1 t (ap_tasks a)\<rparr>)) = set (run_jobs a) - set_option (run_job t)"
proof -
  obtain xs ys where ts: "ap_tasks a = xs @ t # ys" "t \<notin> set xs" using split_list_first [OF assms(1)] by blast
  have "run_jobs (a\<lparr>ap_tasks := remove1 t (ap_tasks a)\<rparr>) = List.map_filter run_job xs @ List.map_filter run_job ys"
    using ts by (simp add: run_jobs_def remove1_append map_filter_append)
  moreover have "run_jobs a = List.map_filter run_job xs @ (case run_job t of None \<Rightarrow> [] | Some j \<Rightarrow> [j]) @ List.map_filter run_job ys"
    using ts by (simp add: run_jobs_def map_filter_append List.map_filter_simps split: option.splits)
  ultimately show "distinct (run_jobs (a\<lparr>ap_tasks := remove1 t (ap_tasks a)\<rparr>))"
    "set (run_jobs (a\<lparr>ap_tasks := remove1 t (ap_tasks a)\<rparr>)) = set (run_jobs a) - set_option (run_job t)"
    using assms(2) by (auto split: option.splits)
qed

lemma finish_task_runs:
  assumes "runs_ok a" "t \<in> set (ap_tasks a)"
  shows "runs_ok (finish_task w t a)"
proof -
  let ?a0 = "a\<lparr>ap_tasks := remove1 t (ap_tasks a)\<rparr>"
  obtain r a1 where work: "task_work w t ?a0 = (r, a1)" by fastforce
  define a2 where "a2 = (case r of Inl e \<Rightarrow> publish_failure (task_command t) e a1
      | Inr x \<Rightarrow> (case on_success t x a1 of Inl e \<Rightarrow> publish_failure (task_command t) (exn_exc e) a1 | Inr a2 \<Rightarrow> a2))"
  have fin: "finish_task w t a = on_finished t a2"
    using work by (auto simp: finish_task_def a2_def split: sum.splits)
  have "runs a2 = runs a1" by (auto simp: a2_def on_success_runs split: sum.splits)
  then have runs: "runs a2 = runs ?a0" using task_work_runs [OF work] by simp
  note removed = run_jobs_remove [OF assms(2)]
  show ?thesis
  proof (cases "run_job t")
    case None
    then have "runs_ok ?a0" using assms(1) removed by (simp add: runs_ok_def)
    then have "runs_ok a2" by (rule iffD2 [OF runs_ok_frame [OF runs]])
    then show ?thesis using None by (simp add: fin on_finished_other)
  next
    case (Some j)
    then obtain c i g where t: "t = T_run c j i g" by (cases t) auto
    have jobs: "run_jobs a2 = run_jobs ?a0" "ap_next_executor a2 = ap_next_executor a"
      and m: "map (\<lambda>(j, sl). (j, es_id sl)) (ap_executors a2) = map (\<lambda>(j, sl). (j, es_id sl)) (ap_executors a)"
      using runs by (simp_all add: runs_def)
    have ok: "runs_ok (a2\<lparr>ap_tasks := ap_tasks a\<rparr>)"
      using runs_ok_frame [of "a2\<lparr>ap_tasks := ap_tasks a\<rparr>" a] assms(1) jobs m by (simp add: runs_def run_jobs_def)
    have "set (run_jobs ?a0) = fst ` set (dict_pop j (ap_executors a2))"
      using ok removed(2) assms(1) Some by (auto simp: runs_ok_def run_jobs_def dict_pop_def)
    moreover have "distinct (run_jobs ?a0)" using assms(1) removed(1) by (simp add: runs_ok_def)
    moreover have "run_jobs (finish_task w t a) = run_jobs ?a0" "ap_executors (finish_task w t a) = dict_pop j (ap_executors a2)"
      "ap_next_executor (finish_task w t a) = ap_next_executor a2"
      unfolding fin using jobs(1) by (simp_all add: t on_finished_def run_jobs_def)
    moreover have "distinct (map fst (dict_pop j (ap_executors a2)))" "distinct (map (es_id \<circ> snd) (dict_pop j (ap_executors a2)))"
      "\<forall>(j, sl) \<in> set (dict_pop j (ap_executors a2)). es_id sl < ap_next_executor a2"
      using ok by (auto simp: runs_ok_def dict_pop_def distinct_map_filter)
    ultimately show ?thesis by (simp add: runs_ok_def)
  qed
qed

lemma prepare_shutdown_runs: "runs (prepare_shutdown a) = runs a"
proof -
  have "runs (fold (\<lambda>(j, sl). deliver_request (es_id sl) RequestPause) es b) = runs b" for es b
    by (induction es arbitrary: b) auto
  then show ?thesis by (simp add: prepare_shutdown_def)
qed

lemma app_step_runs: "app_step a a' \<Longrightarrow> runs_ok a \<Longrightarrow> runs_ok a'"
proof (induction rule: app_step.induct)
  case (shutdown a)
  then show ?case using runs_ok_frame [OF prepare_shutdown_runs] by simp
next
  case (background a net users clk utc up wup)
  then show ?case by (simp add: runs_ok_def run_jobs_def)
qed (auto intro: handle_runs finish_task_runs)

definition idle_app :: "app \<Rightarrow> bool" where
  "idle_app a \<longleftrightarrow> ap_tasks a = [] \<and> ap_executors a = []"

lemma app_reachable_runs: "app_reachable a0 a \<Longrightarrow> idle_app a0 \<Longrightarrow> runs_ok a"
proof (induction rule: app_reachable.induct)
  case start
  then show ?case by (simp add: idle_app_def runs_ok_def run_jobs_def List.map_filter_simps)
qed (auto intro: app_step_runs)

text \<open>
  C2. A migration job never runs twice at the same time.  Whatever commands the user gives, in
  whatever order the tasks end or fail, and also when the network loop is down: at most one run of a
  job is under way, the registry of executors holds exactly the jobs that run, and a command that
  would start a second run is refused.  A pause or stop reaches the executor it was meant for.
\<close>

theorem one_run_per_job:
  assumes "idle_app a0" "app_reachable a0 a"
  shows "distinct (run_jobs a) \<and> set (run_jobs a) = fst ` set (ap_executors a) \<and>
    (\<forall>j \<in> set (run_jobs a). \<forall>i t. start_migration j i t a = Inl (RuntimeError ''Migration job is already running'') \<and>
       resume_migration j t a = Inl (RuntimeError ''Migration job is already running'')) \<and>
    (\<forall>j sl j' sl'. map_of (ap_executors a) j = Some sl \<and> map_of (ap_executors a) j' = Some sl' \<and> es_id sl = es_id sl' \<longrightarrow> j = j')"
proof -
  have ok: "runs_ok a" by (rule app_reachable_runs [OF assms(2,1)])
  have reg: "map_of (ap_executors a) j \<noteq> None" if "j \<in> set (run_jobs a)" for j
    using ok that by (simp add: runs_ok_def map_of_eq_None_iff)
  have "j = j'" if "map_of (ap_executors a) j = Some sl" "map_of (ap_executors a) j' = Some sl'" "es_id sl = es_id sl'" for j sl j' sl'
  proof -
    have "(j, sl) \<in> set (ap_executors a)" "(j', sl') \<in> set (ap_executors a)" using that map_of_SomeD by fast+
    moreover have "inj_on (es_id \<circ> snd) (set (ap_executors a))" using ok by (simp add: runs_ok_def distinct_map)
    ultimately have "(j, sl) = (j', sl')" using that(3) by (auto simp only: comp_apply snd_conv dest: inj_onD [of _ _ "(j, sl)" "(j', sl')"])
    then show ?thesis by simp
  qed
  then show ?thesis using ok reg by (auto simp: runs_ok_def start_migration_def resume_migration_def)
qed

definition sample_app :: app where
  "sample_app = \<lparr>ap_net = sample_net, ap_state = StateSnapshot, ap_executors = [], ap_tasks = [], ap_events = [],
     ap_next_executor = 0, ap_network_up = True, ap_workers_up = True, ap_performance_users = 0, ap_cancelled_scans = [],
     ap_settings = (Some 1, Some ''hash''), ap_saved_settings = (Some 1, Some ''hash''), ap_sessions_dir = ''sessions'',
     ap_session_files = [], ap_files = [], ap_clock = \<lparr>clk_kind = FakeClock, clk_now = 0\<rparr>, ap_utc = 0\<rparr>"

lemma sample_start: "\<exists>a'. start_migration 1 1 5 sample_app = Inr a'"
proof -
  have "is_ok (start_migration 1 1 5 sample_app)" by code_simp
  then show ?thesis by (simp add: is_ok_iff)
qed

theorem one_run_per_job_witness:
  "\<exists>a. app_reachable sample_app a \<and> handle (Migration_start 1 1 5) sample_app = Inr a \<and>
     distinct (run_jobs a) \<and> set (run_jobs a) = fst ` set (ap_executors a)"
proof -
  obtain a where a: "start_migration 1 1 5 sample_app = Inr a" using sample_start by blast
  then have h: "handle (Migration_start 1 1 5) sample_app = Inr a" by simp
  have r: "app_reachable sample_app a" by (rule app_reachable.step [OF app_reachable.start app_step.command [OF h]])
  have idle: "idle_app sample_app" by (simp add: idle_app_def sample_app_def)
  show ?thesis using one_run_per_job [OF idle r] r h by blast
qed

section \<open>What a command may submit\<close>

definition usable_account :: "int \<Rightarrow> app \<Rightarrow> bool" where
  "usable_account i a \<longleftrightarrow> (\<exists>ac. account_get i (ap_db a) = Some ac \<and> ac_enabled ac)"

definition idle_account :: "int \<Rightarrow> app \<Rightarrow> bool" where
  "idle_account i a \<longleftrightarrow>
     account_get i (ap_db a) \<noteq> None \<and> (\<forall>r \<in> set (t_jobs (ap_db a)). j_account_id r = Some i \<longrightarrow> is_terminal (j_state r))"

text \<open>
  The work a command may hand over in a state of the application; what is not listed is only
  submitted by the callback of other work.
\<close>

fun may_submit :: "app \<Rightarrow> task \<Rightarrow> bool" where
  "may_submit a (T_apply_credentials i h) = (0 < i \<and> h \<noteq> [])"
| "may_submit a (T_add_account phone) = True"
| "may_submit a (T_enable_account i enabled) =
     (enabled \<or> idle_account i a \<and>
        (\<forall>ac. account_get i (ap_db a) = Some ac \<longrightarrow> ac_status ac \<notin> {AS_BUSY, AS_WAITING_SERVER, AS_CONNECTING}))"
| "may_submit a (T_disconnect i) = idle_account i a"
| "may_submit a (T_connect i) = usable_account i a"
| "may_submit a (T_send_code i phone) = (usable_account i a \<and> map_option ac_phone (account_get i (ap_db a)) = Some phone)"
| "may_submit a (T_sign_in i phone code h pw) =
     (usable_account i a \<and> map_option ac_phone (account_get i (ap_db a)) = Some phone \<and> h \<noteq> [] \<and>
      map_of (ss_phone_code_hashes (snapshot (ap_state a))) i = Some h)"
| "may_submit a (T_resolve_source i r) = usable_account i a"
| "may_submit a (T_joined_groups i) = usable_account i a"
| "may_submit a (T_scan_prepare i name g) =
     (usable_account i a \<and> ss_source_group (snapshot (ap_state a)) = Some g \<and> gc_local_group_id g \<noteq> None \<and>
      ss_source_account_id (snapshot (ap_state a)) = Some i)"
| "may_submit a (T_scan command j cp) =
     (usable_account (sj_account_id j) a \<and> (\<exists>row. job_get (sj_job_id j) (ap_db a) = Some row \<and> j_job_type row = JT_SCAN \<and>
        j_state row = JS_PAUSED \<and> j_account_id row = Some (sj_account_id j) \<and> j_source_dataset_id row = Some (sj_dataset_id j)) \<and>
      (\<exists>c. cp = Some c \<and> checkpoint_int ''offset'' (get_checkpoint (sj_job_id j) (ap_db a)) = Inr (sk_offset c)))"
| "may_submit a (T_cancel_scan j) = True"
| "may_submit a (T_import path name acc) = True"
| "may_submit a (T_combine name x y operation) = True"
| "may_submit a (T_export_dataset ds path acc) = (ap_performance_users a = 0)"
| "may_submit a (T_export_log j path) = (ap_performance_users a = 0)"
| "may_submit a (T_export_results j path) = (ap_performance_users a = 0)"
| "may_submit a (T_resolve_target i r) = usable_account i a"
| "may_submit a (T_precheck_prepare i g) =
     (usable_account i a \<and> ss_target_group (snapshot (ap_state a)) = Some g \<and> gc_local_group_id g \<noteq> None \<and>
      ss_target_account_id (snapshot (ap_state a)) = Some i)"
| "may_submit a (T_plan i s t p f act) =
     (ss_precheck (snapshot (ap_state a)) = Some p \<and> ss_target_account_id (snapshot (ap_state a)) = Some i \<and>
      (\<exists>g. ss_target_group (snapshot (ap_state a)) = Some g \<and> gc_local_group_id g = Some t \<and>
        \<not> (act = Some ''INVITE'' \<and> py_lower (gc_type g) = ''chat'')))"
| "may_submit a (T_run command j i g) =
     (map_of (ap_executors a) j = None \<and> usable_account i a \<and>
      (\<exists>row. job_get j (ap_db a) = Some row \<and> j_job_type row = JT_MIGRATION \<and> j_account_id row = Some i \<and>
        j_state row \<in> (if command = ''migration.start'' then {JS_READY} else {JS_PAUSED, JS_WAITING_SERVER})))"
| "may_submit a (T_request n r) = (\<exists>j sl. map_of (ap_executors a) j = Some sl \<and> es_id sl = n)"
| "may_submit a (T_join i r) = usable_account i a"
| "may_submit a (T_leave i r) = usable_account i a"
| "may_submit a (T_save_settings i h) = False"
| "may_submit a (T_delete_account i) = False"
| "may_submit a (T_precheck j i g) = False"

definition submits :: "app \<Rightarrow> app \<Rightarrow> bool" where
  "submits a a' \<longleftrightarrow> ap_db a' = ap_db a \<and> (ap_tasks a' = ap_tasks a \<or> (\<exists>t. ap_tasks a' = ap_tasks a @ [t] \<and> may_submit a t))"

lemma submits_quiet: "submits a (publish_event e a)" "submits a (store_update kvs a)" "submits a (publish_event e (store_update kvs a))"
  by (simp_all add: submits_def publish_event_def store_update_def)

lemma submits_worker: "may_submit a t \<Longrightarrow> submit_worker t a = Inr a' \<Longrightarrow> submits a a'"
  by (auto simp: submits_def submit_worker_def split: if_splits)

lemma submits_network:
  assumes "ap_network_up a \<Longrightarrow> may_submit a t" "ap_db a1 = ap_db a" "ap_tasks a1 = ap_tasks a" "ap_network_up a1 = ap_network_up a"
  shows "submits a (submit_network t a1)"
  using assms by (cases t) (auto simp: submits_def submit_network_def on_finished_def publish_failure_def publish_event_def)

lemma require_enabled_usable:
  "require_enabled_account i a = Inr ac \<longleftrightarrow> account_get i (ap_db a) = Some ac \<and> ac_enabled ac"
  by (auto simp: require_enabled_account_def split: option.splits if_splits)

lemma truthy_text: "truthy_str v \<Longrightarrow> or_empty v \<noteq> [] \<and> v = Some (or_empty v)"
  by (cases v) (auto simp: truthy_str_def or_empty_def)

lemmas usable_defs = usable_account_def require_enabled_usable

lemma account_commands_submit:
  "update_settings n h a = Inr a' \<Longrightarrow> submits a a'" "add_account phone a = Inr a' \<Longrightarrow> submits a a'"
  "enable_account i b a = Inr a' \<Longrightarrow> submits a a'" "delete_account i a = Inr a' \<Longrightarrow> submits a a'"
  "select_account i a = Inr a' \<Longrightarrow> submits a a'" "connect_account i a = Inr a' \<Longrightarrow> submits a a'"
  "handle_send_code i a = Inr a' \<Longrightarrow> submits a a'" "handle_sign_in i code pw a = Inr a' \<Longrightarrow> submits a a'"
  by (auto simp: update_settings_def add_account_def enable_account_def delete_account_def select_account_def connect_account_def
      handle_send_code_def handle_sign_in_def usable_defs idle_account_def has_nonterminal_jobs_def Let_def
      dest: truthy_text intro!: submits_network submits_quiet elim!: submits_worker [rotated] split: if_splits option.splits)


lemma source_commands_submit:
  "resolve_source i r a = Inr a' \<Longrightarrow> submits a a'" "joined_groups i a = Inr a' \<Longrightarrow> submits a a'"
  "select_source_group i g a = Inr a' \<Longrightarrow> submits a a'" "scan_source i name a = Inr a' \<Longrightarrow> submits a a'"
  "cancel_scan j a = Inr a' \<Longrightarrow> submits a a'" "handle_import path name acc a = Inr a' \<Longrightarrow> submits a a'"
  "combine_dataset name x y operation a = Inr a' \<Longrightarrow> submits a a'" "select_dataset ds a = Inr a' \<Longrightarrow> submits a a'"
  by (auto simp: resolve_source_def joined_groups_def select_source_group_def scan_source_def cancel_scan_def handle_import_def
      combine_dataset_def select_dataset_def usable_defs Let_def
      intro!: submits_network submits_quiet elim!: submits_worker [rotated] split: if_splits option.splits)

lemma resume_scan_submits: "resume_scan j a = Inr a' \<Longrightarrow> submits a a'"
  by (auto simp: resume_scan_def usable_defs Let_def intro!: submits_network split: if_splits option.splits)

lemma deferring_submits: "(ap_performance_users a = 0 \<Longrightarrow> may_submit a t) \<Longrightarrow> deferring what t a = Inr a' \<Longrightarrow> submits a a'"
  by (auto simp: deferring_def intro!: submits_quiet elim!: submits_worker [rotated] split: if_splits)

lemma export_commands_submit:
  "handle_export_dataset ds path acc a = Inr a' \<Longrightarrow> submits a a'" "handle_export_log j path a = Inr a' \<Longrightarrow> submits a a'"
  "handle_export_results j path a = Inr a' \<Longrightarrow> submits a a'"
  by (auto simp: handle_export_dataset_def handle_export_log_def handle_export_results_def elim!: deferring_submits [rotated])

lemma target_commands_submit:
  "resolve_target i r a = Inr a' \<Longrightarrow> submits a a'" "precheck_target i a = Inr a' \<Longrightarrow> submits a a'"
  "plan_action i s f act a = Inr a' \<Longrightarrow> submits a a'" "handle_join i r a = Inr a' \<Longrightarrow> submits a a'"
  "handle_leave i r a = Inr a' \<Longrightarrow> submits a a'"
  by (auto simp: resolve_target_def precheck_target_def plan_action_def handle_join_def handle_leave_def usable_defs Let_def
      intro!: submits_network elim!: submits_worker [rotated] split: if_splits option.splits)

lemma new_executor_frame:
  "new_executor j i t a = Inr a1 \<Longrightarrow> ap_db a1 = ap_db a \<and> ap_tasks a1 = ap_tasks a \<and> ap_network_up a1 = ap_network_up a"
  using new_executor_effect by fastforce

lemma run_commands_submit:
  "start_migration j i t a = Inr a' \<Longrightarrow> submits a a'" "resume_migration j t a = Inr a' \<Longrightarrow> submits a a'"
  "pause_migration j a = Inr a' \<Longrightarrow> submits a a'" "stop_migration j a = Inr a' \<Longrightarrow> submits a a'"
  by (auto simp: start_migration_def resume_migration_def pause_migration_def stop_migration_def request_migration_def usable_defs
      dest: new_executor_frame intro!: submits_network split: if_splits option.splits) blast+

lemma resume_job_submits: "resume_job j t a = Inr a' \<Longrightarrow> submits a a'"
  by (auto simp: resume_job_def intro: run_commands_submit resume_scan_submits split: if_splits option.splits)

lemmas commands_submit = account_commands_submit source_commands_submit resume_scan_submits export_commands_submit
  target_commands_submit run_commands_submit resume_job_submits



section \<open>A run follows its plan\<close>

lemma new_executor_scheduler:
  assumes "new_executor j i t a = Inr a1"
  shows "\<exists>sl. map_of (ap_executors a1) j = Some sl \<and> es_action sl = executor_action (get_checkpoint j (ap_db a)) \<and>
    es_action sl \<in> {''INVITE'', ''REMOVE''} \<and> sc_interval (es_scheduler sl) = t \<and> 3 \<le> t \<and> t \<le> 10 \<and>
    remaining_wait (ap_utc a) (account_waiting_until_v12 i (ap_db a)) \<le> server_wait_remaining (es_scheduler sl)"
proof -
  obtain sch where sch: "InviteScheduler t (ap_clock a) = Inr sch"
    and act: "executor_action (get_checkpoint j (ap_db a)) \<in> {''INVITE'', ''REMOVE''}"
    and a1: "map_of (ap_executors a1) j = Some \<lparr>es_id = ap_next_executor a, es_scheduler = account_server_wait i a sch,
      es_action = executor_action (get_checkpoint j (ap_db a)), es_requests = []\<rparr>"
    using assms by (auto simp: new_executor_def valid_action_def Let_def split: if_splits)
  have t: "3 \<le> t" "t \<le> 10" "sc_interval sch = t"
    using sch by (auto simp: InviteScheduler_def valid_interval_def MIN_INVITE_INTERVAL_SECONDS_def
        MAX_INVITE_INTERVAL_SECONDS_def split: if_splits)
  have "remaining_wait (ap_utc a) (account_waiting_until_v12 i (ap_db a)) \<le> server_wait_remaining (account_server_wait i a sch)"
    by (auto simp: account_server_wait_def server_wait_remaining_def apply_server_wait_def Let_def)
  moreover have "sc_interval (account_server_wait i a sch) = t"
    using t(3) by (simp add: account_server_wait_def apply_server_wait_def Let_def)
  ultimately show ?thesis using a1 act t by (intro exI [of _ "\<lparr>es_id = ap_next_executor a, es_scheduler = account_server_wait i a sch,
      es_action = executor_action (get_checkpoint j (ap_db a)), es_requests = []\<rparr>"]) simp
qed

text \<open>
  C14. Starting a migration does what the stored plan says or nothing: it is accepted only for a
  ready migration job of the given, enabled account; the run that is submitted is of this job, this
  account and the group of the plan, and its executor has the action of the plan, an interval
  between three and ten seconds, and waits at least as long as the wait that
  \<open>V12JobRepository.account_waiting_until\<close> reports, the latest one of the jobs of this account that
  are in \<open>WAITING_SERVER\<close>.  A wait that a paused job keeps is not among those.
\<close>

theorem start_follows_plan:
  assumes "start_migration j i t a = Inr a'" "ap_network_up a"
  shows "\<exists>row gid g sl. job_get j (ap_db a) = Some row \<and> j_job_type row = JT_MIGRATION \<and> j_state row = JS_READY \<and>
    j_account_id row = Some i \<and> (\<exists>ac. account_get i (ap_db a) = Some ac \<and> ac_enabled ac) \<and>
    j_target_group_id row = Some gid \<and> group_get gid (Some i) (ap_db a) = Some g \<and>
    ap_tasks a' = ap_tasks a @ [T_run ''migration.start'' j i (g\<lparr>gc_can_invite := True\<rparr>)] \<and>
    map_of (ap_executors a') j = Some sl \<and> es_action sl = executor_action (get_checkpoint j (ap_db a)) \<and>
    es_action sl \<in> {''INVITE'', ''REMOVE''} \<and> sc_interval (es_scheduler sl) = t \<and> 3 \<le> t \<and> t \<le> 10 \<and>
    remaining_wait (ap_utc a) (account_waiting_until_v12 i (ap_db a)) \<le> server_wait_remaining (es_scheduler sl)"
proof -
  obtain row gid g ac a1 where g: "job_get j (ap_db a) = Some row" "j_job_type row = JT_MIGRATION" "j_state row = JS_READY"
    "j_account_id row = Some i" "account_get i (ap_db a) = Some ac" "ac_enabled ac" "j_target_group_id row = Some gid"
    "group_get gid (Some i) (ap_db a) = Some g"
    and new: "new_executor j i t a = Inr a1"
    and a': "a' = submit_network (T_run ''migration.start'' j i (g\<lparr>gc_can_invite := True\<rparr>)) a1"
    using assms(1) by (auto simp: start_migration_def require_enabled_account_def split: if_splits option.splits)
  obtain sl0 where a1: "a1 = a\<lparr>ap_executors := dict_set j sl0 (ap_executors a), ap_next_executor := ap_next_executor a + 1\<rparr>"
    using new_executor_effect [OF new] by blast
  have "ap_tasks a' = ap_tasks a @ [T_run ''migration.start'' j i (g\<lparr>gc_can_invite := True\<rparr>)]"
    "ap_executors a' = ap_executors a1" using assms(2) by (simp_all add: a' a1 submit_network_def)
  then show ?thesis using g new_executor_scheduler [OF new] by auto
qed

theorem start_follows_plan_witness:
  "\<exists>a' sl. start_migration 1 1 5 sample_app = Inr a' \<and> map_of (ap_executors a') 1 = Some sl \<and> es_action sl = ''INVITE'' \<and>
     sc_interval (es_scheduler sl) = 5"
proof -
  obtain a' where a': "start_migration 1 1 5 sample_app = Inr a'" using sample_start by blast
  have up: "ap_network_up sample_app" by (simp add: sample_app_def)
  have "executor_action (get_checkpoint 1 (ap_db sample_app)) = ''INVITE''" by code_simp
  then show ?thesis using start_follows_plan [OF a' up] a' by auto
qed

section \<open>What a pause loses\<close>

lemma no_waiting_job:
  assumes "\<forall>r \<in> set (t_jobs d). j_account_id r = Some i \<longrightarrow> j_state r \<noteq> JS_WAITING_SERVER"
  shows "account_waiting_until_v12 i d = None"
proof -
  have "List.map_filter (\<lambda>r. if j_account_id r = Some i \<and> j_state r \<in> {JS_WAITING_SERVER} then j_waiting_until r else None) (t_jobs d) = []"
    using assms by (auto simp: List.map_filter_def filter_empty_conv)
  then show ?thesis by (simp add: account_waiting_until_v12_def latest_wait_def order_desc_def)
qed

lemma new_executor_unwaited:
  assumes "new_executor j i t a = Inr a1" "account_waiting_until_v12 i (ap_db a) = None" "0 \<le> clock_monotonic (ap_clock a)"
  shows "\<exists>sl. map_of (ap_executors a1) j = Some sl \<and> server_wait_remaining (es_scheduler sl) = 0 \<and> remaining_delay (es_scheduler sl) = 0"
  using assms
  by (auto simp: new_executor_def InviteScheduler_def account_server_wait_def remaining_wait_def server_wait_remaining_def
      remaining_delay_def Let_def split: if_splits)

text \<open>
  C19. A pause loses the wait of the server.  A job that waits for Telegram and is paused keeps its
  deadline in its row, but it is no longer \<open>WAITING_SERVER\<close>, so the repository of V1.2 does not report
  the deadline: resuming the job, with no other job of the account waiting, gives an executor that
  waits for nothing and may call Telegram at once, however far the deadline is.
\<close>

theorem paused_wait_is_forgotten:
  assumes "job_get j d = Some row" "j_account_id row = Some i" "j_waiting_until row = Some w"
    and "\<forall>r \<in> set (t_jobs d). j_account_id r = Some i \<and> j_state r = JS_WAITING_SERVER \<longrightarrow> j_id r = j"
    and "submit_set_state j JS_PAUSED None None False d = Inr ((), ap_db a)"
    and "resume_migration j t a = Inr a'" "ap_network_up a" "0 \<le> clock_monotonic (ap_clock a)"
  shows "map_option j_waiting_until (job_get j (ap_db a)) = Some (Some w) \<and> account_waiting_until_v12 i (ap_db a) = None \<and>
    (\<exists>sl. map_of (ap_executors a') j = Some sl \<and> server_wait_remaining (es_scheduler sl) = 0 \<and> remaining_delay (es_scheduler sl) = 0)"
proof -
  have db: "ap_db a = d\<lparr>t_jobs := update_where (\<lambda>r. j_id r = j) (state_row JS_PAUSED None None False (db_now d)) (t_jobs d)\<rparr>"
    using assms(5) by (simp add: submit_set_state_def update_jobs_apply)
  have row': "job_get j (ap_db a) = Some (state_row JS_PAUSED None None False (db_now d) row)"
    unfolding db by (subst job_get_update) (simp_all add: assms(1))
  have "\<forall>r \<in> set (t_jobs (ap_db a)). j_account_id r = Some i \<longrightarrow> j_state r \<noteq> JS_WAITING_SERVER"
    using assms(4) by (auto simp: db update_where_def)
  then have none: "account_waiting_until_v12 i (ap_db a) = None" by (rule no_waiting_job)
  obtain a1 g where new: "new_executor j i t a = Inr a1" and a': "a' = submit_network (T_run ''migration.resume'' j i g) a1"
    using assms(2,6) row' by (auto simp: resume_migration_def split: if_splits option.splits)
  have "ap_executors a' = ap_executors a1" using new_executor_effect [OF new] assms(7) by (auto simp: a' submit_network_def)
  then show ?thesis using row' assms(3) none new_executor_unwaited [OF new none assms(8)] by simp
qed

definition waiting_db :: db where
  "waiting_db = sample_db\<lparr>t_jobs := map (\<lambda>r. r\<lparr>j_state := JS_WAITING_SERVER, j_waiting_until := Some (IsoUtc 600000000)\<rparr>) (t_jobs sample_db)\<rparr>"

definition paused_app :: app where
  "paused_app = set_db (case submit_set_state 1 JS_PAUSED None None False waiting_db of Inr (_, d) \<Rightarrow> d | Inl _ \<Rightarrow> waiting_db) sample_app"

theorem paused_wait_is_forgotten_witness:
  "remaining_wait (ap_utc paused_app) (account_waiting_until 1 (ap_db paused_app)) = 600 \<and>
   (\<exists>a' sl. resume_migration 1 5 paused_app = Inr a' \<and> map_of (ap_executors a') 1 = Some sl \<and> remaining_delay (es_scheduler sl) = 0)"
proof -
  have wait: "remaining_wait (ap_utc paused_app) (account_waiting_until 1 (ap_db paused_app)) = 600" by code_simp
  have "is_ok (resume_migration 1 5 paused_app)" by code_simp
  then obtain a' where a': "resume_migration 1 5 paused_app = Inr a'" by (auto simp: is_ok_iff)
  have job: "job_get 1 waiting_db = Some (the (job_get 1 waiting_db))"
    "j_account_id (the (job_get 1 waiting_db)) = Some 1" "j_waiting_until (the (job_get 1 waiting_db)) = Some (IsoUtc 600000000)"
    "\<forall>r \<in> set (t_jobs waiting_db). j_account_id r = Some 1 \<and> j_state r = JS_WAITING_SERVER \<longrightarrow> j_id r = 1"
    by (simp_all add: waiting_db_def job_get_def sample_defs)
  have db: "submit_set_state 1 JS_PAUSED None None False waiting_db = Inr ((), ap_db paused_app)"
    using submit_set_state_ok [of 1 JS_PAUSED None None False waiting_db] by (auto simp: paused_app_def set_db_def)
  have app: "ap_network_up paused_app" "0 \<le> clock_monotonic (ap_clock paused_app)"
    by (simp_all add: paused_app_def set_db_def sample_app_def clock_monotonic_def)
  show ?thesis using wait a' paused_wait_is_forgotten [OF job db a' app] by blast
qed

section \<open>What a plan loses\<close>

text \<open>
  C28. The action of a removal plan does not survive its first results.  A removal plan is stored
  with the action \<open>REMOVE\<close>, but flushing a batch of results overwrites the checkpoint that holds it,
  and an executor that is built afterwards, as resuming does, gets the action \<open>INVITE\<close>.
\<close>

theorem removal_resumes_as_invitation:
  assumes "db_wf d" "acc \<in> account_ids d" "ds \<in> dataset_ids d" "g \<in> group_ids d" "pc_coverage pre \<noteq> UNAVAILABLE"
    and "create_remove_plan acc ds g pre f d = (Inr (j, summ), d1)"
    and "submit_update_items_batch j us (Some (last_ordinal_checkpoint k)) d1 = Inr ((), d2)"
  shows "executor_action (get_checkpoint j d1) = ''REMOVE'' \<and> executor_action (get_checkpoint j d2) = ''INVITE''"
proof -
  obtain its where d1: "d1 = persisted acc ds g its ''REMOVE'' d" and j: "j = seq_jobs d + 1"
    using create_remove_plan_run [OF assms(1-5), of f] assms(6) by auto
  have new: "find_row (\<lambda>r. j_id r = j) (t_jobs d) = None"
    using new_job_unused(1) [OF assms(1)] by (force simp: j find_row_None_iff)
  have c1: "get_checkpoint j d1 = [(''action'', JStr ''REMOVE'')]" and row: "job_get j d1 \<noteq> None"
    using new by (simp_all add: d1 j persisted_def get_checkpoint_def job_get_def find_row_append Let_def)
  then obtain y where y: "job_get j d1 = Some y" "j_id y = j" by (auto simp: job_get_def dest: find_row_SomeD)
  then have "get_checkpoint j d2 = last_ordinal_checkpoint k"
    using assms(7)
    by (auto simp: submit_update_items_batch_def dbind_def apply_item_updates update_jobs_apply get_checkpoint_def
        last_ordinal_checkpoint_def job_get_def find_row_update_where)
  then show ?thesis using c1 by (simp add: executor_action_def last_ordinal_checkpoint_def py_upper_def upper_char_def Let_def)
qed

theorem removal_resumes_as_invitation_witness:
  "\<exists>j summ d1 d2. create_remove_plan 1 1 1 \<lparr>pc_target_ids = [102, 7], pc_coverage = PARTIAL\<rparr> None sample_db = (Inr (j, summ), d1) \<and>
     submit_update_items_batch j [] (Some (last_ordinal_checkpoint 0)) d1 = Inr ((), d2) \<and>
     executor_action (get_checkpoint j d1) = ''REMOVE'' \<and> executor_action (get_checkpoint j d2) = ''INVITE''"
proof -
  have refs: "1 \<in> account_ids sample_db" "1 \<in> dataset_ids sample_db" "1 \<in> group_ids sample_db"
    by (simp_all add: sample_defs)
  have cov: "pc_coverage \<lparr>pc_target_ids = [102, 7], pc_coverage = PARTIAL\<rparr> \<noteq> UNAVAILABLE" by simp
  obtain j summ d1 where plan: "create_remove_plan 1 1 1 \<lparr>pc_target_ids = [102, 7], pc_coverage = PARTIAL\<rparr> None sample_db = (Inr (j, summ), d1)"
    using create_remove_plan_run [OF sample_db_wf refs cov, of None] by blast
  obtain d2 where batch: "submit_update_items_batch j [] (Some (last_ordinal_checkpoint 0)) d1 = Inr ((), d2)"
    using submit_update_items_batch_ok by blast
  show ?thesis using removal_resumes_as_invitation [OF sample_db_wf refs cov plan batch] plan batch by blast
qed

end
