(* ===== verification/Executor_Wf.thy ===== *)
theory Executor_Wf
  imports Executor_Frame
begin

text \<open>
  A run keeps the schema: whatever Telegram answers, whenever the user stops or pauses and whichever
  writes fail, the database a run leaves is well formed when the one it found was.
\<close>

definition xwf :: "'a xm \<Rightarrow> bool" where
  "xwf m = (\<forall>s. db_wf (x_db s) \<longrightarrow> db_wf (x_db (snd (m s))))"

lemma xwfI: "(\<And>s. db_wf (x_db s) \<Longrightarrow> db_wf (x_db (snd (m s)))) \<Longrightarrow> xwf m"
  by (simp add: xwf_def)

lemma xwfD: "xwf m \<Longrightarrow> m s = (r, s') \<Longrightarrow> db_wf (x_db s) \<Longrightarrow> db_wf (x_db s')"
  by (metis xwf_def snd_conv)

lemma xwf_basic [wf_intros]:
  "xwf (xreturn v)" "xwf (xlog ev)" "xwf (\<lambda>s. xreturn (f s) s)" "xwf (\<lambda>s. xlog (g s) s)" "xwf (\<lambda>s. (Inl e, s))"
  by (simp_all add: xwf_def xreturn_def xlog_def xmodify_def)

lemma xwf_modify [wf_intros]: "(\<And>s. x_db (f s) = x_db s) \<Longrightarrow> xwf (xmodify f)"
  by (simp add: xwf_def xmodify_def)

lemma xwf_bind [wf_intros]: "xwf m \<Longrightarrow> (\<And>v. xwf (f v)) \<Longrightarrow> xwf (xbind m f)"
  unfolding xwf_def xbind_def by (auto split: prod.splits sum.splits)

lemma xwf_if [wf_intros]: "xwf m \<Longrightarrow> xwf m' \<Longrightarrow> xwf (if b then m else m')"
  by simp

lemma xwf_at: "(\<And>v. xwf (m v)) \<Longrightarrow> xwf (\<lambda>s. m (f s) s)"
  by (simp add: xwf_def)

section \<open>Writes and waiting\<close>

lemma write_op_xwf [wf_intros]: "keeps_wf op \<Longrightarrow> xwf (write_op env op)"
  by (rule xwfI) (auto simp: write_op_def Let_def elapse_def dest: keeps_wfD split: prod.splits option.splits sum.splits)

lemma flush_raw_xwf: "xwf (flush_raw env j f)"
proof (rule xwfI)
  fix s :: exec_state assume "db_wf (x_db s)"
  moreover have "xwf (xbind (write_op env (submit_update_items_batch j us c)) (\<lambda>_. xmodify (\<lambda>s'. s'\<lparr>x_last_flush := py_monotonic env s'\<rparr>)))" for us c
    by (intro wf_intros) simp
  ultimately show "db_wf (x_db (snd (flush_raw env j f s)))"
    by (simp add: flush_raw_def flush_now_def Let_def xwf_def)
qed

lemma run_due_xwf: "db_wf (x_db s) \<Longrightarrow> db_wf (x_db (run_due env j s))"
  using flush_raw_xwf [of env j True] by (simp add: run_due_def xwf_def split: option.split)

lemma then_due_xwf: "xwf m \<Longrightarrow> xwf (\<lambda>s. case m s of (r, s') \<Rightarrow> (r, run_due env j s'))"
  by (auto simp: xwf_def run_due_xwf split: prod.split)

lemma await_write_xwf [wf_intros]: "keeps_wf op \<Longrightarrow> xwf (await_write env j op)"
  using then_due_xwf [OF write_op_xwf] by (simp add: xwf_def await_write_def)

lemma flush_xwf [wf_intros]: "xwf (flush env j f)"
  using then_due_xwf [OF flush_raw_xwf] by (simp add: xwf_def flush_def)

lemma set_state_xwf [wf_intros]: "xwf (set_account env j a st e)" "xwf (set_job env j st' w c cl)" "xwf (mark_retry env j cand n err r)"
  unfolding set_account_def set_job_def mark_retry_def by (intro wf_intros)+

lemma requests_db [simp]: "x_db (fold apply_request rs s) = x_db s"
proof (induction rs arbitrary: s)
  case (Cons r rs)
  then show ?case by (cases r) (simp_all add: apply_request_def)
qed simp

lemma poll_db: "x_db (snd (poll_control env s)) = x_db s"
  by (simp add: poll_control_def Let_def)

lemma nap_xwf: "db_wf (x_db s) \<Longrightarrow> db_wf (x_db (nap env j secs s))"
  by (simp add: nap_def run_due_xwf)

lemma sleep_loop_xwf: "db_wf (x_db s) \<Longrightarrow> db_wf (x_db (snd (sleep_loop env j deadline s)))"
proof (induction env j deadline s rule: sleep_loop.induct)
  case (1 env j deadline s)
  obtain c s1 where p: "poll_control env s = (c, s1)" by fastforce
  have "db_wf (x_db s1)" using poll_db [of env s] p 1(2) by simp
  then show ?case using 1(1) p nap_xwf
    by (subst sleep_loop.simps) (auto simp: Let_def split: option.split)
qed

lemma xsleep_xwf [wf_intros]: "xwf (xsleep env j f)"
proof (rule xwfI)
  fix s :: exec_state assume wf: "db_wf (x_db s)"
  then have "db_wf (x_db (snd (sleep env j (f s) s)))"
    by (simp add: sleep_def poll_db nap_xwf sleep_loop_xwf)
  then show "db_wf (x_db (snd (xsleep env j f s)))" by (simp add: xsleep_def split_beta)
qed

section \<open>One candidate\<close>

lemma handle_control_xwf [wf_intros]: "xwf (handle_control env j a c)"
proof -
  have "xwf (\<lambda>s. set_account env j a (if server_wait_remaining (x_sched s) > 0 then AS_WAITING_SERVER else AS_READY) None s)"
    by (rule xwf_at [of "\<lambda>st. set_account env j a st None"]) (rule set_state_xwf)
  then show ?thesis
    unfolding handle_control_def by (auto split: option.split control.split intro!: wf_intros)
qed

lemma rpc_xwf [wf_intros]: "xwf (rpc env j act m)"
  by (rule xwfI) (simp add: rpc_def Let_def elapse_def run_due_xwf)

lemma branches_xwf [wf_intros]:
  "xwf (flood_wait env j a cand n t e)" "xwf (rate_limited_indefinitely env j a cand n e)" "xwf (pause_job env j a cand n e)"
  "xwf (transient_failure env j a cand n t e)" "xwf mark_stable"
  unfolding flood_wait_def rate_limited_indefinitely_def pause_job_def transient_failure_def mark_stable_def Let_def
  by (intro wf_intros; simp)+

lemma attempt_reply_xwf [wf_intros]: "xwf (attempt_reply env j a cand n t r)"
  unfolding attempt_reply_def Let_def by (cases r) (auto intro!: wf_intros)

lemma attempt_step_xwf [wf_intros]: "xwf (attempt_step env act j a cand n t)"
  unfolding attempt_step_def by (intro wf_intros; simp)

lemma attempt_loop_xwf:
  "attempt_loop fuel env act j a cand n t s = Some (r, s') \<Longrightarrow> db_wf (x_db s) \<Longrightarrow> db_wf (x_db s')"
proof (induction fuel arbitrary: n t s)
  case (Suc fuel)
  obtain x s1 where step: "attempt_step env act j a cand n t s = (x, s1)" by fastforce
  have "db_wf (x_db s1)" using xwfD [OF attempt_step_xwf step Suc.prems(2)] .
  then show ?case using Suc step by (auto split: sum.splits attempt_next.splits)
qed simp

lemma record_restriction_xwf: "xwf (record_restriction env act j a v)"
proof (rule xwfI)
  fix s :: exec_state assume "db_wf (x_db s)"
  moreover have "xwf (xbind (await_write env j (submit_restriction a act k c e q)) (\<lambda>_. xreturn v))" for k c e q
    by (intro wf_intros)
  ultimately show "db_wf (x_db (snd (record_restriction env act j a v s)))"
    by (auto simp: record_restriction_def xwf_def split: option.split)
qed

lemma attempt_v12_xwf:
  assumes "attempt_v12 fuel env act j a cand s = Some (r, s')" "db_wf (x_db s)"
  shows "db_wf (x_db s')"
proof -
  obtain x s1 where at: "attempt fuel env act j a cand s = Some (x, s1)"
    using assms(1) by (auto simp: attempt_v12_def split: option.splits)
  have "db_wf (x_db s1)" using at assms(2) attempt_loop_xwf by (auto simp: attempt_def split: if_splits)
  then have "db_wf (x_db (snd (record_restriction env act j a v s1)))" for v :: "item_update option \<times> bool"
    using record_restriction_xwf [of env act j a v] by (simp add: xwf_def)
  with \<open>db_wf (x_db s1)\<close> show ?thesis
    using assms(1) at by (cases x) (auto simp: attempt_v12_def, metis snd_conv)
qed

section \<open>A run\<close>

lemma record_result_xwf [wf_intros]: "xwf (record_result env j u b)"
  unfolding record_result_def by (intro wf_intros) (simp_all add: schedule_flush_def)

lemma run_loop_xwf:
  "run_loop n fuel env act j a b s = Some (r, s') \<Longrightarrow> db_wf (x_db s) \<Longrightarrow> db_wf (x_db s')"
proof (induction n arbitrary: b s)
  case (Suc n)
  obtain c s0 where p: "poll_control env s = (c, s0)" by fastforce
  obtain h s1 where h: "handle_control env j a c s0 = (h, s1)" by fastforce
  have "db_wf (x_db s0)" using poll_db [of env s] p Suc.prems(2) by simp
  then have s1: "db_wf (x_db s1)" using xwfD [OF handle_control_xwf h] by simp
  show ?case
  proof (cases "h = Inr False")
    case False
    then have "s' = s1" using Suc.prems(1) p h by (auto split: sum.splits bool.splits)
    with s1 show ?thesis by simp
  next
    case True
    obtain x b1 where pop: "pop (x_db s1) b = (x, b1)" by fastforce
    note run = Suc.prems(1) [unfolded run_loop.simps p h True pop prod.case sum.case bool.case]
    show ?thesis
    proof (cases x)
      case None
      then show ?thesis using run s1 by simp
    next
      case (Some cand)
      then obtain y s2 where at: "attempt_v12 fuel env act j a cand s1 = Some (y, s2)"
        using run by (cases "attempt_v12 fuel env act j a cand s1") auto
      have s2: "db_wf (x_db s2)" by (rule attempt_v12_xwf [OF at s1])
      have s3: "db_wf (x_db s3)" if "record_result env j u b1 s2 = (z, s3)" for u z s3
        by (rule xwfD [OF record_result_xwf that s2])
      show ?thesis using run Some at s2 s3 Suc.IH
        by (auto split: sum.splits option.splits if_splits prod.splits)
    qed
  qed
qed simp

lemma end_run_xwf: "db_wf (x_db s) \<Longrightarrow> db_wf (x_db (snd (end_run env j a r s)))"
proof -
  have c: "xwf (complete_run env j a)" "xwf (fail_run env j a e)" for e
    unfolding complete_run_def fail_run_def Let_def by (intro wf_intros)+
  assume "db_wf (x_db s)"
  then show ?thesis using xwfD [OF c(1)] xwfD [OF c(2)]
    by (auto simp: end_run_def finish_run_def Let_def split: sum.splits prod.splits)
qed

theorem run_keeps_schema:
  assumes "run n fuel env act j a s = Some (r, s')" "db_wf (x_db s)"
  shows "db_wf (x_db s')"
proof -
  have begin_xwf: "xwf (begin_run env j a)" unfolding begin_run_def by (intro wf_intros)
  have 1: "db_wf (x_db s1)" if "begin_run env j a (start_run env j s) = (x, s1)" for x s1
    using xwfD [OF begin_xwf that] assms(2) by (simp add: start_run_def)
  have 2: "db_wf (x_db s2)" if "run_loop n fuel env act j a b (run_due env j (elapse t s1)) = Some (x, s2)" "db_wf (x_db s1)"
    for b t s1 x s2
    using run_loop_xwf [OF that(1)] run_due_xwf that(2) by (simp add: elapse_def)
  obtain x s1 where b: "begin_run env j a (start_run env j s) = (x, s1)" by fastforce
  note s1 = 1 [OF b]
  show ?thesis
  proof (cases "x_running s = None")
    case False
    then show ?thesis using assms by (auto simp: run_def)
  next
    case running: True
    show ?thesis
    proof (cases x)
      case (Inl e)
      then show ?thesis using assms(1) running b s1 by (simp add: run_def)
    next
      case (Inr u)
      then obtain z s2 where l: "run_loop n fuel env act j a (prime (x_db s1) (CandidateBuffer j a CANDIDATE_PREFETCH_MIN))
          (run_due env j (elapse (e_lock env) s1)) = Some (z, s2)" and e: "(r, s') = end_run env j a z s2"
        using assms(1) running b by (auto simp: run_def Let_def split: option.splits)
      show ?thesis using end_run_xwf [OF 2 [OF l s1], of env j a z] e by (metis snd_conv)
    qed
  qed
qed

end
