(* ===== verification/App_Invariant.thy ===== *)
theory App_Invariant
  imports Handler_Safety Executor_Wf
begin

text \<open>
  The schema invariant at the level of the application: every piece of work a command submits keeps
  the database well formed, whatever Telegram answers, whichever requests fail and whatever the
  files contain; for a scan and a run, whose last database is an argument of the handlers' model, this
  is shown on the scanner and the executor themselves.
\<close>

section \<open>Network programs\<close>

definition net_wf :: "'a nm \<Rightarrow> bool" where
  "net_wf m = (\<forall>s. db_wf (n_db s) \<longrightarrow> db_wf (n_db (snd (m s))))"

lemma net_wfI: "(\<And>s. db_wf (n_db s) \<Longrightarrow> db_wf (n_db (snd (m s)))) \<Longrightarrow> net_wf m"
  by (simp add: net_wf_def)

lemma net_wfD: "net_wf m \<Longrightarrow> m s = (r, s') \<Longrightarrow> db_wf (n_db s) \<Longrightarrow> db_wf (n_db s')"
  by (metis net_wf_def snd_conv)

lemma net_wf_basic [wf_intros]:
  "net_wf (nreturn x)" "net_wf (nraise e)" "net_wf (nget f)" "net_wf require_credentials" "net_wf (update_credentials i h)"
  by (auto simp: net_wf_def require_credentials_def update_credentials_def split: option.splits)

lemma net_wf_nmodify [wf_intros]: "(\<And>s. n_db (f s) = n_db s) \<Longrightarrow> net_wf (nmodify f)"
  by (simp add: net_wf_def)

lemma net_wf_rpc_call [wf_intros]: "net_wf (rpc_call env a req reply)"
  by (auto simp: net_wf_def rpc_call_def Let_def split: option.splits)

lemma net_wf_nwrite [wf_intros]: "keeps_wf m \<Longrightarrow> net_wf (nwrite m)"
  by (rule net_wfI) (auto simp: nwrite_def dest: prog_wfD [OF prog_wf_transact] split: prod.splits sum.splits)

lemma net_wf_nprog [wf_intros]: "prog_wf m \<Longrightarrow> net_wf (nprog m)"
  by (rule net_wfI) (auto simp: nprog_def dest: prog_wfD split: prod.splits sum.splits)

lemma net_wf_nbind [wf_intros]: "net_wf m \<Longrightarrow> (\<And>x. net_wf (k x)) \<Longrightarrow> net_wf (nbind m k)"
  unfolding net_wf_def nbind_def by (auto split: prod.splits sum.splits)

lemma net_wf_ncatch [wf_intros]: "net_wf m \<Longrightarrow> (\<And>e. net_wf (h e)) \<Longrightarrow> net_wf (ncatch m h)"
  unfolding net_wf_def ncatch_def by (auto split: prod.splits sum.splits)

lemma net_wf_if [wf_intros]: "net_wf m \<Longrightarrow> net_wf m' \<Longrightarrow> net_wf (if b then m else m')"
  by simp

lemma net_wf_cases [wf_intros]:
  "net_wf m \<Longrightarrow> (\<And>x. net_wf (f x)) \<Longrightarrow> net_wf (case v of None \<Rightarrow> m | Some x \<Rightarrow> f x)"
  "net_wf n \<Longrightarrow> (\<And>x xs. net_wf (g x xs)) \<Longrightarrow> net_wf (case l of [] \<Rightarrow> n | x # xs \<Rightarrow> g x xs)"
  "(\<And>x y. net_wf (h x y)) \<Longrightarrow> net_wf (case p of (x, y) \<Rightarrow> h x y)"
  "(\<And>x y. net_wf (k x y z)) \<Longrightarrow> net_wf ((case p of (x, y) \<Rightarrow> k x y) z)"
  by (auto split: option.splits list.splits prod.splits)

section \<open>The operations on Telegram\<close>

lemma client_get_wf [wf_intros]: "net_wf (client_get env a p)"
  unfolding client_get_def client_get_with_def by (intro wf_intros) auto

lemma client_disconnect_wf [wf_intros]: "net_wf (client_disconnect env a)"
  unfolding client_disconnect_def by (intro wf_intros) auto

lemma disconnect_each_wf [wf_intros]: "net_wf (disconnect_each env is)"
  by (induction "is") (simp_all only: disconnect_each.simps, (intro wf_intros; assumption?)+)

lemma close_all_wf [wf_intros]: "net_wf (close_all env)"
  unfolding close_all_def by (intro wf_intros) auto

lemma auth_wf [wf_intros]:
  "net_wf (connect_existing env a)" "net_wf (send_code env a phone)" "net_wf (sign_in env a phone code h pw)"
proof -
  have st: "net_wf (set_account_state a s e)" for s e unfolding set_account_state_def by (intro wf_intros)
  have cl: "net_wf (auth_client env a)" unfolding auth_client_def session_lookup_def by (intro wf_intros)
  have re: "net_wf (refresh_identity env a)" unfolding refresh_identity_def Let_def by (intro wf_intros cl)
  have rec: "net_wf m \<Longrightarrow> net_wf (recording_error a f m)" for f and m :: "'b nm"
    unfolding recording_error_def by (intro wf_intros st)
  have code: "net_wf (request_code env a phone)" unfolding request_code_def by (intro wf_intros cl re)
  have rec': "net_wf (recording_error a f (request_code env a phone))" for f
    unfolding recording_error_def by (intro wf_intros st code)
  have pw: "net_wf (sign_in_password env a pw)" unfolding sign_in_password_def recording_error_def by (intro wf_intros st)
  show "net_wf (connect_existing env a)"
    unfolding connect_existing_def recording_error_def by (intro wf_intros st cl re)
  show "net_wf (send_code env a phone)" unfolding send_code_def by (intro wf_intros st rec')
  show "net_wf (sign_in env a phone code h pw)" unfolding sign_in_def by (intro wf_intros cl pw st re)
qed

lemma gw_client_wf [wf_intros]: "net_wf (gw_client env a)"
  unfolding gw_client_def gw_session_def by (intro wf_intros)

lemma input_channel_wf [wf_intros]: "net_wf (input_channel g)"
  unfolding input_channel_def by (intro wf_intros)

lemma cache_peer_wf [wf_intros]: "net_wf (cache_peer p)" "net_wf (cache_peers ps)"
  unfolding cache_peer_def cache_peers_def by (intro wf_intros; simp)+

lemma resolve_group_wf [wf_intros]: "net_wf (resolve_group env a r)"
  unfolding resolve_group_def by (intro wf_intros)

lemma gateway_wf [wf_intros]:
  "net_wf (get_joined_groups env a)" "net_wf (join_group env a r)" "net_wf (leave_group env a g)"
  unfolding get_joined_groups_def join_group_def leave_group_def Let_def by (intro wf_intros)+

section \<open>The work of the commands\<close>

lemma persist_groups_wf [wf_intros]: "net_wf (persist_groups gs)"
  by (induction gs) (simp_all only: persist_groups.simps, (intro wf_intros; assumption?)+)

lemma resolve_and_persist_wf [wf_intros]: "net_wf (resolve_and_persist env a r)"
  unfolding resolve_and_persist_def group_service_resolve_def by (intro wf_intros)

lemma handler_work_wf [wf_intros]:
  "net_wf (apply_credentials env i h)" "net_wf (load_joined_groups env a)" "net_wf (leave_work env a r)"
  "net_wf (membership_join env a r)" "net_wf (precheck_operation pages j g)"
  unfolding apply_credentials_def load_joined_groups_def leave_work_def membership_join_def membership_leave_def
    precheck_operation_def Let_def
  by (intro wf_intros)+

lemma dataset_create_wf [wf_intros]: "keeps_wf (dataset_create ds)"
  unfolding dataset_create_def by (intro wf_intros)

lemma combine_wf [wf_intros]: "keeps_wf (combine n x y operation)"
  unfolding combine_def Let_def by (intro wf_intros)

lemma ingest_batch_wf [wf_intros]: "keeps_wf (submit_ingest_batch s ms g a l)"
proof -
  have "keeps_wf (ingest_loop s g a l ms z)" for z by (induction ms arbitrary: z) (auto intro!: wf_intros)
  then show ?thesis unfolding submit_ingest_batch_def by (intro wf_intros)
qed

lemma work_prog_wf [wf_intros]:
  "prog_wf (prepare_scan a name g)" "prog_wf (prepare_precheck a g)" "prog_wf (plan_work a s t p f act)"
  "prog_wf (export_dataset fault ds acc)"
  unfolding prepare_scan_def prepare_precheck_def plan_work_def export_dataset_def
  by (intro wf_intros)+

lemma import_dataset_wf [wf_intros]: "prog_wf (import_dataset rd path name acc)"
proof -
  have "prog_wf (import_file path rd)" unfolding import_file_def by (cases rd) (auto intro: wf_intros)
  then show ?thesis unfolding import_dataset_def split_def by (intro wf_intros)
qed

lemma on_net_wf: "net_wf m \<Longrightarrow> on_net tag m a = (r, a') \<Longrightarrow> db_wf (ap_db a) \<Longrightarrow> db_wf (ap_db a')"
  by (auto simp: on_net_def dest: net_wfD split: prod.splits)

section \<open>Scans and runs\<close>

lemma faulty_wf [wf_intros]: "keeps_wf m \<Longrightarrow> prog_wf (faulty fault m)"
  by (rule prog_wfI) (auto simp: faulty_def dest: prog_wfD [OF prog_wf_transact] split: option.splits)

lemma scan_fail_schema: "db_wf (sc_db s) \<Longrightarrow> db_wf (sc_db (snd (scan_fail j exc s)))"
proof -
  assume wf: "db_wf (sc_db s)"
  let ?m = "pbind (transact (submit_set_state (sj_job_id j) JS_FAILED None
                    (Some (cp_json (sc_cp s) @ [(''error'', JStr (ex_text exc))])) False)) (\<lambda>_.
             transact (submit_event (sj_job_id j) ''ERROR'' ''SCAN_FAILED'' (Some (ex_text exc)) None))"
  have m: "prog_wf ?m" by (intro wf_intros prog_wf_transact)
  have "db_wf d" if "?m (sc_db s) = (r, d)" for r d using prog_wfD [OF m wf] that by simp
  then show ?thesis by (auto simp: scan_fail_def split: prod.split sum.split)
qed

lemma scan_finish_schema:
  assumes "scan_reachable j d0 mem checkpoint pages s" "db_wf d0"
  shows "db_wf (sc_db (snd (scan_finish j f1 f2 s)))"
proof -
  have wf: "db_wf (sc_db s)" using data_reachable [OF assms] stored_wf by blast
  have m: "prog_wf (scan_succeed j f1 f2 cp)" for cp unfolding scan_succeed_def by (intro wf_intros)
  have ok: "db_wf d" if "scan_succeed j f1 f2 cp (sc_db s) = (r, d)" for cp r d using prog_wfD [OF m wf] that by (metis snd_conv)
  show ?thesis
  proof (cases "task_errors s = []")
    case True
    obtain r d where "scan_succeed j f1 f2 ((sc_cp s)\<lparr>sk_cancelled := (sk_cancelled (sc_cp s) \<or> sc_cancel s)\<rparr>) (sc_db s) = (r, d)"
      by fastforce
    then show ?thesis using True ok scan_fail_schema by (cases r) (simp_all add: scan_finish_def Let_def)
  qed (simp add: scan_finish_def scan_fail_schema wf)
qed

text \<open>
  A world whose scan and run leave a well-formed database; by \<open>scan_finish_schema\<close> and
  \<open>run_keeps_schema\<close> the outcomes of the scanner and of the executor are such.
\<close>

definition sound_world :: "world \<Rightarrow> bool" where
  "sound_world w \<longleftrightarrow> db_wf (fst (snd (wo_scan w))) \<and> db_wf (snd (wo_run w))"

lemma actual_world_sound:
  assumes "scan_reachable j d0 mem checkpoint pages s" "db_wf d0" "fst (snd (wo_scan w)) = sc_db (snd (scan_finish j f1 f2 s))"
    and "run n fuel env act j' a x = Some (r, x')" "db_wf (x_db x)" "snd (wo_run w) = x_db x'"
  shows "sound_world w"
  using scan_finish_schema [OF assms(1,2), of f1 f2] run_keeps_schema [OF assms(4,5)] assms(3,6) by (simp add: sound_world_def)

lemma service_delete_wf: "service_delete refuses i (d, files) = Inr (d', files') \<Longrightarrow> db_wf d \<Longrightarrow> db_wf d'"
  by (auto simp: service_delete_def Let_def dest: keeps_wfD [OF account_delete_wf])

lemma task_work_wf:
  assumes "sound_world w" "db_wf (ap_db a)" "task_work w t a = (r, a')"
  shows "db_wf (ap_db a')"
proof -
  note net = on_net_wf [OF _ _ assms(2)]
  have imp: "db_wf d" if "import_dataset rd path name acc (ap_db a) = (x, d)" for rd path name acc x d
    using prog_wfD [OF import_dataset_wf assms(2), of rd path name acc] that by simp
  have exp: "db_wf d" if "export_dataset fault ds acc (ap_db a) = (x, d)" for fault ds acc x d
    using prog_wfD [OF work_prog_wf(4) assms(2), of fault ds acc] that by simp
  have del: "db_wf d" if "service_delete refuses i (ap_db a, files) = Inr (d, files')" for refuses i files d files'
    using service_delete_wf [OF that assms(2)] .
  show ?thesis
  proof (cases t)
    case (T_scan c j cp)
    then show ?thesis using assms by (auto simp: sound_world_def split: prod.splits)
  next
    case (T_run c j i g)
    then show ?thesis using assms by (auto simp: sound_world_def set_db_def)
  next
    case (T_import path name i)
    then show ?thesis using assms imp
      by (auto simp: import_work_def set_db_def publish_event_def split: prod.splits sum.splits)
  next
    case (T_export_dataset i path acc)
    then show ?thesis using assms exp by (auto simp: export_work_def set_db_def split: prod.splits sum.splits)
  next
    case (T_delete_account i)
    then show ?thesis using assms del by (auto simp: delete_work_def set_db_def split: prod.splits sum.splits)
  next
    case (T_save_settings i h)
    then show ?thesis using assms by (auto simp: save_settings_def Let_def split: option.splits)
  next
    case (T_export_log j path)
    then show ?thesis using assms by (auto simp: save_file_def split: option.splits)
  next
    case (T_export_results j path)
    then show ?thesis using assms by (auto simp: save_file_def split: option.splits)
  next
    case (T_request i r)
    then show ?thesis using assms by (auto simp: deliver_request_def)
  next
    case (T_cancel_scan i)
    then show ?thesis using assms by auto
  qed (insert assms(3), (simp only: task_work.simps, erule net [rotated], intro wf_intros)+)
qed

section \<open>The application\<close>

text \<open>Submitting and the callbacks do not write.\<close>

lemma callback_db:
  "ap_db (publish_event e a) = ap_db a" "ap_db (publish_failure c x a) = ap_db a" "ap_db (on_finished t a) = ap_db a"
  "ap_db (store_update kvs a) = ap_db a" "ap_db (deliver_request i r a) = ap_db a"
  by (simp_all add: publish_event_def publish_failure_def store_update_def deliver_request_def)
    (cases t; simp add: on_finished_def)

lemma submit_db [simp]: "ap_db (submit_network t a) = ap_db a" "submit_worker t a = Inr a' \<Longrightarrow> ap_db a' = ap_db a"
  by (auto simp: submit_network_def submit_worker_def callback_db split: if_splits)

lemma on_success_db: "on_success t x a = Inr a' \<Longrightarrow> ap_db a' = ap_db a"
  by (cases t)
    (auto simp: on_success_def code_sent_def authenticated_def scan_prepared_def combined_def target_resolved_def
      precheck_done_def plan_done_def select_source_group_def callback_db
      split: work_result.splits option.splits)

lemma finish_task_wf:
  assumes "sound_world w" "db_wf (ap_db a)"
  shows "db_wf (ap_db (finish_task w t a))"
proof -
  obtain r a1 where work: "task_work w t (a\<lparr>ap_tasks := remove1 t (ap_tasks a)\<rparr>) = (r, a1)" by fastforce
  have "db_wf (ap_db a1)" using task_work_wf [OF assms(1) _ work] assms(2) by simp
  then show ?thesis
    using work by (auto simp: finish_task_def callback_db dest: on_success_db split: sum.splits)
qed

lemma new_executor_db: "new_executor j i t a = Inr a' \<Longrightarrow> ap_db a' = ap_db a"
  using new_executor_effect by fastforce

lemma handle_db: "handle c a = Inr a' \<Longrightarrow> ap_db a' = ap_db a"
  by (cases c)
    (auto simp: update_settings_def add_account_def enable_account_def delete_account_def select_account_def connect_account_def
      handle_send_code_def handle_sign_in_def resolve_source_def joined_groups_def select_source_group_def scan_source_def
      cancel_scan_def resume_scan_def handle_import_def combine_dataset_def select_dataset_def handle_export_dataset_def
      resolve_target_def precheck_target_def plan_action_def start_migration_def pause_migration_def stop_migration_def
      request_migration_def resume_migration_def handle_export_results_def handle_export_log_def resume_job_def handle_join_def
      handle_leave_def deferring_def callback_db Let_def dest: new_executor_db split: option.splits if_splits)

lemma prepare_shutdown_db: "ap_db (prepare_shutdown a) = ap_db a"
proof -
  have "ap_db (fold (\<lambda>(j, sl). deliver_request (es_id sl) RequestPause) xs a) = ap_db a" for xs
    by (induction xs arbitrary: a) (auto simp: callback_db)
  then show ?thesis by (simp add: prepare_shutdown_def)
qed

text \<open>
  The runs of the application in which the environment is sound: by assumption the other coroutines
  of the network loop, a scan and a migration run leave a well-formed database behind (as the
  scanner and the executor do, by \<open>actual_world_sound\<close>).  In them the database stays well formed.
\<close>

inductive sound_reachable :: "app \<Rightarrow> app \<Rightarrow> bool" for a0 where
  start: "sound_reachable a0 a0"
| command: "sound_reachable a0 a \<Longrightarrow> handle c a = Inr a' \<Longrightarrow> sound_reachable a0 a'"
| finish: "sound_reachable a0 a \<Longrightarrow> t \<in> set (ap_tasks a) \<Longrightarrow> sound_world w \<Longrightarrow> sound_reachable a0 (finish_task w t a)"
| shutdown: "sound_reachable a0 a \<Longrightarrow> sound_reachable a0 (prepare_shutdown a)"
| background: "sound_reachable a0 a \<Longrightarrow> db_wf (n_db net) \<Longrightarrow>
    sound_reachable a0 (a\<lparr>ap_net := net, ap_performance_users := users, ap_clock := clk, ap_utc := utc,
      ap_network_up := up, ap_workers_up := wup\<rparr>)"

lemma sound_reachable_app: "sound_reachable a0 a \<Longrightarrow> app_reachable a0 a"
  by (induction rule: sound_reachable.induct) (blast intro: app_reachable.intros app_step.intros)+

lemma sound_reachable_wf:
  assumes "sound_reachable a0 a" "db_wf (ap_db a0)"
  shows "db_wf (ap_db a)"
  using assms
proof (induction rule: sound_reachable.induct)
  case (background a net users clk utc up wup)
  then show ?case by simp
qed (auto simp: handle_db prepare_shutdown_db intro: finish_task_wf)

end
