(* ===== verification/Db_Writer.thy ===== *)
theory Db_Writer
  imports Programs
begin

text \<open>
  \<open>runtime/db_writer.py\<close>: the single writer thread.  Callers put tasks into a bounded queue and get
  a future; the thread coalesces routine tasks into one transaction and runs a critical task in a
  transaction of its own, after everything queued before it.  A task is identified by the number of
  its submission; \<open>w_futures\<close> holds the result of every completed future.

  Threads interleave as steps: a caller submits, the thread takes the next item or times out on an
  empty queue.  What can fail outside of the operations (taking the write lock, committing) is the
  argument \<open>fault\<close> of a commit.
\<close>

section \<open>The writer\<close>

record 'r write_task =
  wt_id :: nat
  wt_operation :: "'r dbop"
  wt_critical :: bool

datatype 'r queue_item = QTask "'r write_task" | QStop

record 'r writer =
  w_batch_limit :: nat
  w_queue_limit :: nat
  w_queue :: "'r queue_item list"
  w_pending :: "'r write_task list"
  w_futures :: "(nat \<times> 'r res) list"
  w_alive :: bool
  w_stopped :: bool
  w_next :: nat
  w_db :: db
  w_submitted :: "'r write_task list"
  w_log :: "('r write_task list \<times> exn option) list"

text \<open>
  The last two fields are history: the tasks accepted so far, and the transactions attempted so far
  with their faults.
\<close>

definition DBWriter :: "nat \<Rightarrow> nat \<Rightarrow> db \<Rightarrow> 'r writer" where
  "DBWriter batch_limit queue_limit d =
     \<lparr>w_batch_limit = max 1 batch_limit, w_queue_limit = queue_limit, w_queue = [], w_pending = [],
      w_futures = [], w_alive = False, w_stopped = False, w_next = 0, w_db = d, w_submitted = [],
      w_log = []\<rparr>"

definition queue_depth :: "'r writer \<Rightarrow> nat" where
  "queue_depth w = length (w_queue w)"

definition writer_start :: "'r writer \<Rightarrow> 'r writer" where
  "writer_start w = (if w_alive w then w else w\<lparr>w_alive := True, w_stopped := False\<rparr>)"

text \<open>\<open>Queue.put\<close> blocks while the queue is full: \<open>None\<close>.  A limit of zero is no limit.\<close>

definition queue_put :: "'r queue_item \<Rightarrow> 'r writer \<Rightarrow> 'r writer option" where
  "queue_put x w =
     (if w_queue_limit w = 0 \<or> queue_depth w < w_queue_limit w
      then Some (w\<lparr>w_queue := w_queue w @ [x]\<rparr>) else None)"

definition set_future :: "nat \<Rightarrow> 'r res \<Rightarrow> 'r writer \<Rightarrow> 'r writer" where
  "set_future i r w =
     (if map_of (w_futures w) i \<noteq> None then w else w\<lparr>w_futures := w_futures w @ [(i, r)]\<rparr>)"

definition writer_submit :: "'r dbop \<Rightarrow> bool \<Rightarrow> 'r writer \<Rightarrow> (nat \<times> 'r writer) option" where
  "writer_submit operation critical w =
     (let i = w_next w; w0 = w\<lparr>w_next := Suc i\<rparr> in
      if w_stopped w
      then Some (i, set_future i (Inl (RuntimeError ''DBWriter has been stopped'')) w0)
      else
        let t = \<lparr>wt_id = i, wt_operation = operation, wt_critical = critical\<rparr> in
        map_option (\<lambda>w'. (i, w'\<lparr>w_submitted := w_submitted w' @ [t]\<rparr>))
          (queue_put (QTask t) (writer_start w0)))"

text \<open>\<open>execute\<close> submits one statement; its result is the number of affected rows.\<close>

definition writer_execute :: "'r dbop \<Rightarrow> bool \<Rightarrow> 'r writer \<Rightarrow> (nat \<times> 'r writer) option" where
  "writer_execute statement critical w = writer_submit statement critical w"

definition fail_tasks :: "'r write_task list \<Rightarrow> exn \<Rightarrow> 'r writer \<Rightarrow> 'r writer" where
  "fail_tasks tasks e w = fold (\<lambda>t. set_future (wt_id t) (Inl e)) tasks w"

fun run_ops :: "'r write_task list \<Rightarrow> 'r list dbop" where
  "run_ops [] = dreturn []"
| "run_ops (t # ts) = dbind (wt_operation t) (\<lambda>r. dbind (run_ops ts) (\<lambda>rs. dreturn (r # rs)))"

text \<open>
  One transaction: all results, or one error and the database as it was.  That SQLite rolls back is
  part of the type of an operation, which gives no database when it fails.
\<close>

definition batch_result :: "exn option \<Rightarrow> 'r write_task list \<Rightarrow> db \<Rightarrow> 'r list res \<times> db" where
  "batch_result fault tasks d =
     (case fault of
        Some e \<Rightarrow> (Inl e, d)
      | None \<Rightarrow> (case run_ops tasks d of Inl e \<Rightarrow> (Inl e, d) | Inr (rs, d') \<Rightarrow> (Inr rs, d')))"

definition commit_batch :: "exn option \<Rightarrow> 'r write_task list \<Rightarrow> 'r writer \<Rightarrow> 'r writer" where
  "commit_batch fault tasks w =
     (if tasks = [] then w
      else
        let (res, d) = batch_result fault tasks (w_db w);
            w1 = w\<lparr>w_db := d, w_log := w_log w @ [(tasks, fault)]\<rparr>
        in case res of
             Inl e \<Rightarrow> fail_tasks tasks e w1
           | Inr rs \<Rightarrow> fold (\<lambda>(t, r). set_future (wt_id t) (Inr r)) (zip tasks rs) w1)"

definition flush_pending :: "exn option \<Rightarrow> 'r writer \<Rightarrow> 'r writer" where
  "flush_pending fault w = (commit_batch fault (w_pending w) w)\<lparr>w_pending := []\<rparr>"

definition run_item :: "exn option \<Rightarrow> exn option \<Rightarrow> 'r queue_item \<Rightarrow> 'r writer \<Rightarrow> 'r writer" where
  "run_item fault1 fault2 item w =
     (case item of
        QStop \<Rightarrow> (flush_pending fault1 w)\<lparr>w_alive := False\<rparr>
      | QTask t \<Rightarrow>
          if wt_critical t then commit_batch fault2 [t] (flush_pending fault1 w)
          else
            let w1 = w\<lparr>w_pending := w_pending w @ [t]\<rparr> in
            if length (w_pending w1) \<ge> w_batch_limit w1 then flush_pending fault1 w1 else w1)"

text \<open>One round of the loop of \<open>_run\<close>: the next item, or a timeout when there is none.\<close>

definition run_step :: "exn option \<Rightarrow> exn option \<Rightarrow> 'r writer \<Rightarrow> 'r writer" where
  "run_step fault1 fault2 w =
     (case w_queue w of
        [] \<Rightarrow> flush_pending fault1 w
      | item # rest \<Rightarrow> run_item fault1 fault2 item (w\<lparr>w_queue := rest\<rparr>))"

text \<open>
  \<open>stop\<close> queues the stop marker; the writer is marked stopped when the thread has ended or the join
  timed out.
\<close>

definition writer_stop_request :: "'r writer \<Rightarrow> 'r writer option" where
  "writer_stop_request w = (if \<not> w_alive w then Some (w\<lparr>w_stopped := True\<rparr>) else queue_put QStop w)"

definition writer_joined :: "'r writer \<Rightarrow> 'r writer" where
  "writer_joined w = w\<lparr>w_stopped := True\<rparr>"

inductive writer_reachable :: "nat \<Rightarrow> nat \<Rightarrow> db \<Rightarrow> 'r writer \<Rightarrow> bool" for bl ql d0 where
  init: "writer_reachable bl ql d0 (DBWriter bl ql d0)"
| submit: "writer_reachable bl ql d0 w \<Longrightarrow> writer_submit f critical w = Some (i, w') \<Longrightarrow> writer_reachable bl ql d0 w'"
| step: "writer_reachable bl ql d0 w \<Longrightarrow> w_alive w \<Longrightarrow> writer_reachable bl ql d0 (run_step fault1 fault2 w)"
| stop: "writer_reachable bl ql d0 w \<Longrightarrow> writer_stop_request w = Some w' \<Longrightarrow> writer_reachable bl ql d0 w'"
| joined: "writer_reachable bl ql d0 w \<Longrightarrow> writer_reachable bl ql d0 (writer_joined w)"

section \<open>Invariant\<close>

definition queued_tasks :: "'r queue_item list \<Rightarrow> 'r write_task list" where
  "queued_tasks q = List.map_filter (\<lambda>x. case x of QTask t \<Rightarrow> Some t | QStop \<Rightarrow> None) q"

lemma queued_tasks_simps [simp]:
  "queued_tasks [] = []" "queued_tasks (QTask t # q) = t # queued_tasks q"
  "queued_tasks (QStop # q) = queued_tasks q" "queued_tasks (p @ q) = queued_tasks p @ queued_tasks q"
  by (simp_all add: queued_tasks_def List.map_filter_def)

text \<open>The reference: the transactions one after the other.\<close>

fun replay :: "('r write_task list \<times> exn option) list \<Rightarrow> db \<Rightarrow> db" where
  "replay [] d = d"
| "replay ((ts, fault) # bs) d = replay bs (snd (batch_result fault ts d))"

lemma replay_append: "replay (xs @ ys) d = replay ys (replay xs d)"
  by (induction xs d rule: replay.induct) simp_all

definition writer_inv :: "db \<Rightarrow> 'r writer \<Rightarrow> bool" where
  "writer_inv d0 w =
     (concat (map fst (w_log w)) @ w_pending w @ queued_tasks (w_queue w) = w_submitted w \<and>
      w_db w = replay (w_log w) d0 \<and> 0 < w_batch_limit w \<and> length (w_pending w) < w_batch_limit w \<and>
      distinct (map wt_id (w_submitted w)) \<and> (\<forall>t \<in> set (w_submitted w). wt_id t < w_next w) \<and>
      (\<forall>t \<in> set (concat (map fst (w_log w))). map_of (w_futures w) (wt_id t) \<noteq> None) \<and>
      (\<forall>t \<in> set (w_pending w @ queued_tasks (w_queue w)). map_of (w_futures w) (wt_id t) = None) \<and>
      (\<forall>k. w_next w \<le> k \<longrightarrow> map_of (w_futures w) k = None))"

lemma set_future_frame [simp]:
  "w_queue (set_future i r w) = w_queue w" "w_pending (set_future i r w) = w_pending w"
  "w_db (set_future i r w) = w_db w" "w_submitted (set_future i r w) = w_submitted w"
  "w_log (set_future i r w) = w_log w" "w_batch_limit (set_future i r w) = w_batch_limit w"
  "w_alive (set_future i r w) = w_alive w" "w_stopped (set_future i r w) = w_stopped w"
  "w_next (set_future i r w) = w_next w"
  by (simp_all add: set_future_def)

lemma set_future_lookup [simp]:
  "map_of (w_futures (set_future i r w)) k =
     (if map_of (w_futures w) k = None \<and> k = i then Some r else map_of (w_futures w) k)"
  by (auto simp: set_future_def map_add_def split: option.splits)

lemma fold_futures_frame [simp]:
  fixes g :: "'b \<Rightarrow> nat" and h :: "'b \<Rightarrow> 'r res"
  shows "w_queue (fold (\<lambda>x. set_future (g x) (h x)) xs w) = w_queue w"
    "w_pending (fold (\<lambda>x. set_future (g x) (h x)) xs w) = w_pending w"
    "w_db (fold (\<lambda>x. set_future (g x) (h x)) xs w) = w_db w"
    "w_submitted (fold (\<lambda>x. set_future (g x) (h x)) xs w) = w_submitted w"
    "w_log (fold (\<lambda>x. set_future (g x) (h x)) xs w) = w_log w"
    "w_batch_limit (fold (\<lambda>x. set_future (g x) (h x)) xs w) = w_batch_limit w"
    "w_alive (fold (\<lambda>x. set_future (g x) (h x)) xs w) = w_alive w"
    "w_next (fold (\<lambda>x. set_future (g x) (h x)) xs w) = w_next w"
  by (induction xs arbitrary: w) simp_all

lemma fold_futures_set:
  fixes g :: "'b \<Rightarrow> nat" and h :: "'b \<Rightarrow> 'r res"
  shows "map_of (w_futures (fold (\<lambda>x. set_future (g x) (h x)) xs w)) k =
    (case map_of (w_futures w) k of Some r \<Rightarrow> Some r | None \<Rightarrow> map_of (map (\<lambda>x. (g x, h x)) xs) k)"
  by (induction xs arbitrary: w) (auto split: option.splits)

lemma run_ops_length: "run_ops ts d = Inr (rs, d') \<Longrightarrow> length rs = length ts"
  by (induction ts arbitrary: rs d) (auto simp: dbind_Inr)

text \<open>The futures a transaction completes.\<close>

definition batch_futures :: "exn option \<Rightarrow> 'r write_task list \<Rightarrow> db \<Rightarrow> (nat \<times> 'r res) list" where
  "batch_futures fault ts d =
     (case fst (batch_result fault ts d) of
        Inl e \<Rightarrow> map (\<lambda>t. (wt_id t, Inl e)) ts
      | Inr rs \<Rightarrow> map (\<lambda>(t, r). (wt_id t, Inr r)) (zip ts rs))"

lemma batch_futures_keys: "map fst (batch_futures fault ts d) = map wt_id ts"
proof (cases "batch_result fault ts d")
  case (Pair res d')
  show ?thesis
  proof (cases res)
    case (Inr rs)
    with Pair have "length rs = length ts"
      by (auto simp: batch_result_def run_ops_length split: option.splits sum.splits)
    then have "map wt_id (map fst (zip ts rs)) = map wt_id ts" by simp
    then show ?thesis
      using Pair Inr by (simp add: batch_futures_def comp_def split_beta)
  qed (simp add: batch_futures_def Pair comp_def)
qed

lemma commit_batch_effect:
  assumes "ts \<noteq> []"
  shows "w_log (commit_batch fault ts w) = w_log w @ [(ts, fault)]"
    "w_db (commit_batch fault ts w) = snd (batch_result fault ts (w_db w))"
    "w_queue (commit_batch fault ts w) = w_queue w" "w_pending (commit_batch fault ts w) = w_pending w"
    "w_submitted (commit_batch fault ts w) = w_submitted w" "w_batch_limit (commit_batch fault ts w) = w_batch_limit w"
    "w_alive (commit_batch fault ts w) = w_alive w" "w_next (commit_batch fault ts w) = w_next w"
    "map_of (w_futures (commit_batch fault ts w)) k =
      (case map_of (w_futures w) k of Some r \<Rightarrow> Some r | None \<Rightarrow> map_of (batch_futures fault ts (w_db w)) k)"
proof -
  obtain res d where r: "batch_result fault ts (w_db w) = (res, d)" by fastforce
  let ?w1 = "w\<lparr>w_db := d, w_log := w_log w @ [(ts, fault)]\<rparr>"
  have c: "commit_batch fault ts w = (case res of
      Inl e \<Rightarrow> fold (\<lambda>t. set_future (wt_id t) (Inl e)) ts ?w1
    | Inr rs \<Rightarrow> fold (\<lambda>x. set_future (wt_id (fst x)) (Inr (snd x))) (zip ts rs) ?w1)"
    using assms r by (simp add: commit_batch_def fail_tasks_def case_prod_beta' split: sum.split)
  show "w_log (commit_batch fault ts w) = w_log w @ [(ts, fault)]"
    "w_db (commit_batch fault ts w) = snd (batch_result fault ts (w_db w))"
    "w_queue (commit_batch fault ts w) = w_queue w" "w_pending (commit_batch fault ts w) = w_pending w"
    "w_submitted (commit_batch fault ts w) = w_submitted w" "w_batch_limit (commit_batch fault ts w) = w_batch_limit w"
    "w_alive (commit_batch fault ts w) = w_alive w" "w_next (commit_batch fault ts w) = w_next w"
    unfolding c r by (cases res; simp)+
  show "map_of (w_futures (commit_batch fault ts w)) k =
      (case map_of (w_futures w) k of Some r \<Rightarrow> Some r | None \<Rightarrow> map_of (batch_futures fault ts (w_db w)) k)"
    unfolding c batch_futures_def r
    by (cases res) (simp_all add: fold_futures_set case_prod_beta' cong: option.case_cong)
qed

text \<open>Committing a block of tasks that stands right after the transactions so far.\<close>

lemma batch_future_iff: "map_of (batch_futures fault ts d) k \<noteq> None \<longleftrightarrow> k \<in> wt_id ` set ts"
  using batch_futures_keys [of fault ts d] by (metis domIff dom_map_of_conv_image_fst list.set_map)

text \<open>
  The part of the invariant that does not mention the pending list: the tasks accepted so far are
  those of the transactions, then the given ones, in order.
\<close>

definition serves :: "db \<Rightarrow> 'r writer \<Rightarrow> 'r write_task list \<Rightarrow> bool" where
  "serves d0 w rest =
     (concat (map fst (w_log w)) @ rest = w_submitted w \<and> w_db w = replay (w_log w) d0 \<and>
      distinct (map wt_id (w_submitted w)) \<and> (\<forall>t \<in> set (w_submitted w). wt_id t < w_next w) \<and>
      (\<forall>t \<in> set (concat (map fst (w_log w))). map_of (w_futures w) (wt_id t) \<noteq> None) \<and>
      (\<forall>t \<in> set rest. map_of (w_futures w) (wt_id t) = None) \<and>
      (\<forall>k. w_next w \<le> k \<longrightarrow> map_of (w_futures w) k = None))"

lemma writer_inv_serves:
  "writer_inv d0 w \<longleftrightarrow> serves d0 w (w_pending w @ queued_tasks (w_queue w)) \<and>
     0 < w_batch_limit w \<and> length (w_pending w) < w_batch_limit w"
  unfolding writer_inv_def serves_def by blast

lemma serves_frame [simp]:
  "serves d0 (w\<lparr>w_queue := q\<rparr>) rest = serves d0 w rest" "serves d0 (w\<lparr>w_pending := p\<rparr>) rest = serves d0 w rest"
  "serves d0 (w\<lparr>w_alive := al\<rparr>) rest = serves d0 w rest" "serves d0 (w\<lparr>w_stopped := st\<rparr>) rest = serves d0 w rest"
  by (simp_all add: serves_def)

lemma serves_submit:
  assumes "serves d0 w rest" "wt_id t = w_next w"
  shows "serves d0 (w\<lparr>w_next := Suc (w_next w), w_submitted := w_submitted w @ [t]\<rparr>) (rest @ [t])"
proof -
  have "w_next w \<notin> wt_id ` set (w_submitted w)" "map_of (w_futures w) (w_next w) = None"
    using assms(1) unfolding serves_def by auto
  moreover have "wt_id x < Suc (w_next w)" if "x \<in> set (w_submitted w)" for x
    using assms(1) that unfolding serves_def by (simp add: less_SucI)
  ultimately show ?thesis using assms unfolding serves_def by (simp flip: append_assoc)
qed

lemma serves_reject:
  assumes "serves d0 w rest"
  shows "serves d0 (set_future (w_next w) r (w\<lparr>w_next := Suc (w_next w)\<rparr>)) rest"
proof -
  have lt: "wt_id x < w_next w" if "x \<in> set (w_submitted w)" for x
    using assms that unfolding serves_def by blast
  have "set rest \<subseteq> set (w_submitted w)" using assms unfolding serves_def by (metis set_append sup_ge2)
  then have "wt_id x \<noteq> w_next w" if "x \<in> set rest" for x using lt [of x] that by auto
  with lt show ?thesis using assms unfolding serves_def by (auto simp: less_SucI)
qed

lemma commit_batch_serves:
  assumes "serves d0 w (ts @ rest)"
  shows "serves d0 (commit_batch fault ts w) rest"
proof (cases "ts = []")
  case True
  with assms show ?thesis by (simp add: commit_batch_def)
next
  case False
  note eff = commit_batch_effect [OF False, of fault w]
  have dist: "distinct (map wt_id (ts @ rest))"
    using assms unfolding serves_def by (metis distinct_append map_append)
  have old: "concat (map fst (w_log w)) @ ts @ rest = w_submitted w" "w_db w = replay (w_log w) d0"
    "distinct (map wt_id (w_submitted w))" "\<forall>t \<in> set (w_submitted w). wt_id t < w_next w"
    "\<forall>t \<in> set (concat (map fst (w_log w))). map_of (w_futures w) (wt_id t) \<noteq> None"
    "\<forall>t \<in> set (ts @ rest). map_of (w_futures w) (wt_id t) = None"
    "\<forall>k. w_next w \<le> k \<longrightarrow> map_of (w_futures w) k = None"
    using assms unfolding serves_def by blast+
  have none: "map_of (w_futures (commit_batch fault ts w)) k = None"
    if "map_of (w_futures w) k = None" "k \<notin> wt_id ` set ts" for k
    using that batch_future_iff [of fault ts "w_db w" k] by (simp add: eff(9))
  have some: "map_of (w_futures (commit_batch fault ts w)) k \<noteq> None"
    if "map_of (w_futures w) k \<noteq> None \<or> k \<in> wt_id ` set ts" for k
    using that batch_future_iff [of fault ts "w_db w" k] by (auto simp: eff(9) split: option.splits)
  show ?thesis
    unfolding serves_def
  proof (intro conjI ballI allI impI)
    show "concat (map fst (w_log (commit_batch fault ts w))) @ rest = w_submitted (commit_batch fault ts w)"
      using old(1) by (simp add: eff)
    show "w_db (commit_batch fault ts w) = replay (w_log (commit_batch fault ts w)) d0"
      using old(2) by (simp add: eff replay_append)
    show "distinct (map wt_id (w_submitted (commit_batch fault ts w)))" using old(3) by (simp add: eff)
    show "wt_id t < w_next (commit_batch fault ts w)" if "t \<in> set (w_submitted (commit_batch fault ts w))" for t
      using old(4) that by (simp add: eff)
    show "map_of (w_futures (commit_batch fault ts w)) (wt_id t) \<noteq> None"
      if "t \<in> set (concat (map fst (w_log (commit_batch fault ts w))))" for t
      using that old(5) by (intro some) (auto simp: eff)
    show "map_of (w_futures (commit_batch fault ts w)) (wt_id t) = None" if "t \<in> set rest" for t
      using that old(6) dist by (intro none) (auto simp: image_iff)
    show "map_of (w_futures (commit_batch fault ts w)) k = None" if "w_next (commit_batch fault ts w) \<le> k" for k
    proof (rule none)
      show "map_of (w_futures w) k = None" using old(7) that by (simp add: eff)
      have "set ts \<subseteq> set (w_submitted w)" unfolding old(1) [symmetric] by auto
      with old(4) that show "k \<notin> wt_id ` set ts" by (fastforce simp: eff)
    qed
  qed
qed

lemma commit_batch_frame [simp]:
  "w_queue (commit_batch fault ts w) = w_queue w" "w_pending (commit_batch fault ts w) = w_pending w"
  "w_batch_limit (commit_batch fault ts w) = w_batch_limit w" "w_alive (commit_batch fault ts w) = w_alive w"
  using commit_batch_effect [of ts fault w] by (cases "ts = []"; simp add: commit_batch_def)+

lemma flush_pending_serves:
  assumes "serves d0 w (w_pending w @ rest)"
  shows "serves d0 (flush_pending fault w) rest"
  using commit_batch_serves [OF assms, of fault] by (simp add: flush_pending_def)

lemma flush_pending_frame [simp]:
  "w_queue (flush_pending fault w) = w_queue w" "w_pending (flush_pending fault w) = []"
  "w_batch_limit (flush_pending fault w) = w_batch_limit w" "w_alive (flush_pending fault w) = w_alive w"
  by (simp_all add: flush_pending_def)

lemma flush_pending_effect:
  "w_submitted (flush_pending fault w) = w_submitted w"
  "w_db (flush_pending fault w) = (if w_pending w = [] then w_db w else snd (batch_result fault (w_pending w) (w_db w)))"
  using commit_batch_effect(2,5) [of "w_pending w" fault w]
  by (cases "w_pending w = []"; simp add: flush_pending_def commit_batch_def)+

lemma run_step_inv:
  assumes "writer_inv d0 w"
  shows "writer_inv d0 (run_step f1 f2 w)"
proof -
  have sv: "serves d0 w (w_pending w @ queued_tasks (w_queue w))" and lim: "0 < w_batch_limit w" "length (w_pending w) < w_batch_limit w"
    using assms by (simp_all add: writer_inv_serves)
  show ?thesis
  proof (cases "w_queue w")
    case Nil
    with flush_pending_serves [OF sv] lim show ?thesis by (simp add: run_step_def writer_inv_serves)
  next
    case (Cons item rest)
    let ?w = "w\<lparr>w_queue := rest\<rparr>"
    show ?thesis
    proof (cases item)
      case QStop
      have "serves d0 ?w (w_pending ?w @ queued_tasks rest)" using sv Cons QStop by simp
      from flush_pending_serves [OF this, of f1] lim Cons QStop show ?thesis
        by (simp add: run_step_def run_item_def writer_inv_serves)
    next
      case (QTask t)
      have sv1: "serves d0 ?w (w_pending ?w @ t # queued_tasks rest)" using sv Cons QTask by simp
      show ?thesis
      proof (cases "wt_critical t")
        case True
        from flush_pending_serves [OF sv1, of f1] have "serves d0 (flush_pending f1 ?w) ([t] @ queued_tasks rest)" by simp
        from commit_batch_serves [OF this, of f2] lim Cons QTask True show ?thesis
          by (simp add: run_step_def run_item_def writer_inv_serves)
      next
        case False
        let ?w1 = "?w\<lparr>w_pending := w_pending w @ [t]\<rparr>"
        have "serves d0 ?w1 (w_pending ?w1 @ queued_tasks rest)" using sv1 by simp
        with flush_pending_serves [OF this, of f1] lim Cons QTask False show ?thesis
          by (simp add: run_step_def run_item_def writer_inv_serves Let_def)
      qed
    qed
  qed
qed

lemma writer_submit_inv:
  assumes "writer_inv d0 w" "writer_submit f c w = Some (i, w')"
  shows "writer_inv d0 w'"
proof -
  have sv: "serves d0 w (w_pending w @ queued_tasks (w_queue w))" and lim: "0 < w_batch_limit w" "length (w_pending w) < w_batch_limit w"
    using assms(1) by (simp_all add: writer_inv_serves)
  show ?thesis
  proof (cases "w_stopped w")
    case True
    then have w': "w' = set_future (w_next w) (Inl (RuntimeError ''DBWriter has been stopped'')) (w\<lparr>w_next := Suc (w_next w)\<rparr>)"
      using assms(2) by (auto simp: writer_submit_def Let_def)
    show ?thesis unfolding w' writer_inv_serves using serves_reject [OF sv] lim by simp
  next
    case False
    let ?t = "\<lparr>wt_id = w_next w, wt_operation = f, wt_critical = c\<rparr>"
    let ?w = "w\<lparr>w_next := Suc (w_next w), w_submitted := w_submitted w @ [?t]\<rparr>"
    have w': "w' = ?w\<lparr>w_alive := True, w_stopped := w_stopped w', w_queue := w_queue w @ [QTask ?t]\<rparr>"
      using assms(2) False
      by (auto simp: writer_submit_def Let_def queue_put_def writer_start_def queue_depth_def split: if_splits)
    have "serves d0 ?w (w_pending w @ queued_tasks (w_queue w @ [QTask ?t]))"
      using serves_submit [OF sv, of ?t] by simp
    then show ?thesis using lim by (subst w') (simp add: writer_inv_serves)
  qed
qed

lemma writer_reachable_inv: "writer_reachable bl ql d0 w \<Longrightarrow> writer_inv d0 w"
proof (induction rule: writer_reachable.induct)
  case init
  show ?case by (simp add: writer_inv_def DBWriter_def)
next
  case (submit w f c i w')
  then show ?case by (simp add: writer_submit_inv)
next
  case (step w f1 f2)
  then show ?case by (simp add: run_step_inv)
next
  case (stop w w')
  then show ?case
    by (auto simp: writer_stop_request_def queue_put_def writer_inv_serves split: if_splits)
next
  case (joined w)
  then show ?case by (simp add: writer_joined_def writer_inv_serves)
qed

section \<open>Order, atomicity, durability\<close>

text \<open>
  C11. Whatever the callers do and whenever the thread runs, writes are served in the order of their
  submission and transactions are atomic: the accepted tasks are, in order, those of the
  transactions so far, then the coalesced ones, then the queued ones; the database is the result of
  running the transactions one after the other, each with all of its effects or with none; the
  futures of all of them are completed, and fewer than the batch limit are ever kept back.
\<close>

theorem writer_serves_in_order:
  assumes "writer_reachable batch_limit queue_limit d0 w"
  shows "concat (map fst (w_log w)) @ w_pending w @ queued_tasks (w_queue w) = w_submitted w \<and>
    w_db w = replay (w_log w) d0 \<and>
    (\<forall>t \<in> set (concat (map fst (w_log w))). map_of (w_futures w) (wt_id t) \<noteq> None) \<and>
    length (w_pending w) < w_batch_limit w"
  using writer_reachable_inv [OF assms] by (simp add: writer_inv_def)

definition sample_writer :: "int writer" where
  "sample_writer = DBWriter 250 5000 sample_db"

definition sample_write :: "int dbop" where
  "sample_write = dbind (update_jobs (\<lambda>r. j_id r = 1) (\<lambda>d r. r\<lparr>j_total := 9\<rparr>)) (\<lambda>_. dreturn 1)"

definition sample_task :: "int write_task" where
  "sample_task = \<lparr>wt_id = 0, wt_operation = sample_write, wt_critical = True\<rparr>"

definition sample_submitted :: "int writer" where
  "sample_submitted = sample_writer\<lparr>w_next := 1, w_alive := True, w_queue := [QTask sample_task], w_submitted := [sample_task]\<rparr>"

lemma sample_submitted_reachable: "writer_reachable 250 5000 sample_db sample_submitted"
proof (rule writer_reachable.submit [OF writer_reachable.init])
  show "writer_submit sample_write True (DBWriter 250 5000 sample_db) = Some (0, sample_submitted)"
    by (simp add: writer_submit_def Let_def queue_put_def writer_start_def DBWriter_def queue_depth_def
        sample_submitted_def sample_writer_def sample_task_def)
qed

theorem writer_serves_in_order_witness:
  "w_submitted sample_submitted = [sample_task] \<and> length (w_pending sample_submitted) < w_batch_limit sample_submitted"
  using writer_serves_in_order [OF sample_submitted_reachable] by (simp add: sample_submitted_def)

text \<open>
  C23. A critical write is durable when its future completes: the round that takes it completes it in
  a transaction of its own, after everything submitted before it; its result is the one of the
  operation on the database those left, and a failure of its own leaves no trace and fails nobody
  else.
\<close>

theorem critical_write_is_durable:
  assumes "writer_reachable batch_limit queue_limit d0 w" "w_queue w = QTask t # rest" "wt_critical t"
  shows "let w1 = flush_pending fault w; w2 = run_step fault None w in
    w_pending w2 = [] \<and> w_db w2 = snd (transact (wt_operation t) (w_db w1)) \<and>
    map_of (w_futures w2) (wt_id t) = Some (fst (transact (wt_operation t) (w_db w1))) \<and>
    (\<forall>s \<in> set (w_submitted w) - set (queued_tasks rest). map_of (w_futures w2) (wt_id s) \<noteq> None)"
proof -
  let ?w = "w\<lparr>w_queue := rest\<rparr>" and ?w1 = "flush_pending fault w"
  have step: "run_step fault None w = commit_batch None [t] (flush_pending fault ?w)"
    using assms(2,3) by (simp add: run_step_def run_item_def)
  have inv: "serves d0 ?w (w_pending ?w @ t # queued_tasks rest)"
    using writer_reachable_inv [OF assms(1)] assms(2) by (simp add: writer_inv_serves)
  have sv1: "serves d0 (flush_pending fault ?w) ([t] @ queued_tasks rest)"
    using flush_pending_serves [OF inv] by simp
  have sv2: "serves d0 (run_step fault None w) (queued_tasks rest)"
    unfolding step by (rule commit_batch_serves [OF sv1])
  note eff = commit_batch_effect [of "[t]" None "flush_pending fault ?w", folded step]
  have fresh: "map_of (w_futures (flush_pending fault ?w)) (wt_id t) = None"
    using sv1 unfolding serves_def by simp
  have db1: "w_db (flush_pending fault ?w) = w_db ?w1" by (simp add: flush_pending_effect)
  have "w_submitted (run_step fault None w) = w_submitted w"
    using eff(5) by (simp add: flush_pending_effect)
  then have completed: "map_of (w_futures (run_step fault None w)) (wt_id s) \<noteq> None"
    if "s \<in> set (w_submitted w) - set (queued_tasks rest)" for s
    using sv2 that unfolding serves_def by (metis Diff_iff UnE set_append)
  have res: "batch_result None [t] d = (map_sum id (\<lambda>r. [r]) (fst (transact (wt_operation t) d)), snd (transact (wt_operation t) d))" for d
    by (auto simp: batch_result_def transact_def dbind_def split: sum.splits)
  have "map_of (w_futures (run_step fault None w)) (wt_id t) = Some (fst (transact (wt_operation t) (w_db ?w1)))"
    using eff(9) fresh by (cases "fst (transact (wt_operation t) (w_db ?w1))") (simp_all add: batch_futures_def res db1)
  then show ?thesis
    using eff(2,4) completed by (simp add: Let_def res db1)
qed

theorem critical_write_is_durable_witness:
  "\<exists>d. w_db (run_step None None sample_submitted) = d \<and> map_of (w_futures (run_step None None sample_submitted)) 0 = Some (Inr 1)"
proof -
  have "fst (transact sample_write d) = Inr 1" for d by (simp add: sample_write_def transact_def update_jobs_def dbind_def)
  then show ?thesis
    using critical_write_is_durable [OF sample_submitted_reachable, of sample_task "[]" None]
    by (simp add: Let_def sample_submitted_def sample_task_def)
qed

end
