(* ===== verification/Config.thy ===== *)
theory Config
  imports Import_Export
begin

text \<open>
  \<open>config.py\<close>: the directories of the application and the settings file.  The file is modelled by
  what reading and parsing it gives; floats are rationals, as everywhere else.
\<close>

section \<open>Directories\<close>

record app_paths =
  pt_root :: string
  pt_data :: string
  pt_sessions :: string
  pt_cache :: string
  pt_temp :: string
  pt_logs :: string
  pt_exports :: string
  pt_backups :: string

definition APP_DIR_NAME :: string where
  "APP_DIR_NAME = ''TelegramMigrationStudio''"

definition path_join :: "string \<Rightarrow> string \<Rightarrow> string" where
  "path_join p q = p @ ''/'' @ q"

definition paths_under :: "string \<Rightarrow> app_paths" where
  "paths_under base =
     \<lparr>pt_root = base, pt_data = path_join base ''data'', pt_sessions = path_join base ''sessions'',
      pt_cache = path_join base ''cache'', pt_temp = path_join base ''temp'', pt_logs = path_join base ''logs'',
      pt_exports = path_join base ''exports'', pt_backups = path_join base ''backups''\<rparr>"

text \<open>\<open>discover\<close> creates every directory that does not exist yet, in this order.\<close>

definition discover :: "string option \<Rightarrow> string \<Rightarrow> string list \<Rightarrow> app_paths \<times> string list" where
  "discover localappdata home dirs =
     (let base = path_join (case localappdata of Some p \<Rightarrow> p | None \<Rightarrow> path_join (path_join home ''.local'') ''share'')
                           APP_DIR_NAME;
          p = paths_under base;
          wanted = [pt_root p, pt_data p, pt_sessions p, pt_cache p, pt_temp p, pt_logs p, pt_exports p, pt_backups p]
      in (p, dirs @ filter (\<lambda>q. q \<notin> set dirs) wanted))"

section \<open>Values of the settings file\<close>

datatype jvalue =
    J_null
  | J_bool bool
  | J_int int
  | J_real rat
  | J_nan
  | J_inf
  | J_text string
  | J_list
  | J_object

datatype settings_file =
    F_absent
  | F_unreadable
  | F_not_utf8
  | F_other
  | F_object "(string \<times> jvalue) list"

text \<open>\<open>float(text)\<close>; \<open>None\<close> inside is an infinity or not a number.\<close>

definition parse_part :: "string \<Rightarrow> nat option" where
  "parse_part t = (if t = [] then Some 0 else parse_nat t)"

definition parse_mantissa :: "string \<Rightarrow> rat option" where
  "parse_mantissa t =
     (let ip = takeWhile (\<lambda>c. c \<noteq> CHR ''.'') t; fp = drop 1 (dropWhile (\<lambda>c. c \<noteq> CHR ''.'') t) in
      if ip = [] \<and> fp = [] then None
      else case (parse_part ip, parse_part fp) of
             (Some n, Some k) \<Rightarrow> Some (of_nat n + of_nat k / 10 ^ length (filter (\<lambda>c. c \<noteq> CHR ''_'') fp))
           | _ \<Rightarrow> None)"

definition parse_exponent :: "string \<Rightarrow> int option" where
  "parse_exponent t = (case t of [] \<Rightarrow> Some 0 | _ # cs \<Rightarrow> parse_int cs)"

definition scale10 :: "rat \<Rightarrow> int \<Rightarrow> rat" where
  "scale10 m ex = (if 0 \<le> ex then m * 10 ^ nat ex else m / 10 ^ nat (- ex))"

definition parse_magnitude :: "string \<Rightarrow> rat option option" where
  "parse_magnitude t =
     (if t \<in> {''inf'', ''infinity'', ''nan''} then Some None
      else case (parse_mantissa (takeWhile (\<lambda>c. c \<noteq> CHR ''e'') t), parse_exponent (dropWhile (\<lambda>c. c \<noteq> CHR ''e'') t)) of
             (Some m, Some ex) \<Rightarrow> Some (Some (scale10 m ex))
           | _ \<Rightarrow> None)"

definition parse_float :: "string \<Rightarrow> rat option option" where
  "parse_float text =
     (case py_lower (py_strip text) of
        [] \<Rightarrow> None
      | c # cs \<Rightarrow>
          if c = CHR ''-'' then map_option (map_option uminus) (parse_magnitude cs)
          else if c = CHR ''+'' then parse_magnitude cs
          else parse_magnitude (c # cs))"

text \<open>The conversions \<open>int(value)\<close> and \<open>float(value)\<close>.  Too large numbers raise \<open>OverflowError\<close>.\<close>

definition overflow :: "string \<Rightarrow> exn" where
  "overflow what = ExternalError (''OverflowError: '' @ what)"

definition truncate_rat :: "rat \<Rightarrow> int" where
  "truncate_rat r = (if 0 \<le> r then \<lfloor>r\<rfloor> else \<lceil>r\<rceil>)"

definition to_int :: "jvalue \<Rightarrow> int res" where
  "to_int v =
     (case v of
        J_bool b \<Rightarrow> Inr (if b then 1 else 0)
      | J_int i \<Rightarrow> Inr i
      | J_real r \<Rightarrow> Inr (truncate_rat r)
      | J_nan \<Rightarrow> Inl (ValueError ''cannot convert float NaN to integer'')
      | J_inf \<Rightarrow> Inl (overflow ''cannot convert float infinity to integer'')
      | J_text t \<Rightarrow>
          (case parse_int (py_strip t) of Some i \<Rightarrow> Inr i | None \<Rightarrow> Inl (ValueError ''invalid literal for int()''))
      | _ \<Rightarrow> Inl (TypeError ''int() argument''))"

definition float_limit :: int where
  "float_limit = 2 ^ 1024 - 2 ^ 970"

definition to_float :: "jvalue \<Rightarrow> rat option res" where
  "to_float v =
     (case v of
        J_bool b \<Rightarrow> Inr (Some (if b then 1 else 0))
      | J_int i \<Rightarrow> if \<bar>i\<bar> \<ge> float_limit then Inl (overflow ''int too large to convert to float'') else Inr (Some (of_int i))
      | J_real r \<Rightarrow> Inr (Some r)
      | J_nan \<Rightarrow> Inr None
      | J_inf \<Rightarrow> Inr None
      | J_text t \<Rightarrow>
          (case parse_float t of Some x \<Rightarrow> Inr x | None \<Rightarrow> Inl (ValueError ''could not convert string to float''))
      | _ \<Rightarrow> Inl (TypeError ''float() argument''))"

text \<open>\<open>except (TypeError, ValueError)\<close>.\<close>

definition catch_type_value :: "'a \<Rightarrow> 'a res \<Rightarrow> 'a res" where
  "catch_type_value dflt r =
     (case r of Inl (TypeError _) \<Rightarrow> Inr dflt | Inl (ValueError _) \<Rightarrow> Inr dflt | _ \<Rightarrow> r)"

section \<open>Settings\<close>

record settings =
  st_api_id :: "int option"
  st_api_hash :: jvalue
  st_invite_interval_seconds :: rat

definition read_payload :: "settings_file \<Rightarrow> (string \<times> jvalue) list res" where
  "read_payload f =
     (case f of
        F_object kvs \<Rightarrow> Inr kvs
      | F_not_utf8 \<Rightarrow> Inl (ValueError ''UnicodeDecodeError'')
      | _ \<Rightarrow> Inr [])"

definition payload_get :: "(string \<times> jvalue) list \<Rightarrow> string \<Rightarrow> jvalue \<Rightarrow> jvalue" where
  "payload_get kvs key dflt = (case map_of kvs key of Some v \<Rightarrow> v | None \<Rightarrow> dflt)"

definition load_api_id :: "jvalue \<Rightarrow> int option res" where
  "load_api_id raw =
     (if raw = J_null \<or> raw = J_text [] then Inr None else catch_type_value None (map_sum id Some (to_int raw)))"

definition interval_ok :: "rat \<Rightarrow> bool" where
  "interval_ok r = (MIN_INVITE_INTERVAL_SECONDS \<le> r \<and> r \<le> MAX_INVITE_INTERVAL_SECONDS)"

definition load_interval :: "jvalue \<Rightarrow> rat res" where
  "load_interval raw =
     bindR (catch_type_value (Some DEFAULT_INVITE_INTERVAL_SECONDS) (to_float raw)) (\<lambda>x.
     Inr (case x of
            Some r \<Rightarrow> if interval_ok r then r else DEFAULT_INVITE_INTERVAL_SECONDS
          | None \<Rightarrow> DEFAULT_INVITE_INTERVAL_SECONDS))"

definition settings_load :: "settings_file \<Rightarrow> string option \<Rightarrow> string option \<Rightarrow> settings res" where
  "settings_load f env_id env_hash =
     bindR (read_payload f) (\<lambda>payload.
     bindR (load_api_id (case env_id of Some t \<Rightarrow> J_text t | None \<Rightarrow> payload_get payload ''api_id'' J_null)) (\<lambda>api_id.
     bindR (load_interval (payload_get payload ''invite_interval_seconds'' (J_real DEFAULT_INVITE_INTERVAL_SECONDS))) (\<lambda>interval.
     Inr \<lparr>st_api_id = api_id,
          st_api_hash = (case env_hash of Some t \<Rightarrow> J_text t | None \<Rightarrow> payload_get payload ''api_hash'' J_null),
          st_invite_interval_seconds = interval\<rparr>)))"

definition from_environment :: "string option \<Rightarrow> string option \<Rightarrow> settings res" where
  "from_environment env_id env_hash =
     bindR (if truthy_str env_id then map_sum id Some (to_int (J_text (or_empty env_id))) else Inr None) (\<lambda>api_id.
     Inr \<lparr>st_api_id = api_id, st_api_hash = (case env_hash of Some t \<Rightarrow> J_text t | None \<Rightarrow> J_null),
          st_invite_interval_seconds = DEFAULT_INVITE_INTERVAL_SECONDS\<rparr>)"

definition settings_save :: "settings \<Rightarrow> settings_file" where
  "settings_save s =
     F_object [(''api_id'', case st_api_id s of Some i \<Rightarrow> J_int i | None \<Rightarrow> J_null), (''api_hash'', st_api_hash s),
               (''invite_interval_seconds'', J_real (st_invite_interval_seconds s))]"

section \<open>Correctness\<close>

lemma load_interval_ok: "load_interval raw = Inr r \<Longrightarrow> interval_ok r"
  by (auto simp: load_interval_def bindR_eq_Inr interval_ok_def interval_constants split: option.splits if_splits)

text \<open>
  C39. Settings survive a restart.  Whatever the file and the environment contain, settings that load
  have an interval the scheduler accepts; saved settings with such an interval load back unchanged;
  and the two environment variables override the file without touching the rest.
\<close>

theorem settings_round_trip:
  "(\<forall>f env_id env_hash s. settings_load f env_id env_hash = Inr s \<longrightarrow> interval_ok (st_invite_interval_seconds s)) \<and>
   (\<forall>s :: settings. interval_ok (st_invite_interval_seconds s) \<longrightarrow>
      settings_load (settings_save s) None None = Inr s \<and>
      (\<forall>env_id env_hash i. load_api_id (J_text env_id) = Inr i \<longrightarrow>
         settings_load (settings_save s) (Some env_id) (Some env_hash) = Inr (s\<lparr>st_api_id := i, st_api_hash := J_text env_hash\<rparr>)))"
proof (intro conjI allI impI)
  fix f env_id env_hash and s :: settings assume "settings_load f env_id env_hash = Inr s"
  then show "interval_ok (st_invite_interval_seconds s)"
    by (auto simp: settings_load_def bindR_eq_Inr dest: load_interval_ok)
next
  fix s :: settings assume ok: "interval_ok (st_invite_interval_seconds s)"
  have iv: "load_interval (J_real (st_invite_interval_seconds s)) = Inr (st_invite_interval_seconds s)"
    using ok by (simp add: load_interval_def to_float_def catch_type_value_def)
  have id: "load_api_id (case st_api_id s of Some i \<Rightarrow> J_int i | None \<Rightarrow> J_null) = Inr (st_api_id s)"
    by (simp add: load_api_id_def to_int_def catch_type_value_def split: option.split)
  show "settings_load (settings_save s) None None = Inr s"
    by (simp add: settings_load_def settings_save_def read_payload_def payload_get_def iv id)
  fix env_id env_hash i assume "load_api_id (J_text env_id) = Inr i"
  then show "settings_load (settings_save s) (Some env_id) (Some env_hash) =
      Inr (s\<lparr>st_api_id := i, st_api_hash := J_text env_hash\<rparr>)"
    by (simp add: settings_load_def settings_save_def read_payload_def payload_get_def iv)
qed

theorem settings_round_trip_witness:
  "settings_load (settings_save \<lparr>st_api_id = Some 7, st_api_hash = J_text ''h'', st_invite_interval_seconds = 9/2\<rparr>) None None =
     Inr \<lparr>st_api_id = Some 7, st_api_hash = J_text ''h'', st_invite_interval_seconds = 9/2\<rparr> \<and>
   settings_load (settings_save \<lparr>st_api_id = Some 7, st_api_hash = J_text ''h'', st_invite_interval_seconds = 9/2\<rparr>)
     (Some '' 1_2 '') (Some ''k'') =
     Inr \<lparr>st_api_id = Some 12, st_api_hash = J_text ''k'', st_invite_interval_seconds = 9/2\<rparr>"
proof -
  let ?s = "\<lparr>st_api_id = Some 7, st_api_hash = J_text ''h'', st_invite_interval_seconds = 9/2\<rparr>"
  have ok: "interval_ok (st_invite_interval_seconds ?s)" by (simp add: interval_ok_def interval_constants)
  have id: "load_api_id (J_text '' 1_2 '') = Inr (Some 12)" by code_simp
  from settings_round_trip ok have rt: "settings_load (settings_save ?s) None None = Inr ?s" by blast
  from settings_round_trip ok id have "settings_load (settings_save ?s) (Some '' 1_2 '') (Some ''k'') =
      Inr (?s\<lparr>st_api_id := Some 12, st_api_hash := J_text ''k''\<rparr>)" by blast
  with rt show ?thesis by simp
qed

end
