(* ===== verification/Database_Init.thy ===== *)
theory Database_Init
  imports Statements Members
begin

text \<open>
  \<open>storage/database.py\<close>: creating the database, or opening the one of an earlier version.  A file is
  its columns and its rows; a table it does not have has no rows, and a row of a table that lacks a
  column is completed with the default the column is added with.  The rows of a table are kept in the
  order of their row ids.
\<close>

section \<open>Files of earlier versions\<close>

record db_file =
  f_columns :: "(string \<times> string list) list"
  f_db :: db
  f_unique_fallback :: bool
  f_unique_items :: bool
  f_unique_provenance :: bool
  f_restrictions :: bool
  f_user_version :: int

definition columns_of :: "string \<Rightarrow> db_file \<Rightarrow> string list" where
  "columns_of table f = (case map_of (f_columns f) table of Some cs \<Rightarrow> cs | None \<Rightarrow> [])"

text \<open>\<open>_add_column\<close>, with what the default does to the rows that are there.\<close>

definition add_column :: "string \<Rightarrow> string \<Rightarrow> (db \<Rightarrow> db) \<Rightarrow> db_file \<Rightarrow> db_file" where
  "add_column table name fill f =
     (if name \<in> set (columns_of table f) then f
      else f\<lparr>f_columns := dict_set table (columns_of table f @ [name]) (f_columns f), f_db := fill (f_db f)\<rparr>)"

definition fill_target_state :: "db \<Rightarrow> db" where
  "fill_target_state d = d\<lparr>t_migration_items := map (\<lambda>r. r\<lparr>i_target_state := KNOWN_ABSENT\<rparr>) (t_migration_items d)\<rparr>"

definition fill_connection_state :: "db \<Rightarrow> db" where
  "fill_connection_state d = d\<lparr>t_accounts := map (\<lambda>r. r\<lparr>a_connection_state := CS_DISCONNECTED\<rparr>) (t_accounts d)\<rparr>"

definition fill_operation_state :: "db \<Rightarrow> db" where
  "fill_operation_state d = d\<lparr>t_accounts := map (\<lambda>r. r\<lparr>a_operation_state := OS_IDLE\<rparr>) (t_accounts d)\<rparr>"

text \<open>\<open>DELETE ... WHERE rowid NOT IN (SELECT MIN(rowid) ... GROUP BY key)\<close>.\<close>

definition keep_first :: "('a \<Rightarrow> 'k) \<Rightarrow> 'a list \<Rightarrow> 'a list" where
  "keep_first key = first_occurrences (\<lambda>r. Some (key r))"

definition item_key :: "item_row \<Rightarrow> int \<times> int" where
  "item_key r = (i_job_id r, i_member_id r)"

definition collapse_items :: "db_file \<Rightarrow> db_file" where
  "collapse_items f = f\<lparr>f_db := (f_db f)\<lparr>t_migration_items := keep_first item_key (t_migration_items (f_db f))\<rparr>\<rparr>"

definition collapse_provenance :: "db_file \<Rightarrow> db_file" where
  "collapse_provenance f =
     f\<lparr>f_db := (f_db f)\<lparr>t_dataset_provenance := keep_first provenance_key (t_dataset_provenance (f_db f))\<rparr>\<rparr>"

text \<open>\<open>CREATE UNIQUE INDEX IF NOT EXISTS\<close> fails on duplicates.\<close>

definition index_items :: "db_file \<Rightarrow> db_file res" where
  "index_items f =
     (if f_unique_items f \<or> distinct (map item_key (t_migration_items (f_db f))) then Inr (f\<lparr>f_unique_items := True\<rparr>)
      else Inl (IntegrityError ''UNIQUE idx_migration_items_job_member_unique''))"

definition index_provenance :: "db_file \<Rightarrow> db_file res" where
  "index_provenance f =
     (if f_unique_provenance f \<or> distinct (map provenance_key (t_dataset_provenance (f_db f)))
      then Inr (f\<lparr>f_unique_provenance := True\<rparr>)
      else Inl (IntegrityError ''UNIQUE idx_dataset_provenance_nullsafe_unique''))"

definition create_restrictions :: "db_file \<Rightarrow> db_file" where
  "create_restrictions f =
     (if f_restrictions f then f
      else f\<lparr>f_restrictions := True, f_db := (f_db f)\<lparr>t_account_restrictions := [], seq_account_restrictions := 0\<rparr>\<rparr>)"

definition apply_compatibility_migrations :: "db_file \<Rightarrow> db_file res" where
  "apply_compatibility_migrations f =
     (let f1 = add_column ''migration_items'' ''target_state'' fill_target_state f;
          f2 = add_column ''accounts'' ''connection_state'' fill_connection_state f1;
          f3 = add_column ''accounts'' ''operation_state'' fill_operation_state f2
      in bindR (index_items (collapse_items (create_restrictions f3))) (\<lambda>f4.
         index_provenance (collapse_provenance f4)))"

text \<open>\<open>executescript(schema.sql)\<close>: the missing tables are created, and the unique index on the names
  of members without an id, which fails on duplicates.\<close>

definition SCHEMA_TABLES :: "(string \<times> string list) list" where
  "SCHEMA_TABLES =
     [(''accounts'', [''id'', ''phone'', ''telegram_user_id'', ''username'', ''display_name'', ''session_path'', ''status'',
         ''enabled'', ''last_connected_at'', ''last_error'', ''created_at'', ''updated_at'']),
      (''peer_cache'', [''account_id'', ''peer_id'', ''peer_type'', ''access_hash'', ''username'', ''title'', ''cached_at'']),
      (''groups'', [''id'', ''telegram_peer_id'', ''type'', ''username'', ''title'', ''last_known_member_count'',
         ''created_at'', ''updated_at'']),
      (''members'', [''id'', ''telegram_user_id'', ''username'', ''first_name'', ''last_name'', ''phone'', ''bot'', ''deleted'',
         ''activity_status'', ''last_seen'', ''created_at'', ''updated_at'']),
      (''datasets'', [''id'', ''name'', ''source_type'', ''source_reference'', ''status'', ''member_count'', ''created_at'',
         ''updated_at'']),
      (''dataset_members'', [''dataset_id'', ''member_id'', ''source_group_id'', ''collected_at'']),
      (''dataset_provenance'', [''dataset_id'', ''member_id'', ''source_dataset_id'', ''source_group_id'', ''source_label'',
         ''created_at'']),
      (''jobs'', [''id'', ''job_type'', ''state'', ''account_id'', ''source_dataset_id'', ''target_group_id'', ''total'',
         ''processed'', ''success'', ''skipped'', ''failed'', ''waiting_until'', ''checkpoint_json'', ''created_at'',
         ''started_at'', ''finished_at'', ''updated_at'']),
      (''migration_items'', [''job_id'', ''ordinal'', ''member_id'', ''target_state'', ''state'', ''attempt_count'',
         ''last_error_code'', ''last_error_text'', ''next_retry_at'', ''processed_at'']),
      (''job_events'', [''id'', ''job_id'', ''timestamp'', ''level'', ''event_code'', ''member_id'', ''message''])]"

fun create_tables :: "(string \<times> string list) list \<Rightarrow> (string \<times> string list) list \<Rightarrow> (string \<times> string list) list" where
  "create_tables [] cols = cols"
| "create_tables ((table, cs) # ts) cols =
     create_tables ts (if table \<in> fst ` set cols then cols else cols @ [(table, cs)])"

definition execute_schema :: "db_file \<Rightarrow> db_file res" where
  "execute_schema f =
     (if f_unique_fallback f \<or> distinct (List.map_filter fallback_key (t_members (f_db f)))
      then Inr (f\<lparr>f_columns := create_tables SCHEMA_TABLES (f_columns f), f_unique_fallback := True\<rparr>)
      else Inl (IntegrityError ''UNIQUE idx_members_username_fallback_unique''))"

definition initialize :: "db_file \<Rightarrow> db_file res" where
  "initialize f =
     bindR (execute_schema f) (\<lambda>f0.
     bindR (apply_compatibility_migrations f0) (\<lambda>f'. Inr (f'\<lparr>f_user_version := 3\<rparr>)))"

text \<open>The V1 migrations: only the target state and the provenance index.\<close>

definition apply_compatibility_migrations_v1 :: "db_file \<Rightarrow> db_file res" where
  "apply_compatibility_migrations_v1 f =
     index_provenance (collapse_provenance (add_column ''migration_items'' ''target_state'' fill_target_state f))"

definition initialize_v1 :: "db_file \<Rightarrow> db_file res" where
  "initialize_v1 f =
     bindR (execute_schema f) (\<lambda>f0.
     bindR (apply_compatibility_migrations_v1 f0) (\<lambda>f'. Inr (f'\<lparr>f_user_version := 2\<rparr>)))"

section \<open>Collapsing duplicates\<close>

lemma keep_first_keys: "distinct (map key (keep_first key rs))"
proof -
  have "distinct (map (\<lambda>r. Some (key r)) (keep_first key rs))"
    unfolding keep_first_def by (rule first_occurrences_distinct)
  then show ?thesis using distinct_map [of Some "map key (keep_first key rs)"] by (simp add: comp_def)
qed

lemma keep_first_covers: "key ` set (keep_first key rs) = key ` set rs"
proof
  show "key ` set (keep_first key rs) \<subseteq> key ` set rs"
    unfolding keep_first_def using first_occurrences_key by fastforce
  show "key ` set rs \<subseteq> key ` set (keep_first key rs)"
    unfolding keep_first_def using first_occurrences_covers [of _ rs "\<lambda>r. Some (key r)"] by fastforce
qed

lemma keep_first_subset: "set (keep_first key rs) \<subseteq> set rs"
  unfolding keep_first_def using first_occurrences_key by fastforce

lemma keep_first_distinct: "distinct (map key rs) \<Longrightarrow> keep_first key rs = rs"
proof (induction rs)
  case (Cons r rs)
  then have "keep_first key rs = rs" by simp
  moreover have "key r \<notin> key ` set rs" using Cons.prems by simp
  then have "filter (\<lambda>x. key x \<noteq> key r) rs = rs" by (induction rs) auto
  ultimately show ?case by (simp add: keep_first_def)
qed (simp add: keep_first_def)

lemma distinct_keep_first: "distinct (map k rs) \<Longrightarrow> distinct (map k (keep_first key rs))"
proof (induction rs)
  case (Cons r rs)
  then show ?case using keep_first_subset [of key rs]
    by (auto simp: keep_first_def distinct_map_filter)
qed (simp add: keep_first_def)

section \<open>An old file becomes a well-formed database\<close>

text \<open>What an earlier version guarantees: everything but the two unique keys added since.\<close>

definition legacy_wf :: "db \<Rightarrow> bool" where
  "legacy_wf d \<longleftrightarrow>
     db_wf (d\<lparr>t_migration_items := [], t_dataset_provenance := []\<rparr>) \<and>
     distinct (map (\<lambda>r. (i_job_id r, i_ordinal r)) (t_migration_items d)) \<and>
     (\<forall>r \<in> set (t_migration_items d). i_job_id r \<in> job_ids d \<and> i_member_id r \<in> member_ids d) \<and>
     (\<forall>r \<in> set (t_dataset_provenance d). dp_dataset_id r \<in> dataset_ids d \<and> dp_member_id r \<in> member_ids d \<and>
        fk_opt (dataset_ids d) (dp_source_dataset_id r) \<and> fk_opt (group_ids d) (dp_source_group_id r))"

lemma db_wf_legacy:
  assumes "db_wf d"
  shows "legacy_wf d"
proof -
  have "db_wf (d\<lparr>t_migration_items := []\<rparr>)" by (rule db_wf_replace(9) [OF assms]) (simp add: items_wf_def)
  then have "db_wf (d\<lparr>t_migration_items := [], t_dataset_provenance := []\<rparr>)"
    by (rule db_wf_replace(8)) (simp add: provenance_wf_def)
  then show ?thesis using assms by (simp add: legacy_wf_def db_wf_def items_wf_def provenance_wf_def)
qed

lemma legacy_accounts:
  assumes "legacy_wf d" "\<And>r. a_id (g r) = a_id r" "\<And>r. a_phone (g r) = a_phone r"
  shows "legacy_wf (d\<lparr>t_accounts := map g (t_accounts d)\<rparr>)"
proof -
  let ?e = "d\<lparr>t_migration_items := [], t_dataset_provenance := []\<rparr>"
  have wf: "db_wf ?e" using assms(1) by (simp add: legacy_wf_def)
  have "accounts_wf (seq_accounts ?e) (map g (t_accounts ?e))"
    using db_wf_tables(1) [OF wf] assms(2,3) by (simp add: accounts_wf_def comp_def)
  from db_wf_replace(1) [OF wf this] have "db_wf (?e\<lparr>t_accounts := map g (t_accounts d)\<rparr>)"
    using assms(2) by (simp add: image_image)
  moreover have "?e\<lparr>t_accounts := map g (t_accounts d)\<rparr> =
      d\<lparr>t_accounts := map g (t_accounts d), t_migration_items := [], t_dataset_provenance := []\<rparr>" by simp
  ultimately show ?thesis using assms(1) by (simp add: legacy_wf_def)
qed

lemma legacy_fill:
  assumes "legacy_wf d"
  shows "legacy_wf (fill_target_state d)" "legacy_wf (fill_connection_state d)" "legacy_wf (fill_operation_state d)"
    "legacy_wf (d\<lparr>t_account_restrictions := [], seq_account_restrictions := 0\<rparr>)"
proof -
  show "legacy_wf (fill_target_state d)"
    using assms by (simp add: legacy_wf_def fill_target_state_def comp_def)
  show "legacy_wf (fill_connection_state d)" "legacy_wf (fill_operation_state d)"
    unfolding fill_connection_state_def fill_operation_state_def by (rule legacy_accounts [OF assms]; simp)+
  let ?e = "d\<lparr>t_migration_items := [], t_dataset_provenance := []\<rparr>"
  have wf: "db_wf ?e" using assms by (simp add: legacy_wf_def)
  have "restrictions_wf 0 (account_ids ?e) []" by (simp add: restrictions_wf_def ids_ok_def)
  from db_wf_replace(11) [OF wf this]
  have "db_wf (?e\<lparr>t_account_restrictions := [], seq_account_restrictions := 0\<rparr>)" .
  moreover have "?e\<lparr>t_account_restrictions := [], seq_account_restrictions := 0\<rparr> =
      d\<lparr>t_account_restrictions := [], seq_account_restrictions := 0, t_migration_items := [], t_dataset_provenance := []\<rparr>"
    by simp
  ultimately show "legacy_wf (d\<lparr>t_account_restrictions := [], seq_account_restrictions := 0\<rparr>)"
    using assms by (simp add: legacy_wf_def)
qed

lemma legacy_collapse:
  assumes "legacy_wf d"
  shows "db_wf (d\<lparr>t_migration_items := keep_first item_key (t_migration_items d),
    t_dataset_provenance := keep_first provenance_key (t_dataset_provenance d)\<rparr>)"
proof -
  let ?e = "d\<lparr>t_migration_items := [], t_dataset_provenance := []\<rparr>"
    and ?is = "keep_first item_key (t_migration_items d)" and ?ps = "keep_first provenance_key (t_dataset_provenance d)"
  have wf: "db_wf ?e" using assms by (simp add: legacy_wf_def)
  have "items_wf (job_ids ?e) (member_ids ?e) ?is"
    using assms keep_first_subset [of item_key "t_migration_items d"] keep_first_keys [of item_key "t_migration_items d"]
      distinct_keep_first [of "\<lambda>r. (i_job_id r, i_ordinal r)" "t_migration_items d" item_key]
    unfolding items_wf_def legacy_wf_def item_key_def by auto
  from db_wf_replace(9) [OF wf this] have wf1: "db_wf (?e\<lparr>t_migration_items := ?is\<rparr>)" .
  have "provenance_wf (dataset_ids ?e) (member_ids ?e) (group_ids ?e) ?ps"
    using assms keep_first_subset [of provenance_key "t_dataset_provenance d"]
    unfolding provenance_wf_def legacy_wf_def by (auto simp: keep_first_keys)
  from db_wf_replace(8) [OF wf1, of ?ps] this have "db_wf (?e\<lparr>t_migration_items := ?is, t_dataset_provenance := ?ps\<rparr>)" by simp
  then show ?thesis by simp
qed

text \<open>The rows of a file once the missing columns and tables have been added.\<close>

lemma create_tables_names: "fst ` set (create_tables ts cols) = fst ` set ts \<union> fst ` set cols"
  by (induction ts cols rule: create_tables.induct) (simp_all add: insert_absorb)

lemma create_tables_known: "fst ` set ts \<subseteq> fst ` set cols \<Longrightarrow> create_tables ts cols = cols"
  by (induction ts cols rule: create_tables.induct) auto

definition after_schema :: "db_file \<Rightarrow> db_file" where
  "after_schema f = f\<lparr>f_columns := create_tables SCHEMA_TABLES (f_columns f), f_unique_fallback := True\<rparr>"

lemma after_schema_db [simp]: "f_db (after_schema f) = f_db f"
  by (simp add: after_schema_def)

lemma execute_schema_ok:
  assumes "legacy_wf (f_db f)"
  shows "execute_schema f = Inr (after_schema f)"
proof -
  have "db_wf ((f_db f)\<lparr>t_migration_items := [], t_dataset_provenance := []\<rparr>)" using assms by (simp add: legacy_wf_def)
  then have "distinct (List.map_filter fallback_key (t_members (f_db f)))" by (simp add: db_wf_def members_wf_def)
  then show ?thesis by (simp add: execute_schema_def after_schema_def)
qed

definition completed :: "db_file \<Rightarrow> db_file" where
  "completed f =
     create_restrictions (add_column ''accounts'' ''operation_state'' fill_operation_state
       (add_column ''accounts'' ''connection_state'' fill_connection_state
         (add_column ''migration_items'' ''target_state'' fill_target_state (after_schema f))))"

lemma legacy_completed: "legacy_wf (f_db f) \<Longrightarrow> legacy_wf (f_db (completed f))"
  by (simp add: completed_def after_schema_def create_restrictions_def add_column_def legacy_fill)

lemma columns_of_add [simp]:
  "columns_of t (add_column table name fill f) =
     (if t = table \<and> name \<notin> set (columns_of table f) then columns_of table f @ [name] else columns_of t f)"
  by (simp add: add_column_def columns_of_def map_of_dict_set)

lemma completed_columns:
  "''target_state'' \<in> set (columns_of ''migration_items'' (completed f))"
  "''connection_state'' \<in> set (columns_of ''accounts'' (completed f))"
  "''operation_state'' \<in> set (columns_of ''accounts'' (completed f))" "f_restrictions (completed f)"
  "fst ` set SCHEMA_TABLES \<subseteq> fst ` set (f_columns (completed f))" "f_unique_fallback (completed f)"
proof -
  have frame: "columns_of t (create_restrictions g) = columns_of t g" for t g
    by (simp add: create_restrictions_def columns_of_def)
  show "''target_state'' \<in> set (columns_of ''migration_items'' (completed f))"
    "''connection_state'' \<in> set (columns_of ''accounts'' (completed f))"
    "''operation_state'' \<in> set (columns_of ''accounts'' (completed f))"
    by (simp_all add: completed_def frame)
  show "f_restrictions (completed f)" by (simp add: completed_def create_restrictions_def)
  have "fst ` set (f_columns (after_schema f)) \<subseteq> fst ` set (f_columns (completed f))"
    by (auto simp: completed_def create_restrictions_def add_column_def)
  then show "fst ` set SCHEMA_TABLES \<subseteq> fst ` set (f_columns (completed f))"
    by (auto simp: after_schema_def create_tables_names)
  show "f_unique_fallback (completed f)"
    by (simp add: completed_def after_schema_def create_restrictions_def add_column_def)
qed

lemma initialize_effect:
  "legacy_wf (f_db f) \<Longrightarrow> initialize f = Inr ((completed f)\<lparr>f_db := (f_db (completed f))
       \<lparr>t_migration_items := keep_first item_key (t_migration_items (f_db (completed f))),
        t_dataset_provenance := keep_first provenance_key (t_dataset_provenance (f_db (completed f)))\<rparr>,
     f_unique_items := True, f_unique_provenance := True, f_user_version := 3\<rparr>)"
  by (simp add: initialize_def execute_schema_ok apply_compatibility_migrations_def completed_def [symmetric] Let_def index_items_def
      index_provenance_def collapse_items_def collapse_provenance_def keep_first_keys)

lemma completed_again:
  assumes "''target_state'' \<in> set (columns_of ''migration_items'' f)" "''connection_state'' \<in> set (columns_of ''accounts'' f)"
    "''operation_state'' \<in> set (columns_of ''accounts'' f)" "f_restrictions f"
    and "fst ` set SCHEMA_TABLES \<subseteq> fst ` set (f_columns f)" "f_unique_fallback f"
  shows "completed f = f"
proof -
  have "after_schema f = f" using create_tables_known [OF assms(5)] assms(6) by (simp add: after_schema_def)
  then show ?thesis using assms by (simp add: completed_def create_restrictions_def add_column_def)
qed

text \<open>
  C16. Opening the database of an earlier version never fails on its duplicates and gives a
  well-formed database: of the items of a job for the same member, and of the equal provenance rows,
  the oldest is kept and nothing else is deleted, the columns and the table added since are there,
  the other tables keep their rows, and opening it again changes nothing.
\<close>

theorem initialize_upgrades:
  assumes "legacy_wf (f_db f)"
  shows "\<exists>f'. initialize f = Inr f' \<and> db_wf (f_db f') \<and>
    map item_key (t_migration_items (f_db f')) = map item_key (keep_first item_key (t_migration_items (f_db f))) \<and>
    t_dataset_provenance (f_db f') = keep_first provenance_key (t_dataset_provenance (f_db f)) \<and>
    t_members (f_db f') = t_members (f_db f) \<and> t_jobs (f_db f') = t_jobs (f_db f) \<and>
    map a_id (t_accounts (f_db f')) = map a_id (t_accounts (f_db f)) \<and>
    f_user_version f' = 3 \<and> initialize f' = Inr f'"
proof -
  define g where "g = completed f"
  define f' where "f' = g\<lparr>f_db := (f_db g)\<lparr>t_migration_items := keep_first item_key (t_migration_items (f_db g)),
        t_dataset_provenance := keep_first provenance_key (t_dataset_provenance (f_db g))\<rparr>,
     f_unique_items := True, f_unique_provenance := True, f_user_version := 3\<rparr>"
  have run: "initialize f = Inr f'" unfolding f'_def g_def by (rule initialize_effect [OF assms])
  have wf: "db_wf (f_db f')"
    using legacy_collapse [OF legacy_completed [OF assms]] by (simp add: f'_def g_def)
  have map_first: "keep_first item_key (map (\<lambda>r. r\<lparr>i_target_state := v\<rparr>) rs) =
      map (\<lambda>r. r\<lparr>i_target_state := v\<rparr>) (keep_first item_key rs)" for v rs
    by (induction rs) (simp_all add: keep_first_def item_key_def filter_map comp_def)
  have items: "map item_key (keep_first item_key (t_migration_items (f_db g))) =
      map item_key (keep_first item_key (t_migration_items (f_db f)))"
    by (simp add: g_def completed_def create_restrictions_def add_column_def fill_target_state_def
        fill_connection_state_def fill_operation_state_def map_first comp_def) (simp add: item_key_def)
  have cols: "columns_of t f' = columns_of t g" for t by (simp add: f'_def columns_of_def)
  have same: "completed f' = f'"
  proof (rule completed_again)
    show "f_restrictions f'" "fst ` set SCHEMA_TABLES \<subseteq> fst ` set (f_columns f')" "f_unique_fallback f'"
      using completed_columns(4-6) [of f] by (simp_all add: f'_def g_def)
  qed (simp_all add: cols g_def completed_columns)
  have again: "initialize f' = Inr f'"
    unfolding initialize_effect [OF db_wf_legacy [OF wf]] same by (simp add: f'_def keep_first_distinct keep_first_keys)
  have other: "t_dataset_provenance (f_db g) = t_dataset_provenance (f_db f)" "t_members (f_db g) = t_members (f_db f)"
    "t_jobs (f_db g) = t_jobs (f_db f)" "map a_id (t_accounts (f_db g)) = map a_id (t_accounts (f_db f))"
    by (simp_all add: g_def completed_def create_restrictions_def add_column_def fill_target_state_def
        fill_connection_state_def fill_operation_state_def comp_def)
  show ?thesis using run wf items again other by (intro exI [of _ f']) (simp add: f'_def)
qed

definition sample_file :: db_file where
  "sample_file = \<lparr>f_columns = [(''migration_items'', [''job_id'', ''ordinal'', ''member_id'']), (''accounts'', [''id'', ''phone''])],
     f_db = sample_db\<lparr>t_migration_items := t_migration_items sample_db @
       [(hd (t_migration_items sample_db))\<lparr>i_ordinal := 2, i_state := IS_FAILED\<rparr>]\<rparr>,
     f_unique_fallback = True, f_unique_items = False, f_unique_provenance = False, f_restrictions = False, f_user_version = 0\<rparr>"

theorem initialize_upgrades_witness:
  "\<exists>f'. initialize sample_file = Inr f' \<and> db_wf (f_db f') \<and>
     length (t_migration_items (f_db sample_file)) = 3 \<and> map item_key (t_migration_items (f_db f')) = [(1, 1), (1, 2)]"
proof -
  have "db_wf (sample_db\<lparr>t_migration_items := []\<rparr>)"
    by (rule db_wf_replace(9) [OF sample_db_wf]) (simp add: items_wf_def)
  then have "db_wf (sample_db\<lparr>t_migration_items := [], t_dataset_provenance := []\<rparr>)"
    by (rule db_wf_replace(8)) (simp add: provenance_wf_def)
  then have "legacy_wf (f_db sample_file)"
    by (simp add: legacy_wf_def sample_file_def) (simp add: sample_defs)
  from initialize_upgrades [OF this] obtain f' where f': "initialize sample_file = Inr f'" "db_wf (f_db f')"
    "map item_key (t_migration_items (f_db f')) = map item_key (keep_first item_key (t_migration_items (f_db sample_file)))"
    by blast
  have "map item_key (keep_first item_key (t_migration_items (f_db sample_file))) = [(1, 1), (1, 2)]" by code_simp
  moreover have "length (t_migration_items (f_db sample_file)) = 3" by (simp add: sample_file_def sample_defs)
  ultimately show ?thesis using f' by (intro exI [of _ f']) simp
qed

end
