(* ===== verification/Startup.thy ===== *)
theory Startup
  imports App_Invariant Config Database_Init Recovery
begin

text \<open>
  \<open>bootstrap.py\<close> and \<open>main.py\<close>: what a start of the application does.  The directories, the settings
  and the database are opened, the services are built around them, the writer and the network loop are
  started, and the jobs the last session left running are paused, before the window is shown.
\<close>

section \<open>A start\<close>

text \<open>
  What a start finds on the machine: the files, the time, whether the threads of the writer and of
  the network loop report within their five seconds, and which recovery writes fail or are not done
  within their ten seconds.
\<close>

record machine =
  mc_localappdata :: "string option"
  mc_home :: string
  mc_dirs :: "string list"
  mc_settings :: settings_file
  mc_env_id :: "string option"
  mc_env_hash :: "string option"
  mc_database :: db_file
  mc_session_files :: "string list"
  mc_clock :: clock
  mc_utc :: int
  mc_writer_starts :: bool
  mc_network_starts :: bool
  mc_write_fault :: "int \<Rightarrow> exn option"

text \<open>The hash the client manager is given; only a text is ever sent to Telegram.\<close>

definition hash_text :: "jvalue \<Rightarrow> string option" where
  "hash_text v = (case v of J_text t \<Rightarrow> Some t | _ \<Rightarrow> None)"

definition credentials :: "settings \<Rightarrow> int option \<times> string option" where
  "credentials st = (st_api_id st, hash_text (st_api_hash st))"

text \<open>What the settings file alone holds, for comparison with what a later save writes.\<close>

definition saved_credentials :: "settings_file \<Rightarrow> int option \<times> string option" where
  "saved_credentials f = (case settings_load f None None of Inr st \<Rightarrow> credentials st | Inl _ \<Rightarrow> (None, None))"

definition app_context :: "machine \<Rightarrow> app_paths \<Rightarrow> settings \<Rightarrow> db_file \<Rightarrow> app" where
  "app_context m paths st f =
     \<lparr>ap_net = new_net_state (f_db f) (st_api_id st) (hash_text (st_api_hash st)) 300, ap_state = StateSnapshot,
      ap_executors = [], ap_tasks = [], ap_events = [], ap_next_executor = 0, ap_network_up = False,
      ap_workers_up = True, ap_performance_users = 0, ap_cancelled_scans = [], ap_settings = credentials st,
      ap_saved_settings = saved_credentials (mc_settings m), ap_sessions_dir = pt_sessions paths,
      ap_session_files = mc_session_files m, ap_files = [], ap_clock = mc_clock m, ap_utc = mc_utc m\<rparr>"

definition bootstrap :: "machine \<Rightarrow> app res" where
  "bootstrap m =
     (let paths = fst (discover (mc_localappdata m) (mc_home m) (mc_dirs m)) in
      bindR (settings_load (mc_settings m) (mc_env_id m) (mc_env_hash m)) (\<lambda>st.
      bindR (initialize (mc_database m)) (\<lambda>f.
      Inr (app_context m paths st f))))"

text \<open>\<open>runtime.start()\<close>: the writer, then the network loop.\<close>

definition start_runtime :: "machine \<Rightarrow> app \<Rightarrow> app res" where
  "start_runtime m a =
     (if \<not> mc_writer_starts m then Inl (RuntimeError ''DBWriter failed to start'')
      else if \<not> mc_network_starts m then Inl (RuntimeError ''Network runtime failed to start'')
      else Inr (a\<lparr>ap_network_up := True\<rparr>))"

text \<open>The jobs whose rows the recovery writes, in its order; the first write that fails ends the start.\<close>

definition recovery_writes :: "int \<Rightarrow> db \<Rightarrow> int list" where
  "recovery_writes now d =
     filter (\<lambda>i. case job_get i d of
                   None \<Rightarrow> False
                 | Some r \<Rightarrow> j_state r \<in> {JS_RUNNING, JS_WAITING_SERVER} \<and> \<not> still_waiting now r) (recoverable_jobs d)"

definition recovery_errors :: "machine \<Rightarrow> db \<Rightarrow> exn list" where
  "recovery_errors m d = List.map_filter (mc_write_fault m) (recovery_writes (mc_utc m) d)"

definition start_application :: "machine \<Rightarrow> app res" where
  "start_application m =
     bindR (bootstrap m) (\<lambda>a.
     bindR (start_runtime m a) (\<lambda>a1.
       case recovery_errors m (ap_db a1) of
         e # _ \<Rightarrow> Inl e
       | [] \<Rightarrow>
           (case normalize_after_restart (mc_utc m) (ap_db a1) of
              (Inl e, _) \<Rightarrow> Inl e
            | (Inr _, d) \<Rightarrow> Inr (set_db d a1))))"

section \<open>A start is safe\<close>

lemma completed_jobs: "t_jobs (f_db (completed f)) = t_jobs (f_db f)"
  by (simp add: completed_def create_restrictions_def add_column_def fill_target_state_def
      fill_connection_state_def fill_operation_state_def)

lemma initialize_opens:
  assumes "legacy_wf (f_db f)"
  shows "\<exists>f'. initialize f = Inr f' \<and> db_wf (f_db f') \<and> t_jobs (f_db f') = t_jobs (f_db f)"
proof (intro exI conjI)
  show "initialize f = Inr ((completed f)\<lparr>f_db := (f_db (completed f))
       \<lparr>t_migration_items := keep_first item_key (t_migration_items (f_db (completed f))),
        t_dataset_provenance := keep_first provenance_key (t_dataset_provenance (f_db (completed f)))\<rparr>,
     f_unique_items := True, f_unique_provenance := True, f_user_version := 3\<rparr>)"
    by (rule initialize_effect [OF assms])
qed (simp_all add: completed_jobs legacy_collapse [OF legacy_completed [OF assms]])

lemma start_application_effect:
  assumes "settings_load (mc_settings m) (mc_env_id m) (mc_env_hash m) = Inr st"
    and f: "initialize (mc_database m) = Inr f" and wf: "db_wf (f_db f)"
    and "mc_writer_starts m" "mc_network_starts m" "recovery_errors m (f_db f) = []"
  shows "start_application m =
    Inr (set_db ((f_db f)\<lparr>t_jobs := map (recovered_row (mc_utc m)) (t_jobs (f_db f))\<rparr>)
      ((app_context m (fst (discover (mc_localappdata m) (mc_home m) (mc_dirs m))) st f)\<lparr>ap_network_up := True\<rparr>))"
  using normalize_effect [OF wf, of "mc_utc m"] assms
  by (simp add: start_application_def bootstrap_def start_runtime_def app_context_def new_net_state_def Let_def)

text \<open>The recovery looks at the jobs only, which opening the database leaves as they are.\<close>

lemma recovery_errors_jobs: "t_jobs d' = t_jobs d \<Longrightarrow> recovery_errors m d' = recovery_errors m d"
  by (simp add: recovery_errors_def recovery_writes_def recoverable_jobs_def recoverable_def job_get_def)

lemma start_application_stops:
  assumes "settings_load (mc_settings m) (mc_env_id m) (mc_env_hash m) = Inr st" "initialize (mc_database m) = Inr f"
  shows "\<not> mc_writer_starts m \<Longrightarrow> start_application m = Inl (RuntimeError ''DBWriter failed to start'')"
    and "mc_writer_starts m \<Longrightarrow> \<not> mc_network_starts m \<Longrightarrow>
      start_application m = Inl (RuntimeError ''Network runtime failed to start'')"
    and "mc_writer_starts m \<Longrightarrow> mc_network_starts m \<Longrightarrow> recovery_errors m (f_db f) = e # es \<Longrightarrow> start_application m = Inl e"
  using assms by (simp_all add: start_application_def bootstrap_def start_runtime_def app_context_def new_net_state_def Let_def)

text \<open>
  C5. A start is safe, whatever the last session left behind.  On every database an earlier version
  has written, the start stops only for one of these: settings that cannot be read (before the
  database is touched), a writer or a network loop that does not come up, a recovery write that
  fails or times out; it then raises that error.  Otherwise it succeeds: the database is well formed,
  no migration is running or registered, every interrupted job is paused, and from then on no job
  ever runs twice at a time, whatever commands follow and however their work ends.
\<close>

theorem start_is_safe:
  assumes "legacy_wf (f_db (mc_database m))"
  shows "case settings_load (mc_settings m) (mc_env_id m) (mc_env_hash m) of
      Inl e \<Rightarrow> start_application m = Inl e
    | Inr st \<Rightarrow>
        if \<not> mc_writer_starts m then start_application m = Inl (RuntimeError ''DBWriter failed to start'')
        else if \<not> mc_network_starts m then start_application m = Inl (RuntimeError ''Network runtime failed to start'')
        else (case recovery_errors m (f_db (mc_database m)) of
            e # _ \<Rightarrow> start_application m = Inl e
          | [] \<Rightarrow> \<exists>a. start_application m = Inr a \<and> idle_app a \<and> ap_network_up a \<and> ap_settings a = credentials st \<and>
              db_wf (ap_db a) \<and> t_jobs (ap_db a) = map (recovered_row (mc_utc m)) (t_jobs (f_db (mc_database m))) \<and>
              JS_RUNNING \<notin> j_state ` set (t_jobs (ap_db a)) \<and>
              (\<forall>a'. app_reachable a a' \<longrightarrow> distinct (run_jobs a')))"
proof (cases "settings_load (mc_settings m) (mc_env_id m) (mc_env_hash m)")
  case (Inl e)
  then show ?thesis by (simp add: start_application_def bootstrap_def Let_def)
next
  case (Inr st)
  obtain f where f: "initialize (mc_database m) = Inr f" and wf: "db_wf (f_db f)"
    and jobs: "t_jobs (f_db f) = t_jobs (f_db (mc_database m))" using initialize_opens [OF assms] by blast
  note errors = recovery_errors_jobs [OF jobs, of m]
  show ?thesis
  proof (cases "mc_writer_starts m \<and> mc_network_starts m \<and> recovery_errors m (f_db f) = []")
    case True
    define a where "a = set_db ((f_db f)\<lparr>t_jobs := map (recovered_row (mc_utc m)) (t_jobs (f_db f))\<rparr>)
        ((app_context m (fst (discover (mc_localappdata m) (mc_home m) (mc_dirs m))) st f)\<lparr>ap_network_up := True\<rparr>)"
    have start: "start_application m = Inr a"
      using start_application_effect [OF Inr f wf] True by (simp add: a_def)
    have db: "ap_db a = (f_db f)\<lparr>t_jobs := map (recovered_row (mc_utc m)) (t_jobs (f_db f))\<rparr>"
      by (simp add: a_def set_db_def)
    have idle: "idle_app a" and parts: "ap_network_up a" "ap_settings a = credentials st"
      by (simp_all add: a_def idle_app_def set_db_def app_context_def)
    have "distinct (run_jobs a')" if "app_reachable a a'" for a'
      using app_reachable_runs [OF that idle] by (simp add: runs_ok_def)
    moreover have "JS_RUNNING \<notin> j_state ` set (t_jobs (ap_db a))" by (simp add: db image_image) (metis imageE recovered_not_running)
    ultimately show ?thesis
      using start Inr idle parts db jobs recovered_db_wf [OF wf] True errors by simp
  next
    case False
    then show ?thesis using start_application_stops [OF Inr f] Inr errors by (auto split: list.split)
  qed
qed

definition sample_machine :: machine where
  "sample_machine =
     \<lparr>mc_localappdata = None, mc_home = ''/home/u'', mc_dirs = [], mc_settings = F_absent, mc_env_id = Some ''7'',
      mc_env_hash = Some ''h'', mc_database = sample_file\<lparr>f_db := (f_db sample_file)
        \<lparr>t_jobs := map (\<lambda>r. r\<lparr>j_state := JS_RUNNING\<rparr>) (t_jobs sample_db)\<rparr>\<rparr>,
      mc_session_files = [], mc_clock = \<lparr>clk_kind = RealClock, clk_now = 0\<rparr>, mc_utc = 0,
      mc_writer_starts = True, mc_network_starts = True, mc_write_fault = (\<lambda>_. None)\<rparr>"

lemma sample_machine_legacy: "legacy_wf (f_db (mc_database sample_machine))"
proof -
  let ?d = "sample_db\<lparr>t_jobs := map (\<lambda>r. r\<lparr>j_state := JS_RUNNING\<rparr>) (t_jobs sample_db)\<rparr>"
  have "db_wf ?d" using sample_db_wf by (simp add: db_wf_def jobs_wf_def comp_def image_image)
  from db_wf_legacy [OF this] show ?thesis
    by (simp add: legacy_wf_def sample_machine_def sample_file_def) (simp add: sample_defs)
qed

theorem start_is_safe_witness:
  "\<exists>a. start_application sample_machine = Inr a \<and> map j_state (t_jobs (ap_db a)) = [JS_PAUSED] \<and>
     ap_settings a = (Some 7, Some ''h'')"
proof -
  have st: "settings_load F_absent (Some ''7'') (Some ''h'') =
      Inr \<lparr>st_api_id = Some 7, st_api_hash = J_text ''h'', st_invite_interval_seconds = DEFAULT_INVITE_INTERVAL_SECONDS\<rparr>"
    by code_simp
  have "map j_state (map (recovered_row 0) (t_jobs (f_db (mc_database sample_machine)))) = [JS_PAUSED]"
    by (simp add: sample_machine_def sample_file_def sample_defs recovered_row_def still_waiting_def)
  moreover have "recovery_errors sample_machine (f_db (mc_database sample_machine)) = []"
    by (simp add: recovery_errors_def sample_machine_def List.map_filter_def)
  ultimately show ?thesis using start_is_safe [OF sample_machine_legacy] st
    by (auto simp: sample_machine_def credentials_def hash_text_def)
qed

end
