(* ===== verification/Ui_Models.thy ===== *)
theory Ui_Models
  imports Handlers
begin

text \<open>
  The part of \<open>ui/\<close> that is not Qt: the controllers, which turn a user action into a command of the
  bus, the table models over the repositories, and the filter panel, whose text fields become the
  filter of a plan.  A model index is a row and a column, or invalid; the role is display or not.
\<close>

section \<open>Controllers\<close>

definition ac_update_settings :: "int \<Rightarrow> string \<Rightarrow> app \<Rightarrow> app res" where
  "ac_update_settings api_id api_hash = handle (Settings_update api_id api_hash)"

definition ac_add :: "string \<Rightarrow> app \<Rightarrow> app res" where
  "ac_add phone = handle (Account_add phone)"

definition ac_select :: "int \<Rightarrow> app \<Rightarrow> app res" where
  "ac_select account_id = handle (Account_select account_id)"

definition ac_connect :: "int \<Rightarrow> app \<Rightarrow> app res" where
  "ac_connect account_id = handle (Account_connect account_id)"

definition ac_send_code :: "int \<Rightarrow> app \<Rightarrow> app res" where
  "ac_send_code account_id = handle (Auth_send_code account_id)"

definition ac_sign_in :: "int \<Rightarrow> string \<Rightarrow> string option \<Rightarrow> app \<Rightarrow> app res" where
  "ac_sign_in account_id code password = handle (Auth_sign_in account_id code password)"

definition ac_enable :: "int \<Rightarrow> bool \<Rightarrow> app \<Rightarrow> app res" where
  "ac_enable account_id enabled = handle (Account_enable account_id enabled)"

definition ac_delete :: "int \<Rightarrow> app \<Rightarrow> app res" where
  "ac_delete account_id = handle (Account_delete account_id)"

definition jc_export_results :: "int \<Rightarrow> string \<Rightarrow> app \<Rightarrow> app res" where
  "jc_export_results job_id path = handle (Job_export_results job_id path)"

definition jc_export_log :: "int \<Rightarrow> string \<Rightarrow> app \<Rightarrow> app res" where
  "jc_export_log job_id path = handle (Job_export_log job_id path)"

definition jc_resume_migration :: "int \<Rightarrow> seconds \<Rightarrow> app \<Rightarrow> app res" where
  "jc_resume_migration job_id interval_seconds = handle (Job_resume job_id interval_seconds)"

definition mc_select_dataset :: "int \<Rightarrow> app \<Rightarrow> app res" where
  "mc_select_dataset dataset_id = handle (Dataset_select dataset_id)"

definition mc_combine :: "string \<Rightarrow> int \<Rightarrow> int \<Rightarrow> string \<Rightarrow> app \<Rightarrow> app res" where
  "mc_combine name x y operation = handle (Dataset_combine name x y operation)"

definition mc_export :: "int \<Rightarrow> string \<Rightarrow> int option \<Rightarrow> app \<Rightarrow> app res" where
  "mc_export dataset_id path account_id = handle (Dataset_export dataset_id path account_id)"

definition gc_resolve_target :: "int \<Rightarrow> string \<Rightarrow> app \<Rightarrow> app res" where
  "gc_resolve_target account_id reference = handle (Target_resolve account_id reference)"

definition gc_precheck :: "int \<Rightarrow> app \<Rightarrow> app res" where
  "gc_precheck account_id = handle (Migration_precheck account_id)"

definition gc_plan :: "int \<Rightarrow> int \<Rightarrow> filter_spec option \<Rightarrow> string \<Rightarrow> app \<Rightarrow> app res" where
  "gc_plan account_id source_dataset_id spec action = handle (Migration_plan account_id source_dataset_id spec action)"

definition gc_start :: "int \<Rightarrow> int \<Rightarrow> seconds \<Rightarrow> app \<Rightarrow> app res" where
  "gc_start job_id account_id interval_seconds = handle (Migration_start job_id account_id interval_seconds)"

definition gc_pause :: "int \<Rightarrow> app \<Rightarrow> app res" where
  "gc_pause job_id = handle (Migration_pause job_id)"

definition gc_stop :: "int \<Rightarrow> app \<Rightarrow> app res" where
  "gc_stop job_id = handle (Migration_stop job_id)"

definition gc_resume :: "int \<Rightarrow> seconds \<Rightarrow> app \<Rightarrow> app res" where
  "gc_resume job_id interval_seconds = handle (Migration_resume job_id interval_seconds)"

definition sc_resolve :: "int \<Rightarrow> string \<Rightarrow> app \<Rightarrow> app res" where
  "sc_resolve account_id reference = handle (Source_resolve account_id reference)"

definition sc_joined_groups :: "int \<Rightarrow> app \<Rightarrow> app res" where
  "sc_joined_groups account_id = handle (Source_joined_groups account_id)"

definition sc_select_group :: "int \<Rightarrow> group_context \<Rightarrow> app \<Rightarrow> app res" where
  "sc_select_group account_id g = handle (Source_select_group account_id g)"

definition sc_scan :: "int \<Rightarrow> string \<Rightarrow> app \<Rightarrow> app res" where
  "sc_scan account_id dataset_name = handle (Source_scan account_id dataset_name)"

definition sc_cancel_scan :: "int \<Rightarrow> app \<Rightarrow> app res" where
  "sc_cancel_scan job_id = handle (Source_cancel_scan job_id)"

definition sc_import_file :: "string \<Rightarrow> string \<Rightarrow> int option \<Rightarrow> app \<Rightarrow> app res" where
  "sc_import_file path name account_id = handle (Dataset_import path name account_id)"

section \<open>Table models\<close>

type_synonym model_index = "(nat \<times> nat) option"

fun account_state_str :: "account_state \<Rightarrow> string" where
  "account_state_str AS_DISCONNECTED = ''DISCONNECTED''"
| "account_state_str AS_CONNECTING = ''CONNECTING''"
| "account_state_str AS_AUTH_REQUIRED = ''AUTH_REQUIRED''"
| "account_state_str AS_READY = ''READY''"
| "account_state_str AS_ERROR = ''ERROR''"
| "account_state_str AS_DISABLED = ''DISABLED''"
| "account_state_str AS_BUSY = ''BUSY''"
| "account_state_str AS_WAITING_SERVER = ''WAITING_SERVER''"

fun job_state_str :: "job_state \<Rightarrow> string" where
  "job_state_str JS_READY = ''READY''"
| "job_state_str JS_PREPARING = ''PREPARING''"
| "job_state_str JS_RUNNING = ''RUNNING''"
| "job_state_str JS_WAITING_SERVER = ''WAITING_SERVER''"
| "job_state_str JS_PAUSED = ''PAUSED''"
| "job_state_str JS_RATE_LIMITED = ''RATE_LIMITED''"
| "job_state_str JS_COMPLETED = ''COMPLETED''"
| "job_state_str JS_COMPLETED_WITH_ERRORS = ''COMPLETED_WITH_ERRORS''"
| "job_state_str JS_FAILED = ''FAILED''"
| "job_state_str JS_CANCELLED = ''CANCELLED''"

text \<open>A list access of Python at a natural number.\<close>

definition py_nth :: "'a list \<Rightarrow> nat \<Rightarrow> 'a res" where
  "py_nth xs i = (if i < length xs then Inr (xs ! i) else Inl (ExternalError ''IndexError: list index out of range''))"

definition shown :: "cell \<Rightarrow> string" where
  "shown c = (if c = CNone then '''' else cell_str c)"

text \<open>\<open>headerData\<close>, \<open>rowCount\<close> and \<open>columnCount\<close> are the same in the three models.\<close>

definition header_data :: "string list \<Rightarrow> bool \<Rightarrow> bool \<Rightarrow> nat \<Rightarrow> string option res" where
  "header_data headers display horizontal sec =
     (if display \<and> horizontal then bindR (py_nth headers sec) (\<lambda>h. Inr (Some h)) else Inr None)"

definition row_count :: "bool \<Rightarrow> 'r list \<Rightarrow> nat" where
  "row_count parent_valid rows = (if parent_valid then 0 else length rows)"

definition column_count :: "bool \<Rightarrow> string list \<Rightarrow> nat" where
  "column_count parent_valid headers = (if parent_valid then 0 else length headers)"

definition account_headers :: "string list" where
  "account_headers = [''Phone'', ''Username'', ''Display name'', ''Status'', ''Enabled'']"

definition account_refresh :: "db \<Rightarrow> account list" where
  "account_refresh d = account_list_all d"

definition account_id_at :: "account list \<Rightarrow> int \<Rightarrow> int option" where
  "account_id_at rows row = (if row < 0 \<or> row \<ge> int (length rows) then None else ac_id (rows ! nat row))"

definition account_values :: "account \<Rightarrow> cell list" where
  "account_values ac =
     [CText (ac_phone ac), opt_text (ac_username ac), opt_text (ac_display_name ac),
      CText (account_state_str (ac_status ac)), CText (if ac_enabled ac then ''Yes'' else ''No'')]"

definition account_data :: "account list \<Rightarrow> model_index \<Rightarrow> bool \<Rightarrow> string option res" where
  "account_data rows idx display =
     (case idx of
        None \<Rightarrow> Inr None
      | Some (r, c) \<Rightarrow>
          if \<not> display then Inr None
          else bindR (py_nth rows r) (\<lambda>ac. bindR (py_nth (account_values ac) c) (\<lambda>v. Inr (Some (shown v)))))"

definition job_headers :: "string list" where
  "job_headers = [''ID'', ''Type'', ''State'', ''Progress'', ''Success'', ''Skipped'', ''Failed'']"

definition job_refresh :: "db \<Rightarrow> job_row list" where
  "job_refresh d = job_list_recent 200 d"

definition job_id_at :: "job_row list \<Rightarrow> int \<Rightarrow> int option" where
  "job_id_at rows row = (if row < 0 \<or> row \<ge> int (length rows) then None else Some (j_id (rows ! nat row)))"

definition job_values :: "job_row \<Rightarrow> string list" where
  "job_values row =
     [int_str (j_id row), job_type_str (j_job_type row), job_state_str (j_state row),
      int_str (j_processed row) @ ''/'' @ int_str (j_total row),
      int_str (j_success row), int_str (j_skipped row), int_str (j_failed row)]"

definition job_data :: "job_row list \<Rightarrow> model_index \<Rightarrow> bool \<Rightarrow> string option res" where
  "job_data rows idx display =
     (case idx of
        None \<Rightarrow> Inr None
      | Some (r, c) \<Rightarrow>
          if \<not> display then Inr None
          else bindR (py_nth rows r) (\<lambda>row. bindR (py_nth (job_values row) c) (\<lambda>v. Inr (Some v))))"

definition member_headers :: "string list" where
  "member_headers = [''User ID'', ''Username'', ''First name'', ''Last name'', ''Status'']"

record member_table =
  mt_dataset_id :: "int option"
  mt_page_size :: int
  mt_rows :: "member list"
  mt_total :: int
  mt_offset :: int

definition load_page :: "db \<Rightarrow> int \<Rightarrow> member_table \<Rightarrow> member_table" where
  "load_page d offset t =
     (case page (max 0 offset) (mt_page_size t) (mt_dataset_id t) d of
        (rows, tot) \<Rightarrow> t\<lparr>mt_rows := rows, mt_total := tot, mt_offset := max 0 offset\<rparr>)"

definition MemberTableModel :: "db \<Rightarrow> int option \<Rightarrow> int \<Rightarrow> member_table" where
  "MemberTableModel d dataset_id page_size =
     load_page d 0 \<lparr>mt_dataset_id = dataset_id, mt_page_size = page_size, mt_rows = [], mt_total = 0, mt_offset = 0\<rparr>"

definition set_dataset :: "db \<Rightarrow> int option \<Rightarrow> member_table \<Rightarrow> member_table" where
  "set_dataset d dataset_id t = load_page d 0 (t\<lparr>mt_dataset_id := dataset_id\<rparr>)"

definition next_page :: "db \<Rightarrow> member_table \<Rightarrow> member_table" where
  "next_page d t =
     (if mt_offset t + mt_page_size t < mt_total t then load_page d (mt_offset t + mt_page_size t) t else t)"

definition previous_page :: "db \<Rightarrow> member_table \<Rightarrow> member_table" where
  "previous_page d t = load_page d (max 0 (mt_offset t - mt_page_size t)) t"

definition member_values :: "member \<Rightarrow> cell list" where
  "member_values m =
     [opt_int (mb_telegram_user_id m), opt_text (mb_username m), opt_text (mb_first_name m),
      opt_text (mb_last_name m), opt_text (mb_activity_status m)]"

definition member_data :: "member_table \<Rightarrow> model_index \<Rightarrow> bool \<Rightarrow> string option res" where
  "member_data t idx display =
     (case idx of
        None \<Rightarrow> Inr None
      | Some (r, c) \<Rightarrow>
          if \<not> display then Inr None
          else bindR (py_nth (mt_rows t) r) (\<lambda>m. bindR (py_nth (member_values m) c) (\<lambda>v. Inr (Some (shown v)))))"

section \<open>The filter panel\<close>

definition csv_set :: "string \<Rightarrow> string list" where
  "csv_set value = remdups (filter (\<lambda>p. p \<noteq> []) (map py_strip (py_split CHR '','' value)))"

record filter_panel =
  fp_exclude_bot :: bool
  fp_exclude_deleted :: bool
  fp_username_required :: bool
  fp_activity :: string
  fp_source :: string

definition FilterPanel :: filter_panel where
  "FilterPanel =
     \<lparr>fp_exclude_bot = True, fp_exclude_deleted = True, fp_username_required = False, fp_activity = '''', fp_source = ''''\<rparr>"

definition panel_spec :: "filter_panel \<Rightarrow> filter_spec" where
  "panel_spec p =
     \<lparr>fs_exclude_bot = fp_exclude_bot p, fs_exclude_deleted = fp_exclude_deleted p,
      fs_username_required = fp_username_required p, fs_activity = csv_set (fp_activity p),
      fs_source = csv_set (fp_source p), fs_exclude_processed = [], fs_exclude_target = []\<rparr>"

section \<open>Paging\<close>

text \<open>The tables that opening, turning pages and reading the database again lead to.\<close>

inductive table_reachable :: "db \<Rightarrow> int \<Rightarrow> member_table \<Rightarrow> bool" for d psize where
  opened: "table_reachable d psize (MemberTableModel d dataset_id psize)"
| dataset: "table_reachable d psize t \<Longrightarrow> table_reachable d psize (set_dataset d dataset_id t)"
| next_page: "table_reachable d psize t \<Longrightarrow> table_reachable d psize (next_page d t)"
| previous_page: "table_reachable d psize t \<Longrightarrow> table_reachable d psize (previous_page d t)"

definition table_rows :: "db \<Rightarrow> int option \<Rightarrow> member list" where
  "table_rows d dataset_id =
     map member_from_row (case dataset_id of None \<Rightarrow> sort_key m_id (t_members d) | Some s \<Rightarrow> dataset_member_rows s d)"

definition table_ok :: "db \<Rightarrow> int \<Rightarrow> member_table \<Rightarrow> bool" where
  "table_ok d psize t \<longleftrightarrow>
     mt_page_size t = psize \<and> 0 \<le> mt_offset t \<and> psize dvd mt_offset t \<and>
     (mt_offset t = 0 \<or> mt_offset t < mt_total t) \<and>
     mt_rows t = take (nat psize) (drop (nat (mt_offset t)) (table_rows d (mt_dataset_id t))) \<and>
     mt_total t = snd (page 0 psize (mt_dataset_id t) d)"

lemma load_page_ok:
  assumes "1 \<le> psize" "psize \<le> 1000" "mt_page_size t = psize" "psize dvd off" "0 \<le> off"
    and "off = 0 \<or> off < snd (page 0 psize (mt_dataset_id t) d)"
  shows "table_ok d psize (load_page d off t)"
  using assms
  by (auto simp: load_page_def table_ok_def page_def table_rows_def Let_def take_map drop_map split: prod.splits option.splits)

lemma table_reachable_ok:
  assumes "table_reachable d psize t" "1 \<le> psize" "psize \<le> 1000"
  shows "table_ok d psize t"
  using assms(1)
proof (induction rule: table_reachable.induct)
  case (opened dataset_id)
  show ?case unfolding MemberTableModel_def by (rule load_page_ok) (use assms in simp_all)
next
  case (dataset t dataset_id)
  then show ?case unfolding set_dataset_def by (intro load_page_ok) (use assms in \<open>simp_all add: table_ok_def\<close>)
next
  case (next_page t)
  then have t: "mt_page_size t = psize" "psize dvd mt_offset t + psize" "0 \<le> mt_offset t + psize"
    "mt_total t = snd (page 0 psize (mt_dataset_id t) d)"
    using assms(2) by (auto simp: table_ok_def)
  show ?case
  proof (cases "mt_offset t + psize < mt_total t")
    case True
    then show ?thesis using load_page_ok [OF assms(2,3) t(1-3), of d] t by (simp add: next_page_def)
  qed (simp add: next_page_def t(1) next_page.IH)
next
  case (previous_page t)
  have "psize dvd max 0 (mt_offset t - psize)" using previous_page.IH by (auto simp: table_ok_def max_def)
  moreover have "max 0 (mt_offset t - psize) = 0 \<or> max 0 (mt_offset t - psize) < snd (page 0 psize (mt_dataset_id t) d)"
    using previous_page.IH assms(2) by (auto simp: table_ok_def)
  moreover have "mt_page_size t = psize" using previous_page.IH by (simp add: table_ok_def)
  ultimately show ?case unfolding previous_page_def by (simp add: load_page_ok assms(2,3))
qed

lemma load_page_load [simp]: "load_page d off (load_page d off' t) = load_page d off t"
  by (simp add: load_page_def split: prod.split)

lemma load_page_again:
  assumes "table_ok d psize t" "1 \<le> psize" "psize \<le> 1000"
  shows "load_page d (mt_offset t) t = t"
proof -
  obtain rows tot where p: "page (mt_offset t) psize (mt_dataset_id t) d = (rows, tot)" by fastforce
  have "rows = mt_rows t" "tot = mt_total t"
    using assms p by (auto simp: table_ok_def page_def table_rows_def Let_def take_map drop_map split: option.splits)
  then show ?thesis using assms(1) p by (simp add: load_page_def table_ok_def)
qed

text \<open>
  Turning pages on an unchanged database shows consecutive windows of the dataset, never an empty
  page past its end, and turning back undoes turning forward.
\<close>

theorem member_table_pages:
  assumes "table_reachable d psize t" "1 \<le> psize" "psize \<le> 1000"
  shows "table_ok d psize t" and "mt_offset (next_page d t) \<noteq> mt_offset t \<Longrightarrow> previous_page d (next_page d t) = t"
proof -
  show ok: "table_ok d psize t" by (rule table_reachable_ok [OF assms])
  assume "mt_offset (next_page d t) \<noteq> mt_offset t"
  then have n: "next_page d t = load_page d (mt_offset t + psize) t"
    using ok by (auto simp: next_page_def table_ok_def split: if_splits)
  have "mt_offset (next_page d t) = mt_offset t + psize" "mt_page_size (next_page d t) = psize"
    using ok assms(2) unfolding n by (auto simp: load_page_def table_ok_def split: prod.split)
  then have "previous_page d (next_page d t) = load_page d (mt_offset t) (next_page d t)"
    using ok by (simp add: previous_page_def table_ok_def)
  then show "previous_page d (next_page d t) = t" using load_page_again [OF ok assms(2,3)] by (simp add: n)
qed

section \<open>The filter of the panel\<close>

lemma py_strip_ends: "py_strip s \<noteq> [] \<Longrightarrow> \<not> is_space (hd (py_strip s)) \<and> \<not> is_space (last (py_strip s))"
proof -
  assume ne: "py_strip s \<noteq> []"
  let ?l = "dropWhile is_space s" and ?r = "dropWhile is_space (rev (dropWhile is_space s))"
  have r: "?r \<noteq> []" using ne by (simp add: py_strip_def)
  have "\<not> is_space (hd ?r)" using r by (rule hd_dropWhile)
  moreover have "last (py_strip s) = hd ?r" by (simp add: py_strip_def last_rev)
  moreover obtain pre where "rev ?l = pre @ ?r" using takeWhile_dropWhile_id [of is_space "rev ?l"] by metis
  then have l: "?l = rev ?r @ rev pre" by (metis rev_append rev_rev_ident)
  then have "hd ?l = hd (rev ?r)" using r by (metis hd_append2 rev_is_Nil_conv)
  moreover have "?l \<noteq> []" using l r by (metis Nil_is_append_conv rev_is_Nil_conv)
  then have "\<not> is_space (hd ?l)" by (rule hd_dropWhile)
  ultimately show ?thesis by (simp add: py_strip_def)
qed

text \<open>The labels of a panel carry no outer blanks and none is empty, as the planners expect of a filter.\<close>

lemma panel_labels:
  "list_all (\<lambda>v. v \<noteq> [] \<and> py_strip v = v) (fs_source (panel_spec p))"
  "list_all (\<lambda>v. v \<noteq> [] \<and> py_strip v = v) (fs_activity (panel_spec p))"
proof -
  have "list_all (\<lambda>v. v \<noteq> [] \<and> py_strip v = v) (csv_set t)" for t
    using py_strip_ends py_strip_id by (auto simp: csv_set_def list_all_iff)
  then show "list_all (\<lambda>v. v \<noteq> [] \<and> py_strip v = v) (fs_source (panel_spec p))"
    "list_all (\<lambda>v. v \<noteq> [] \<and> py_strip v = v) (fs_activity (panel_spec p))" by (simp_all add: panel_spec_def)
qed

end
