(* ===== verification/Migration_Page.thy ===== *)
theory Migration_Page
  imports Ui_Models Config Handler_Safety
begin

text \<open>
  \<open>ui/pages/migration_page.py\<close>: the page that checks a target, plans and drives a migration.  A widget
  is its current value (\<open>None\<close> for an empty combo box); the texts of labels are not modelled, the numbers
  they show are.  An operation returns the page and the command it dispatches, if any.
\<close>

section \<open>The page\<close>

record page_state =
  pg_accounts :: "int list"
  pg_account :: "int option"
  pg_datasets :: "int list"
  pg_dataset :: "int option"
  pg_reference :: string
  pg_action :: string
  pg_speed :: seconds
  pg_filters :: filter_panel
  pg_job :: "int option"
  pg_checking :: bool
  pg_check_account :: "int option"
  pg_check_dataset :: "int option"
  pg_waiting_until :: "iso_text option"
  pg_progress :: int
  pg_counters :: job_summary
  pg_next_attempt :: "int option"
  pg_job_state :: string
  pg_boxes :: "string list"

definition show_box :: "string \<Rightarrow> page_state \<Rightarrow> page_state" where
  "show_box t p = p\<lparr>pg_boxes := pg_boxes p @ [t]\<rparr>"

text \<open>Clearing and filling a combo box selects its first entry; the old one is selected again if it is there.\<close>

definition reselect :: "int option \<Rightarrow> int list \<Rightarrow> int option" where
  "reselect old ids =
     (case old of
        Some x \<Rightarrow> if x \<in> set ids then Some x else (case ids of [] \<Rightarrow> None | y # _ \<Rightarrow> Some y)
      | None \<Rightarrow> (case ids of [] \<Rightarrow> None | y # _ \<Rightarrow> Some y))"

definition refresh_sources :: "db \<Rightarrow> page_state \<Rightarrow> page_state" where
  "refresh_sources d p =
     (let accounts = List.map_filter (\<lambda>x. if ac_enabled x then ac_id x else None) (account_list_all d);
          datasets = List.map_filter ds_id (dataset_list_all d)
      in p\<lparr>pg_accounts := accounts, pg_account := reselect (pg_account p) accounts,
           pg_datasets := datasets, pg_dataset := reselect (pg_dataset p) datasets\<rparr>)"

definition SPEEDS :: "seconds list" where
  "SPEEDS = [3, 5, 8]"

definition ACTIONS :: "string list" where
  "ACTIONS = [''INVITE'', ''REMOVE'']"

definition MigrationPage :: "db \<Rightarrow> page_state" where
  "MigrationPage d = refresh_sources d
     \<lparr>pg_accounts = [], pg_account = None, pg_datasets = [], pg_dataset = None, pg_reference = '''',
      pg_action = ''INVITE'', pg_speed = 5, pg_filters = FilterPanel, pg_job = None, pg_checking = False,
      pg_check_account = None, pg_check_dataset = None, pg_waiting_until = None, pg_progress = 0,
      pg_counters = \<lparr>sm_total = 0, sm_processed = 0, sm_success = 0, sm_skipped = 0, sm_failed = 0\<rparr>,
      pg_next_attempt = None, pg_job_state = '''', pg_boxes = []\<rparr>"

definition pg_check :: "page_state \<Rightarrow> page_state \<times> command option" where
  "pg_check p =
     (let ref = py_strip (pg_reference p) in
      case (pg_account p, pg_dataset p) of
        (Some account, Some dataset) \<Rightarrow>
          if ref = [] then (show_box ''check'' p, None)
          else (p\<lparr>pg_checking := True, pg_check_account := Some account, pg_check_dataset := Some dataset,
                  pg_job := None\<rparr>, Some (Target_resolve account ref))
      | _ \<Rightarrow> (show_box ''check'' p, None))"

definition pg_start :: "page_state \<Rightarrow> page_state \<times> command option" where
  "pg_start p =
     (case (pg_job p, pg_account p) of
        (Some j, Some account) \<Rightarrow> (p, Some (Migration_start j account (pg_speed p)))
      | _ \<Rightarrow> (show_box ''start'' p, None))"

definition pg_pause :: "page_state \<Rightarrow> page_state \<times> command option" where
  "pg_pause p = (p, map_option Migration_pause (pg_job p))"

definition pg_resume :: "page_state \<Rightarrow> page_state \<times> command option" where
  "pg_resume p = (p, map_option (\<lambda>j. Migration_resume j (pg_speed p)) (pg_job p))"

definition pg_stop :: "page_state \<Rightarrow> page_state \<times> command option" where
  "pg_stop p = (p, map_option Migration_stop (pg_job p))"

definition refresh_counters :: "db \<Rightarrow> int \<Rightarrow> page_state \<Rightarrow> page_state" where
  "refresh_counters d j p =
     (let s = summary j d
      in p\<lparr>pg_progress := sm_processed s * 100 div max 1 (sm_total s), pg_counters := s\<rparr>)"

definition pg_tick :: "int \<Rightarrow> page_state \<Rightarrow> page_state" where
  "pg_tick now p =
     (let show_left = (\<lambda>t. let left = max 0 ((t - now) div 1000000) in
            p\<lparr>pg_next_attempt := Some left, pg_waiting_until := (if left \<le> 0 then None else pg_waiting_until p)\<rparr>)
      in case pg_waiting_until p of
           None \<Rightarrow> p
         | Some (IsoUtc t) \<Rightarrow> show_left t
         | Some (IsoNaive t) \<Rightarrow> show_left t
         | Some NotIso \<Rightarrow> p\<lparr>pg_waiting_until := None\<rparr>)"

text \<open>The events the page reacts to; all others are \<open>PE_other\<close>.\<close>

datatype (plugins only: code size) page_event =
    PE_sources_changed
  | PE_target_resolved group_context
  | PE_precheck_completed
  | PE_plan_ready int
  | PE_job_state "int option" string "iso_text option"
  | PE_item_completed "int option"
  | PE_other

definition pg_handle_event :: "db \<Rightarrow> page_event \<Rightarrow> page_state \<Rightarrow> page_state \<times> command option" where
  "pg_handle_event d e p =
     (case e of
        PE_sources_changed \<Rightarrow> (refresh_sources d p, None)
      | PE_target_resolved g \<Rightarrow>
          if pg_checking p then (p, map_option Migration_precheck (pg_check_account p)) else (p, None)
      | PE_precheck_completed \<Rightarrow>
          (case (pg_checking p, pg_check_account p, pg_check_dataset p) of
             (True, Some account, Some dataset) \<Rightarrow>
               (p, Some (Migration_plan account dataset (Some (panel_spec (pg_filters p))) (pg_action p)))
           | _ \<Rightarrow> (p, None))
      | PE_plan_ready j \<Rightarrow> (refresh_counters d j (p\<lparr>pg_checking := False, pg_job := Some j\<rparr>), None)
      | PE_job_state jid state waiting \<Rightarrow>
          (case jid of
             None \<Rightarrow> (p, None)
           | Some j \<Rightarrow>
               if pg_job p = None \<or> pg_job p = Some j
               then (refresh_counters d j (p\<lparr>pg_job := Some j, pg_job_state := state, pg_waiting_until := waiting\<rparr>), None)
               else (p, None))
      | PE_item_completed jid \<Rightarrow>
          (case jid of None \<Rightarrow> (p, None) | Some j \<Rightarrow> (refresh_counters d j (p\<lparr>pg_job := Some j\<rparr>), None))
      | PE_other \<Rightarrow> (p, None))"

text \<open>\<open>_safe\<close>: a command that raises shows a box and changes nothing.\<close>

definition pg_safe :: "page_state \<times> command option \<Rightarrow> app \<Rightarrow> page_state \<times> app" where
  "pg_safe r a =
     (case r of
        (p, None) \<Rightarrow> (p, a)
      | (p, Some c) \<Rightarrow> (case handle c a of Inr a' \<Rightarrow> (p, a') | Inl e \<Rightarrow> (show_box (exn_text e) p, a)))"

section \<open>Histories of a page\<close>

text \<open>What happened at the page: an event it heard, a check of an account and a dataset, a command it sent.\<close>

datatype (plugins only: code size) page_act =
    Heard page_event
  | Checked int int
  | Sent command

definition sent :: "command option \<Rightarrow> page_act list" where
  "sent c = (case c of None \<Rightarrow> [] | Some x \<Rightarrow> [Sent x])"

text \<open>
  The user edits the widgets and clicks the buttons, events arrive, the timer ticks, and the application
  changes on its own, in any order.
\<close>

inductive page_run :: "page_state \<times> app \<Rightarrow> page_act list \<Rightarrow> bool" where
  opened: "page_run (MigrationPage (ap_db a), a) []"
| check: "page_run (p, a) h \<Longrightarrow> pg_account p = Some x \<Longrightarrow> pg_dataset p = Some y \<Longrightarrow> pg_check p = (p', Some c) \<Longrightarrow>
    page_run (pg_safe (p', Some c) a) (h @ [Checked x y, Sent c])"
| no_check: "page_run (p, a) h \<Longrightarrow> pg_check p = (p', None) \<Longrightarrow> page_run (p', a) h"
| click: "page_run (p, a) h \<Longrightarrow> r \<in> {pg_start p, pg_pause p, pg_resume p, pg_stop p} \<Longrightarrow>
    page_run (pg_safe r a) (h @ sent (snd r))"
| event: "page_run (p, a) h \<Longrightarrow> r = pg_handle_event (ap_db a) e p \<Longrightarrow> page_run (pg_safe r a) (h @ Heard e # sent (snd r))"
| refresh: "page_run (p, a) h \<Longrightarrow> page_run (refresh_sources (ap_db a) p, a) h"
| tick: "page_run (p, a) h \<Longrightarrow> page_run (pg_tick now p, a) h"
| select: "page_run (p, a) h \<Longrightarrow> x \<in> Some ` set (pg_accounts p) \<Longrightarrow> page_run (p\<lparr>pg_account := x\<rparr>, a) h"
| choose: "page_run (p, a) h \<Longrightarrow> y \<in> Some ` set (pg_datasets p) \<Longrightarrow> page_run (p\<lparr>pg_dataset := y\<rparr>, a) h"
| edit: "page_run (p, a) h \<Longrightarrow> action \<in> set ACTIONS \<Longrightarrow> speed \<in> set SPEEDS \<Longrightarrow>
    page_run (p\<lparr>pg_reference := ref, pg_action := action, pg_speed := speed, pg_filters := fp\<rparr>, a) h"
| elsewhere: "page_run (p, a) h \<Longrightarrow> page_run (p, a') h"

fun checked :: "page_act list \<Rightarrow> (int \<times> int) option" where
  "checked [] = None"
| "checked (x # xs) =
     (case checked xs of Some r \<Rightarrow> Some r | None \<Rightarrow> (case x of Checked acc ds \<Rightarrow> Some (acc, ds) | _ \<Rightarrow> None))"

fun announces :: "page_act \<Rightarrow> int option" where
  "announces (Heard (PE_plan_ready j)) = Some j"
| "announces (Heard (PE_job_state jid _ _)) = jid"
| "announces (Heard (PE_item_completed jid)) = jid"
| "announces _ = None"

definition announced :: "int \<Rightarrow> page_act list \<Rightarrow> bool" where
  "announced j h \<longleftrightarrow> Some j \<in> announces ` set h"

text \<open>When a page may send a command, by what happened before.\<close>

fun legal_command :: "page_act list \<Rightarrow> command \<Rightarrow> bool" where
  "legal_command h (Target_resolve acc ref) = (map_option fst (checked h) = Some acc \<and> ref \<noteq> [])"
| "legal_command h (Migration_precheck acc) = (map_option fst (checked h) = Some acc)"
| "legal_command h (Migration_plan acc ds spec action) = (checked h = Some (acc, ds) \<and> spec \<noteq> None \<and> action \<in> set ACTIONS)"
| "legal_command h (Migration_start j acc t) = (announced j h \<and> interval_ok t)"
| "legal_command h (Migration_resume j t) = (announced j h \<and> interval_ok t)"
| "legal_command h (Migration_pause j) = announced j h"
| "legal_command h (Migration_stop j) = announced j h"
| "legal_command h _ = False"

fun legal_history :: "page_act list \<Rightarrow> page_act list \<Rightarrow> bool" where
  "legal_history past [] = True"
| "legal_history past (x # xs) =
     ((case x of Sent c \<Rightarrow> legal_command past c | _ \<Rightarrow> True) \<and> legal_history (past @ [x]) xs)"

lemma legal_history_append:
  "legal_history past (xs @ ys) = (legal_history past xs \<and> legal_history (past @ xs) ys)"
  by (induction xs arbitrary: past) auto

lemma checked_append: "checked (xs @ ys) = (case checked ys of Some r \<Rightarrow> Some r | None \<Rightarrow> checked xs)"
  by (induction xs) (auto split: option.split)

lemma checked_quiet [simp]: "checked [Heard e] = None" "checked (Heard e # sent c) = None" "checked (sent c) = None"
  "checked [Checked x y, Sent k] = Some (x, y)"
  by (simp_all add: sent_def split: option.split)

lemma announced_append [simp]: "announced j (xs @ ys) \<longleftrightarrow> announced j xs \<or> announced j ys"
  by (auto simp: announced_def)

text \<open>The invariant of a page and its history.\<close>

definition page_inv :: "page_state \<Rightarrow> page_act list \<Rightarrow> bool" where
  "page_inv p h \<longleftrightarrow>
     pg_action p \<in> set ACTIONS \<and> pg_speed p \<in> set SPEEDS \<and> (\<forall>j. pg_job p = Some j \<longrightarrow> announced j h) \<and>
     (pg_checking p \<longrightarrow> (\<exists>x y. checked h = Some (x, y) \<and> pg_check_account p = Some x \<and> pg_check_dataset p = Some y))"

lemma page_inv_safe [simp]: "page_inv (fst (pg_safe r a)) h = page_inv (fst r) h"
  by (auto simp: pg_safe_def show_box_def page_inv_def split: prod.split option.split sum.split)

lemma page_inv_frame [simp]:
  "page_inv (refresh_sources d p) h = page_inv p h" "page_inv (refresh_counters d j p) h = page_inv p h"
  "page_inv (pg_tick now p) h = page_inv p h" "page_inv (show_box t p) h = page_inv p h"
  "page_inv (p\<lparr>pg_account := x\<rparr>) h = page_inv p h" "page_inv (p\<lparr>pg_dataset := x\<rparr>) h = page_inv p h"
  by (simp_all add: page_inv_def refresh_sources_def refresh_counters_def pg_tick_def show_box_def Let_def
      split: option.split iso_text.split)

lemma page_inv_more:
  assumes "page_inv p h" "checked h' = None"
  shows "page_inv p (h @ h')"
  using assms by (auto simp: page_inv_def checked_append)

lemma speeds_ok: "t \<in> set SPEEDS \<Longrightarrow> interval_ok t"
  by (auto simp: SPEEDS_def interval_ok_def interval_constants)

lemma check_legal:
  assumes "page_inv p h" "pg_check p = (p', Some c)" "pg_account p = Some x" "pg_dataset p = Some y"
  shows "page_inv p' (h @ [Checked x y, Sent c]) \<and> legal_command (h @ [Checked x y]) c"
  using assms by (auto simp: pg_check_def page_inv_def checked_append Let_def split: if_splits)

lemma click_legal:
  assumes "page_inv p h" "r \<in> {pg_start p, pg_pause p, pg_resume p, pg_stop p}"
  shows "page_inv (fst r) (h @ sent (snd r)) \<and> legal_history h (sent (snd r))"
proof -
  have "page_inv (fst r) h"
    using assms by (auto simp: pg_start_def pg_pause_def pg_resume_def pg_stop_def split: option.split)
  moreover have "legal_history h (sent (snd r))"
    using assms
    by (auto simp: pg_start_def pg_pause_def pg_resume_def pg_stop_def sent_def page_inv_def speeds_ok split: option.splits)
  ultimately show ?thesis by (simp add: page_inv_more)
qed

lemma event_legal:
  assumes "page_inv p h" "r = pg_handle_event d e p"
  shows "page_inv (fst r) (h @ Heard e # sent (snd r)) \<and> legal_history h (Heard e # sent (snd r))"
proof -
  have "legal_history h (Heard e # sent (snd r))"
    using assms
    by (auto simp: pg_handle_event_def sent_def page_inv_def checked_append split: page_event.splits option.splits bool.splits)
  moreover have "page_inv (fst r) (h @ [Heard e])"
    using page_inv_more [OF assms(1), of "[Heard e]"] assms(2)
    by (auto simp: pg_handle_event_def split: page_event.splits option.splits bool.splits)
       (auto simp: page_inv_def announced_def split: option.splits)
  ultimately show ?thesis using page_inv_more [of "fst r" "h @ [Heard e]" "sent (snd r)"] by simp
qed

lemma page_run_legal: "page_run pa h \<Longrightarrow> page_inv (fst pa) h \<and> legal_history [] h"
proof (induction rule: page_run.induct)
  case (opened a)
  show ?case by (simp add: MigrationPage_def) (simp add: page_inv_def ACTIONS_def SPEEDS_def)
next
  case (check p a h x y p' c)
  then show ?case using check_legal [of p h p' c x y] by (simp add: legal_history_append)
next
  case (no_check p a h p')
  then show ?case by (auto simp: pg_check_def Let_def split: option.splits if_splits)
next
  case (click p a h r)
  then show ?case using click_legal [of p h r] by (simp add: legal_history_append)
next
  case (event p a h r e)
  then show ?case using event_legal [of p h r "ap_db a" e] by (simp add: legal_history_append)
next
  case (edit p a h action speed ref fp)
  then show ?case by (simp add: page_inv_def)
qed simp_all

text \<open>
  C40. The migration page only sends commands that fit what happened before, whatever the user clicks and
  edits, in whatever order events arrive and whichever commands fail.  A precheck and a plan are for the
  account, and the plan for the dataset, of the last check, never for what is selected meanwhile; a job is
  started, paused, resumed or stopped only after an event announced it; an interval is one the scheduler
  accepts; and the page sends no other command.
\<close>

theorem page_commands_legal:
  assumes "page_run (p, a) h"
  shows "legal_history [] h"
  using page_run_legal [OF assms] by simp

text \<open>A check of the sample account and dataset, followed by a plan once the precheck is there.\<close>

lemma pg_safe_keeps:
  assumes "pg_safe (p, c) a = (p', a')"
  shows "pg_checking p' = pg_checking p" "pg_check_account p' = pg_check_account p"
    "pg_check_dataset p' = pg_check_dataset p" "pg_action p' = pg_action p" "pg_filters p' = pg_filters p"
  using assms by (auto simp: pg_safe_def show_box_def split: option.splits sum.splits)

theorem page_commands_legal_witness:
  "\<exists>pa. page_run pa [Checked 1 1, Sent (Target_resolve 1 ''team''), Heard PE_precheck_completed,
       Sent (Migration_plan 1 1 (Some (panel_spec FilterPanel)) ''REMOVE'')] \<and>
     legal_history [] [Checked 1 1, Sent (Target_resolve 1 ''team''), Heard PE_precheck_completed,
       Sent (Migration_plan 1 1 (Some (panel_spec FilterPanel)) ''REMOVE'')]"
proof -
  define p where "p = (MigrationPage (ap_db sample_app))
    \<lparr>pg_reference := ''team'', pg_action := ''REMOVE'', pg_speed := 3, pg_filters := FilterPanel\<rparr>"
  have run: "page_run (p, sample_app) []"
    unfolding p_def by (rule page_run.edit [OF page_run.opened]) (simp_all add: ACTIONS_def SPEEDS_def)
  have acc: "pg_account (MigrationPage (ap_db sample_app)) = Some 1" "pg_dataset (MigrationPage (ap_db sample_app)) = Some 1"
    by code_simp+
  have strip: "py_strip ''team'' = ''team''" by code_simp
  define q where "q = p\<lparr>pg_checking := True, pg_check_account := Some 1, pg_check_dataset := Some 1, pg_job := None\<rparr>"
  have "pg_check p = (q, Some (Target_resolve 1 ''team''))"
    unfolding pg_check_def q_def by (simp add: p_def acc strip Let_def)
  from page_run.check [OF run _ _ this, of 1 1]
  have one: "page_run (pg_safe (q, Some (Target_resolve 1 ''team'')) sample_app) [Checked 1 1, Sent (Target_resolve 1 ''team'')]"
    by (simp add: p_def acc)
  obtain p1 a1 where s: "pg_safe (q, Some (Target_resolve 1 ''team'')) sample_app = (p1, a1)" by fastforce
  have "pg_handle_event (ap_db a1) PE_precheck_completed p1 =
      (p1, Some (Migration_plan 1 1 (Some (panel_spec FilterPanel)) ''REMOVE''))"
    using pg_safe_keeps [OF s] by (simp add: pg_handle_event_def q_def p_def)
  with page_run.event [OF one [unfolded s] refl, of PE_precheck_completed]
  obtain p2 a2 where "page_run (p2, a2) [Checked 1 1, Sent (Target_resolve 1 ''team''), Heard PE_precheck_completed,
       Sent (Migration_plan 1 1 (Some (panel_spec FilterPanel)) ''REMOVE'')]"
    by (metis append_Cons append_Nil option.case(2) sent_def snd_conv surj_pair)
  then show ?thesis using page_commands_legal by blast
qed

end
