(* ===== verification/Pages.thy ===== *)
theory Pages
  imports Migration_Page
begin

text \<open>
  The other pages of \<open>ui/pages\<close>: accounts, source, members, jobs and tools.  As for the migration page, a
  widget is its current value, the answers of dialogs are arguments (\<open>None\<close> for a dismissed one), and an
  operation returns the command it dispatches; labels are not modelled.  Resetting a table model
  clears the selection of its view.
\<close>

section \<open>Accounts page\<close>

record accounts_page =
  vp_rows :: "account list"
  vp_index :: "nat option"
  vp_phone :: string

definition selected_account :: "accounts_page \<Rightarrow> account option" where
  "selected_account p =
     (case vp_index p of None \<Rightarrow> None | Some row \<Rightarrow> if length (vp_rows p) \<le> row then None else Some (vp_rows p ! row))"

definition with_account :: "accounts_page \<Rightarrow> (account \<Rightarrow> int \<Rightarrow> command) \<Rightarrow> command option" where
  "with_account p f = (case selected_account p of None \<Rightarrow> None | Some x \<Rightarrow> map_option (f x) (ac_id x))"

definition vp_add :: "accounts_page \<Rightarrow> command option" where
  "vp_add p = (let phone = py_strip (vp_phone p) in if phone = [] then None else Some (Account_add phone))"

definition vp_api_settings :: "int option \<Rightarrow> string option \<Rightarrow> command option" where
  "vp_api_settings id_answer hash_answer =
     (case (id_answer, hash_answer) of (Some i, Some t) \<Rightarrow> Some (Settings_update i t) | _ \<Rightarrow> None)"

definition vp_select :: "accounts_page \<Rightarrow> command option" where
  "vp_select p = with_account p (\<lambda>_. Account_select)"

definition vp_connect :: "accounts_page \<Rightarrow> command option" where
  "vp_connect p = with_account p (\<lambda>_. Account_connect)"

definition vp_send_otp :: "accounts_page \<Rightarrow> command option" where
  "vp_send_otp p = with_account p (\<lambda>_. Auth_send_code)"

definition vp_sign_in :: "string option \<Rightarrow> string \<Rightarrow> accounts_page \<Rightarrow> command option" where
  "vp_sign_in code_answer password p =
     (case code_answer of
        None \<Rightarrow> None
      | Some code \<Rightarrow>
          if py_strip code = [] then None
          else with_account p (\<lambda>_ i. Auth_sign_in i (py_strip code) (if password = [] then None else Some password)))"

definition vp_toggle :: "accounts_page \<Rightarrow> command option" where
  "vp_toggle p = with_account p (\<lambda>x i. Account_enable i (\<not> ac_enabled x))"

definition vp_delete :: "bool \<Rightarrow> accounts_page \<Rightarrow> command option" where
  "vp_delete yes p = (if yes then with_account p (\<lambda>_. Account_delete) else None)"

definition vp_handle_event :: "db \<Rightarrow> string \<Rightarrow> accounts_page \<Rightarrow> accounts_page" where
  "vp_handle_event d name p =
     (if name \<in> {''AccountsChanged'', ''AccountConnected'', ''AccountAuthenticated'', ''AccountStateChanged''}
      then p\<lparr>vp_rows := account_refresh d, vp_index := None, vp_phone := []\<rparr> else p)"

section \<open>Source page\<close>

record source_page =
  sp_accounts :: "int list"
  sp_account :: "int option"
  sp_reference :: string
  sp_dataset_name :: string
  sp_scan_job :: "int option"
  sp_joined_groups :: "group_context list"
  sp_joined_account :: "int option"
  sp_joined_index :: "nat option"

definition sp_refresh_accounts :: "db \<Rightarrow> source_page \<Rightarrow> source_page" where
  "sp_refresh_accounts d p =
     (let accounts = List.map_filter (\<lambda>x. if ac_enabled x then ac_id x else None) (account_list_all d)
      in p\<lparr>sp_accounts := accounts, sp_account := reselect (sp_account p) accounts\<rparr>)"

definition SourcePage :: "db \<Rightarrow> source_page" where
  "SourcePage d = sp_refresh_accounts d
     \<lparr>sp_accounts = [], sp_account = None, sp_reference = [], sp_dataset_name = [], sp_scan_job = None,
      sp_joined_groups = [], sp_joined_account = None, sp_joined_index = None\<rparr>"

definition sp_resolve :: "source_page \<Rightarrow> command option" where
  "sp_resolve p =
     (let reference = py_strip (sp_reference p) in
      case sp_account p of
        None \<Rightarrow> None
      | Some i \<Rightarrow> if reference = [] then None else Some (Source_resolve i reference))"

definition sp_load_joined :: "source_page \<Rightarrow> command option" where
  "sp_load_joined p = map_option Source_joined_groups (sp_account p)"

definition sp_select_joined :: "source_page \<Rightarrow> command option" where
  "sp_select_joined p =
     (case (sp_account p, sp_joined_index p) of
        (Some i, Some index) \<Rightarrow>
          if length (sp_joined_groups p) \<le> index then None
          else if sp_joined_account p \<noteq> Some i then None
          else Some (Source_select_group i (sp_joined_groups p ! index))
      | _ \<Rightarrow> None)"

definition sp_scan :: "source_page \<Rightarrow> command option" where
  "sp_scan p = map_option (\<lambda>i. Source_scan i (py_strip (sp_dataset_name p))) (sp_account p)"

definition sp_cancel :: "source_page \<Rightarrow> command option" where
  "sp_cancel p = map_option Source_cancel_scan (sp_scan_job p)"

definition sp_import :: "string \<Rightarrow> source_page \<Rightarrow> command option" where
  "sp_import path p =
     (if path = [] then None
      else let name = py_strip (sp_dataset_name p) in
        Some (Dataset_import path (if name = [] then path_stem path else name) (sp_account p)))"

datatype (plugins only: code size) source_event =
    SE_accounts_changed
  | SE_group_resolved group_context
  | SE_joined_loaded int "group_context list"
  | SE_scan_started int
  | SE_scan_completed
  | SE_other

definition sp_handle_event :: "db \<Rightarrow> source_event \<Rightarrow> source_page \<Rightarrow> source_page" where
  "sp_handle_event d e p =
     (case e of
        SE_accounts_changed \<Rightarrow> sp_refresh_accounts d p
      | SE_group_resolved g \<Rightarrow> if py_strip (sp_dataset_name p) = [] then p\<lparr>sp_dataset_name := gc_title g\<rparr> else p
      | SE_joined_loaded i gs \<Rightarrow>
          p\<lparr>sp_joined_groups := gs, sp_joined_account := Some i, sp_joined_index := (if gs = [] then None else Some 0)\<rparr>
      | SE_scan_started j \<Rightarrow> p\<lparr>sp_scan_job := Some j\<rparr>
      | SE_scan_completed \<Rightarrow> p\<lparr>sp_scan_job := None\<rparr>
      | SE_other \<Rightarrow> p)"

section \<open>Members page\<close>

record members_page =
  mp_table :: member_table
  mp_datasets :: "int list"
  mp_dataset :: "int option"
  mp_a :: "int option"
  mp_b :: "int option"
  mp_operation :: string
  mp_name :: string

definition mp_dataset_changed :: "db \<Rightarrow> members_page \<Rightarrow> members_page \<times> command list" where
  "mp_dataset_changed d p =
     (p\<lparr>mp_table := set_dataset d (mp_dataset p) (mp_table p)\<rparr>,
      case mp_dataset p of None \<Rightarrow> [] | Some i \<Rightarrow> [Dataset_select i])"

text \<open>Selecting the old dataset again, when it is not the first one, signals a change of its own.\<close>

definition mp_refresh_datasets :: "db \<Rightarrow> members_page \<Rightarrow> members_page \<times> command list" where
  "mp_refresh_datasets d p =
     (let ids = List.map_filter ds_id (dataset_list_all d);
          q = p\<lparr>mp_datasets := ids, mp_dataset := reselect (mp_dataset p) ids,
                mp_a := reselect None ids, mp_b := reselect None ids\<rparr>;
          (q1, cs) = (if mp_dataset q = reselect None ids then (q, []) else mp_dataset_changed d q);
          (q2, cs') = mp_dataset_changed d q1
      in (q2, cs @ cs'))"

text \<open>The range \<open>start-end / total\<close> of the label; \<open>None\<close> when there are no rows.\<close>

definition mp_range :: "members_page \<Rightarrow> (int \<times> int \<times> int) option" where
  "mp_range p =
     (let t = mp_table p in
      if mt_total t = 0 then None
      else Some (mt_offset t + 1, min (mt_offset t + int (length (mt_rows t))) (mt_total t), mt_total t))"

definition mp_previous :: "db \<Rightarrow> members_page \<Rightarrow> members_page" where
  "mp_previous d p = p\<lparr>mp_table := previous_page d (mp_table p)\<rparr>"

definition mp_next :: "db \<Rightarrow> members_page \<Rightarrow> members_page" where
  "mp_next d p = p\<lparr>mp_table := next_page d (mp_table p)\<rparr>"

definition mp_combine :: "members_page \<Rightarrow> command option" where
  "mp_combine p =
     (case (mp_a p, mp_b p) of
        (Some x, Some y) \<Rightarrow>
          let name = py_strip (mp_name p) in
          Some (Dataset_combine (if name = [] then mp_operation p @ '' result'' else name) x y (mp_operation p))
      | _ \<Rightarrow> None)"

text \<open>The path of a save dialog with its filter: a missing suffix is added.\<close>

definition with_suffix :: "string \<Rightarrow> string \<Rightarrow> string" where
  "with_suffix extra path =
     (if suffix ''.xlsx'' (py_lower path) \<or> suffix ''.csv'' (py_lower path) then path else path @ extra)"

definition mp_export :: "string \<Rightarrow> string \<Rightarrow> int option \<Rightarrow> members_page \<Rightarrow> command option" where
  "mp_export path selected_filter active p =
     (case mp_dataset p of
        None \<Rightarrow> None
      | Some i \<Rightarrow>
          if path = [] then None
          else Some (Dataset_export i (with_suffix (if sublist ''CSV'' selected_filter then ''.csv'' else ''.xlsx'') path) active))"

definition mp_handle_event :: "db \<Rightarrow> string \<Rightarrow> members_page \<Rightarrow> members_page \<times> command list" where
  "mp_handle_event d name p =
     (if name \<in> {''DatasetCreated'', ''ImportCompleted'', ''MemberScanCompleted'', ''ExportCompleted''}
      then mp_refresh_datasets d p else (p, []))"

section \<open>Jobs page\<close>

record jobs_page =
  jp_rows :: "job_row list"
  jp_index :: "nat option"
  jp_interval :: seconds

definition selected_job_id :: "jobs_page \<Rightarrow> int option" where
  "selected_job_id p = (case jp_index p of None \<Rightarrow> None | Some row \<Rightarrow> job_id_at (jp_rows p) (int row))"

text \<open>No repository has the method \<open>event_rows\<close> that the log of a selected job is read with.\<close>

definition jp_load_log :: "jobs_page \<Rightarrow> string list res" where
  "jp_load_log p =
     (case selected_job_id p of
        None \<Rightarrow> Inr []
      | Some j \<Rightarrow> Inl (ExternalError ''AttributeError: event_rows''))"

definition jp_refresh :: "db \<Rightarrow> jobs_page \<Rightarrow> jobs_page \<times> string list res" where
  "jp_refresh d p = (let q = p\<lparr>jp_rows := job_refresh d, jp_index := None\<rparr> in (q, jp_load_log q))"

definition jp_export :: "string \<Rightarrow> string \<Rightarrow> jobs_page \<Rightarrow> command option" where
  "jp_export path selected_filter p =
     (case selected_job_id p of
        None \<Rightarrow> None
      | Some j \<Rightarrow>
          if path = [] then None
          else Some (Job_export_results j (with_suffix (if sublist ''CSV'' selected_filter then ''.csv'' else ''.xlsx'') path)))"

definition jp_export_log :: "string \<Rightarrow> string \<Rightarrow> jobs_page \<Rightarrow> command option" where
  "jp_export_log path selected_filter p =
     (case selected_job_id p of
        None \<Rightarrow> None
      | Some j \<Rightarrow>
          if path = [] then None
          else Some (Job_export_log j (with_suffix (if sublist ''Excel'' selected_filter then ''.xlsx'' else ''.csv'') path)))"

definition jp_resume :: "jobs_page \<Rightarrow> command option" where
  "jp_resume p = map_option (\<lambda>j. Job_resume j (jp_interval p)) (selected_job_id p)"

section \<open>Tools page\<close>

definition tp_dispatch :: "(int \<Rightarrow> string \<Rightarrow> command) \<Rightarrow> int option \<Rightarrow> string \<Rightarrow> command option" where
  "tp_dispatch command account_id group_text =
     (let reference = py_strip group_text in
      case account_id of None \<Rightarrow> None | Some i \<Rightarrow> if reference = [] then None else Some (command i reference))"

definition tp_join :: "int option \<Rightarrow> string \<Rightarrow> command option" where
  "tp_join = tp_dispatch Utility_join"

definition tp_leave :: "int option \<Rightarrow> string \<Rightarrow> command option" where
  "tp_leave = tp_dispatch Utility_leave"

section \<open>What the pages guarantee\<close>

text \<open>
  The user edits the source page and events arrive, in any order; the history is the list of events.
\<close>

inductive source_run :: "source_page \<Rightarrow> source_event list \<Rightarrow> bool" where
  opened: "source_run (SourcePage d) []"
| event: "source_run p h \<Longrightarrow> source_run (sp_handle_event d e p) (h @ [e])"
| refresh: "source_run p h \<Longrightarrow> source_run (sp_refresh_accounts d p) h"
| edit: "source_run p h \<Longrightarrow>
    source_run (p\<lparr>sp_account := acc, sp_reference := ref, sp_dataset_name := nm, sp_joined_index := index\<rparr>) h"

fun loaded :: "source_event list \<Rightarrow> (int \<times> group_context list) option" where
  "loaded [] = None"
| "loaded (e # es) =
     (case loaded es of Some r \<Rightarrow> Some r | None \<Rightarrow> (case e of SE_joined_loaded i gs \<Rightarrow> Some (i, gs) | _ \<Rightarrow> None))"

lemma loaded_snoc:
  "loaded (es @ [e]) = (case e of SE_joined_loaded i gs \<Rightarrow> Some (i, gs) | _ \<Rightarrow> loaded es)"
  by (induction es) (auto split: source_event.split option.split)

lemma source_run_loaded:
  "source_run p h \<Longrightarrow> sp_joined_account p = map_option fst (loaded h) \<and>
     (\<forall>i gs. loaded h = Some (i, gs) \<longrightarrow> sp_joined_groups p = gs)"
proof (induction rule: source_run.induct)
  case (opened d)
  then show ?case by (simp add: SourcePage_def sp_refresh_accounts_def Let_def)
next
  case (event p h d e)
  then show ?case by (cases e) (auto simp: sp_handle_event_def sp_refresh_accounts_def loaded_snoc Let_def)
qed (auto simp: sp_refresh_accounts_def Let_def)

text \<open>
  A group is only ever selected as a source for the account whose groups are listed: access hashes of one
  account never reach another.
\<close>

theorem joined_group_of_account:
  assumes "source_run p h" "sp_select_joined p = Some (Source_select_group i g)"
  shows "\<exists>gs. loaded h = Some (i, gs) \<and> g \<in> set gs"
  using source_run_loaded [OF assms(1)] assms(2)
  by (auto simp: sp_select_joined_def split: option.splits if_splits)

lemma py_lower_append: "py_lower (s @ t) = py_lower s @ py_lower t"
  by (simp add: py_lower_def)

text \<open>A file the user saves to is always named as one of the two formats.\<close>

theorem saved_path_has_format:
  assumes "extra \<in> {''.csv'', ''.xlsx''}"
  shows "suffix ''.xlsx'' (py_lower (with_suffix extra path)) \<or> suffix ''.csv'' (py_lower (with_suffix extra path))"
proof -
  have "py_lower ''.csv'' = ''.csv''" "py_lower ''.xlsx'' = ''.xlsx''" by code_simp+
  with assms show ?thesis by (auto simp: with_suffix_def py_lower_append suffix_def)
qed

text \<open>The label of the members page shows the rows that are in the table: a non-empty range within the total.\<close>

theorem range_shows_rows:
  assumes "table_reachable d psize (mp_table p)" "1 \<le> psize" "psize \<le> 1000" "mp_range p = Some (s, e, n)" "db_wf d"
  shows "1 \<le> s \<and> s \<le> e \<and> e \<le> n \<and> e - s + 1 = int (length (mt_rows (mp_table p)))"
proof -
  let ?t = "mp_table p"
  have ok: "table_ok d psize ?t" by (rule table_reachable_ok [OF assms(1-3)])
  have "count_members i d = int (length (dataset_member_rows i d))" for i
    using arg_cong [OF dataset_member_rows_ids(1) [OF assms(5), of i], of length] by (simp add: count_members_def)
  then have tot: "mt_total ?t = int (length (table_rows d (mt_dataset_id ?t)))"
    using ok by (simp add: table_ok_def page_def table_rows_def split: option.splits)
  have off: "0 \<le> mt_offset ?t" "mt_offset ?t = 0 \<or> mt_offset ?t < mt_total ?t" "mt_page_size ?t = psize"
    and rows: "mt_rows ?t = take (nat psize) (drop (nat (mt_offset ?t)) (table_rows d (mt_dataset_id ?t)))"
    using ok unfolding table_ok_def by blast+
  have pos: "mt_total ?t \<noteq> 0" and r: "s = mt_offset ?t + 1" "n = mt_total ?t"
    "e = min (mt_offset ?t + int (length (mt_rows ?t))) (mt_total ?t)"
    using assms(4) by (auto simp: mp_range_def Let_def split: if_splits)
  have "int (length (mt_rows ?t)) = min psize (mt_total ?t - mt_offset ?t)"
    using off pos tot assms(2) by (auto simp: rows)
  moreover have "0 < mt_total ?t" using pos tot by simp
  ultimately show ?thesis using r off(1,2) assms(2) by linarith
qed

end
