(* ===== verification/Executor_V1.thy ===== *)
theory Executor_V1
  imports Executor
begin

text \<open>
  \<open>migration/executor.py\<close> and \<open>migration/candidate_buffer.py\<close> of the V1 tree: the executor of the first
  generation.  It has the V1 scheduler, classifier and error mapper, no watchdog and no removal; it
  logs more events.  The environment is that of the V1.2 executor: replies, control requests,
  lateness and failing writes.  The repositories and the constants the V1 tree imports are not part
  of it, so the stores, over a state of any type, and the constants are arguments.
\<close>

section \<open>Repositories and constants\<close>

type_synonym ('a, 'd) store_op = "'d \<Rightarrow> exn + 'a \<times> 'd"

record 'd v1_env = exec_env +
  js_submit_set_state :: "int \<Rightarrow> job_state \<Rightarrow> iso_text option \<Rightarrow> checkpoint option \<Rightarrow> bool \<Rightarrow> (unit, 'd) store_op"
  js_submit_update_items_batch :: "int \<Rightarrow> item_update list \<Rightarrow> checkpoint option \<Rightarrow> (unit, 'd) store_op"
  js_submit_mark_retry ::
    "int \<Rightarrow> int \<Rightarrow> int \<Rightarrow> string option \<Rightarrow> string option \<Rightarrow> iso_text option \<Rightarrow> (unit, 'd) store_op"
  js_submit_event :: "int \<Rightarrow> string \<Rightarrow> string \<Rightarrow> string option \<Rightarrow> int option \<Rightarrow> (unit, 'd) store_op"
  js_summary :: "int \<Rightarrow> 'd \<Rightarrow> job_summary"
  js_pending_chunk :: "int \<Rightarrow> int \<Rightarrow> int \<Rightarrow> nat \<Rightarrow> 'd \<Rightarrow> pending_row list"
  as_set_state :: "int \<Rightarrow> account_state \<Rightarrow> string option \<Rightarrow> (unit, 'd) store_op"
  k_DB_BATCH_SIZE :: nat
  k_DB_MAX_FLUSH_SECONDS :: seconds
  k_TRANSIENT_RETRY_DELAYS :: "seconds list"
  k_PREFETCH_MIN :: nat
  k_PREFETCH_MAX :: nat

section \<open>The candidate buffer\<close>

definition CandidateBuffer_v1 :: "'d v1_env \<Rightarrow> int \<Rightarrow> int \<Rightarrow> cand_buffer" where
  "CandidateBuffer_v1 env job_id account_id =
     (let size = max (k_PREFETCH_MIN env) (min (k_PREFETCH_MAX env) (k_PREFETCH_MIN env))
      in \<lparr>cb_job_id = job_id, cb_account_id = account_id, cb_chunk_size = size,
          cb_low_watermark = max 50 (size div 4), cb_queue = [], cb_last_loaded = -1,
          cb_loading = None, cb_exhausted = False\<rparr>)"

definition finish_fill_v1 :: "'d v1_env \<Rightarrow> 'd \<Rightarrow> cand_buffer \<Rightarrow> cand_buffer" where
  "finish_fill_v1 env d b0 =
     (let b = submit_fill b0 in
      case cb_loading b of
        None \<Rightarrow> b
      | Some (last_loaded, chunk_size) \<Rightarrow>
          let rows = js_pending_chunk env (cb_job_id b) (cb_account_id b) last_loaded chunk_size d;
              b1 = b\<lparr>cb_loading := None\<rparr>
          in if rows = [] then b1\<lparr>cb_exhausted := True\<rparr>
             else b1\<lparr>cb_queue := cb_queue b1 @ map row_candidate rows,
                     cb_last_loaded := pr_ordinal (last rows)\<rparr>)"

definition prime_v1 :: "'d v1_env \<Rightarrow> 'd \<Rightarrow> cand_buffer \<Rightarrow> cand_buffer" where
  "prime_v1 env d b = (if cb_queue b = [] \<and> \<not> cb_exhausted b then finish_fill_v1 env d b else b)"

definition pop_v1 :: "'d v1_env \<Rightarrow> 'd \<Rightarrow> cand_buffer \<Rightarrow> candidate option \<times> cand_buffer" where
  "pop_v1 env d b0 =
     (let b = (if cb_queue b0 = [] then finish_fill_v1 env d b0 else b0) in
      case cb_queue b of
        [] \<Rightarrow> (None, b)
      | item # rest \<Rightarrow>
          let b1 = b\<lparr>cb_queue := rest\<rparr> in
          (Some item, if length rest \<le> cb_low_watermark b1 then submit_fill b1 else b1))"

section \<open>State\<close>

datatype trace_v1 =
    V_rpc "int option" seconds
  | V_gate seconds
  | V_account int account_state "string option"
  | V_job int job_state "iso_text option"
  | V_started int int
  | V_item int int item_state nat
  | V_completed int job_summary job_state
  | V_failed int string

record 'd v1_state =
  v_db :: 'd
  v_sched :: scheduler_v1
  v_stop :: bool
  v_pause :: bool
  v_running :: "int option"
  v_buf :: "item_update list"
  v_last_flush :: seconds
  v_flush_due :: "seconds option"
  v_perf :: nat
  v_polls :: nat
  v_sleeps :: nat
  v_rpcs :: nat
  v_writes :: nat
  v_metrics :: "(string \<times> seconds) list"
  v_trace :: "trace_v1 list"

type_synonym ('a, 'd) vm = "'d v1_state \<Rightarrow> (exn + 'a) \<times> 'd v1_state"

definition vreturn :: "'a \<Rightarrow> ('a, 'd) vm" where
  "vreturn x s = (Inr x, s)"

definition vbind :: "('a, 'd) vm \<Rightarrow> ('a \<Rightarrow> ('b, 'd) vm) \<Rightarrow> ('b, 'd) vm" where
  "vbind m f s = (case m s of (Inl e, s') \<Rightarrow> (Inl e, s') | (Inr x, s') \<Rightarrow> f x s')"

definition vmodify :: "('d v1_state \<Rightarrow> 'd v1_state) \<Rightarrow> (unit, 'd) vm" where
  "vmodify f s = (Inr (), f s)"

definition vlog :: "trace_v1 \<Rightarrow> (unit, 'd) vm" where
  "vlog ev = vmodify (\<lambda>s. s\<lparr>v_trace := v_trace s @ [ev]\<rparr>)"

definition v_now :: "'d v1_state \<Rightarrow> seconds" where
  "v_now s = clock_monotonic (s1_clock (v_sched s))"

definition v_real :: "'d v1_state \<Rightarrow> bool" where
  "v_real s = (clk_kind (s1_clock (v_sched s)) = RealClock)"

definition v_monotonic :: "'d v1_env \<Rightarrow> 'd v1_state \<Rightarrow> seconds" where
  "v_monotonic env s = (if v_real s then v_now s else e_mono env (v_writes s))"

definition v_clock_sleep :: "seconds \<Rightarrow> seconds \<Rightarrow> 'd v1_state \<Rightarrow> 'd v1_state" where
  "v_clock_sleep late secs s =
     s\<lparr>v_sched := (v_sched s)\<lparr>s1_clock := clock_sleep late secs (s1_clock (v_sched s))\<rparr>\<rparr>"

definition v_elapse :: "seconds \<Rightarrow> 'd v1_state \<Rightarrow> 'd v1_state" where
  "v_elapse dt s = v_clock_sleep dt 0 s"

definition utc_wait_until_v1 :: "'d v1_env \<Rightarrow> int \<Rightarrow> 'd v1_state \<Rightarrow> iso_text" where
  "utc_wait_until_v1 env secs s = IsoUtc (e_utc env (v_now s) + max 0 secs * 1000000)"

section \<open>Writes and the result buffer\<close>

definition write_op_v1 :: "'d v1_env \<Rightarrow> ('a, 'd) store_op \<Rightarrow> ('a, 'd) vm" where
  "write_op_v1 env op s =
     (case e_write env (v_writes s) of (dt, failure) \<Rightarrow>
      let s1 = v_elapse dt (s\<lparr>v_writes := v_writes s + 1\<rparr>) in
      case failure of
        Some e \<Rightarrow> (Inl e, s1)
      | None \<Rightarrow> (case op (v_db s) of Inl e \<Rightarrow> (Inl e, s1) | Inr (x, d') \<Rightarrow> (Inr x, s1\<lparr>v_db := d'\<rparr>)))"

definition flush_now_v1 :: "'d v1_env \<Rightarrow> int \<Rightarrow> (unit, 'd) vm" where
  "flush_now_v1 env job_id s =
     (let updates = v_buf s in
      vbind (write_op_v1 env (js_submit_update_items_batch env job_id updates
               (Some (last_ordinal_checkpoint (iu_ordinal (last updates)))))) (\<lambda>_.
      vmodify (\<lambda>s'. s'\<lparr>v_last_flush := v_monotonic env s'\<rparr>)) (s\<lparr>v_buf := []\<rparr>))"

definition flush_raw_v1 :: "'d v1_env \<Rightarrow> int \<Rightarrow> bool \<Rightarrow> (unit, 'd) vm" where
  "flush_raw_v1 env job_id force s =
     (if v_buf s = [] then (Inr (), s)
      else if \<not> force \<and> length (v_buf s) < k_DB_BATCH_SIZE env \<and>
              v_monotonic env s - v_last_flush s < k_DB_MAX_FLUSH_SECONDS env
      then (Inr (), s)
      else flush_now_v1 env job_id s)"

text \<open>The delayed flush task acts when an await ends at or after its due time.\<close>

definition run_due_v1 :: "'d v1_env \<Rightarrow> int \<Rightarrow> 'd v1_state \<Rightarrow> 'd v1_state" where
  "run_due_v1 env job_id s =
     (case v_flush_due s of
        None \<Rightarrow> s
      | Some t \<Rightarrow> if v_now s < t then s else (snd (flush_raw_v1 env job_id True s))\<lparr>v_flush_due := None\<rparr>)"

definition await_write_v1 :: "'d v1_env \<Rightarrow> int \<Rightarrow> ('a, 'd) store_op \<Rightarrow> ('a, 'd) vm" where
  "await_write_v1 env job_id op s = (case write_op_v1 env op s of (r, s') \<Rightarrow> (r, run_due_v1 env job_id s'))"

definition flush_results :: "'d v1_env \<Rightarrow> int \<Rightarrow> bool \<Rightarrow> (unit, 'd) vm" where
  "flush_results env job_id force s = (case flush_raw_v1 env job_id force s of (r, s') \<Rightarrow> (r, run_due_v1 env job_id s'))"

definition schedule_result_flush :: "'d v1_env \<Rightarrow> 'd v1_state \<Rightarrow> 'd v1_state" where
  "schedule_result_flush env s =
     (if \<not> v_real s \<or> v_flush_due s \<noteq> None then s
      else s\<lparr>v_flush_due := Some (v_now s + k_DB_MAX_FLUSH_SECONDS env)\<rparr>)"

definition set_account_state_v1 :: "'d v1_env \<Rightarrow> int \<Rightarrow> int \<Rightarrow> account_state \<Rightarrow> string option \<Rightarrow> (unit, 'd) vm" where
  "set_account_state_v1 env job_id account_id state error =
     vbind (await_write_v1 env job_id (as_set_state env account_id state error)) (\<lambda>_.
     vlog (V_account account_id state error))"

definition set_job_state_v1 ::
  "'d v1_env \<Rightarrow> int \<Rightarrow> job_state \<Rightarrow> iso_text option \<Rightarrow> checkpoint option \<Rightarrow> bool \<Rightarrow> (unit, 'd) vm" where
  "set_job_state_v1 env job_id state waiting_until checkpoint clear_waiting =
     vbind (await_write_v1 env job_id (js_submit_set_state env job_id state waiting_until checkpoint clear_waiting)) (\<lambda>_.
     vlog (V_job job_id state waiting_until))"

definition job_event_v1 :: "'d v1_env \<Rightarrow> int \<Rightarrow> string \<Rightarrow> string \<Rightarrow> string option \<Rightarrow> int option \<Rightarrow> (unit, 'd) vm" where
  "job_event_v1 env job_id level code message member_id =
     await_write_v1 env job_id (js_submit_event env job_id level code message member_id)"

section \<open>Control and sleeping\<close>

definition apply_request_v1 :: "control_request \<Rightarrow> 'd v1_state \<Rightarrow> 'd v1_state" where
  "apply_request_v1 r s =
     (case r of RequestStop \<Rightarrow> s\<lparr>v_stop := True\<rparr> | RequestPause \<Rightarrow> s\<lparr>v_pause := True\<rparr>
      | RequestResume \<Rightarrow> s\<lparr>v_pause := False\<rparr>)"

definition control_state :: "'d v1_env \<Rightarrow> 'd v1_state \<Rightarrow> control option \<times> 'd v1_state" where
  "control_state env s =
     (let s1 = fold apply_request_v1 (e_req env (v_polls s)) (s\<lparr>v_polls := v_polls s + 1\<rparr>)
      in (if v_stop s1 then Some C_stop else if v_pause s1 then Some C_pause else None, s1))"

definition nap_v1 :: "'d v1_env \<Rightarrow> int \<Rightarrow> seconds \<Rightarrow> 'd v1_state \<Rightarrow> 'd v1_state" where
  "nap_v1 env job_id secs s =
     run_due_v1 env job_id ((v_clock_sleep (e_late env (v_sleeps s)) secs s)\<lparr>v_sleeps := v_sleeps s + 1\<rparr>)"

lemma v_now_frame [simp]:
  "v_now (s\<lparr>v_db := d\<rparr>) = v_now s" "v_now (s\<lparr>v_buf := b\<rparr>) = v_now s" "v_now (s\<lparr>v_trace := t\<rparr>) = v_now s"
  "v_now (s\<lparr>v_writes := n\<rparr>) = v_now s" "v_now (s\<lparr>v_flush_due := u\<rparr>) = v_now s" "v_now (s\<lparr>v_last_flush := l\<rparr>) = v_now s"
  "v_now (s\<lparr>v_polls := n\<rparr>) = v_now s" "v_now (s\<lparr>v_sleeps := n\<rparr>) = v_now s"
  by (simp_all add: v_now_def)

lemma v_clock_sleep_now: "v_now s \<le> v_now (v_clock_sleep late secs s)" "v_now s + secs \<le> v_now (v_clock_sleep late secs s)"
  using clock_sleep_mono [of "s1_clock (v_sched s)" late secs] clock_sleep_ge [of "s1_clock (v_sched s)" secs late]
  by (simp_all add: v_now_def v_clock_sleep_def clock_monotonic_def)

lemma write_op_v1_now: "v_now s \<le> v_now (snd (write_op_v1 env op s))"
  using v_clock_sleep_now(1) [of "s\<lparr>v_writes := v_writes s + 1\<rparr>"]
  by (auto simp: write_op_v1_def v_elapse_def Let_def split: prod.split option.split sum.split)

lemma flush_raw_v1_now: "v_now s \<le> v_now (snd (flush_raw_v1 env j f s))"
proof -
  let ?op = "js_submit_update_items_batch env j (v_buf s) (Some (last_ordinal_checkpoint (iu_ordinal (last (v_buf s)))))"
  obtain r s1 where w: "write_op_v1 env ?op (s\<lparr>v_buf := []\<rparr>) = (r, s1)" by fastforce
  have "v_now s \<le> v_now s1" using write_op_v1_now [of "s\<lparr>v_buf := []\<rparr>" env ?op] w by simp
  with w have "v_now s \<le> v_now (snd (flush_now_v1 env j s))"
    by (cases r) (simp_all add: flush_now_v1_def Let_def vbind_def vmodify_def)
  then show ?thesis by (simp add: flush_raw_v1_def)
qed

lemma nap_v1_now: "v_now s + secs \<le> v_now (nap_v1 env j secs s)"
proof -
  have "v_now t \<le> v_now (run_due_v1 env j t)" for t
    using flush_raw_v1_now [of t env j True] by (auto simp: run_due_v1_def split: option.split)
  from this [of "(v_clock_sleep (e_late env (v_sleeps s)) secs s)\<lparr>v_sleeps := v_sleeps s + 1\<rparr>"]
  show ?thesis using v_clock_sleep_now(2) [of s secs "e_late env (v_sleeps s)"] by (simp add: nap_v1_def)
qed

lemma requests_v1_now: "v_now (fold apply_request_v1 rs s) = v_now s"
proof (induction rs arbitrary: s)
  case (Cons r rs)
  then show ?case by (cases r) (simp_all add: apply_request_v1_def v_now_def)
qed simp

lemma control_state_now: "control_state env s = (c, s') \<Longrightarrow> v_now s' = v_now s"
  by (auto simp: control_state_def requests_v1_now Let_def)

lemma nap_v1_progress:
  assumes "control_state env s = (c, s1)" "\<not> deadline - v_now s1 \<le> 0"
  shows "nat \<lceil>4 * (deadline - v_now (nap_v1 env j (min (1/4) (deadline - v_now s1)) s1))\<rceil> < nat \<lceil>4 * (deadline - v_now s)\<rceil>"
  using quarter_progress [OF nap_v1_now assms(2)] control_state_now [OF assms(1)] by simp

text \<open>The polling loop of \<open>_controlled_sleep\<close>.\<close>

function controlled_loop :: "'d v1_env \<Rightarrow> int \<Rightarrow> seconds \<Rightarrow> 'd v1_state \<Rightarrow> control option \<times> 'd v1_state" where
  "controlled_loop env job_id deadline s =
     (case control_state env s of
        (Some c, s1) \<Rightarrow> (Some c, s1)
      | (None, s1) \<Rightarrow>
          let remaining = deadline - v_now s1 in
          if remaining \<le> 0 then (None, s1)
          else controlled_loop env job_id deadline (nap_v1 env job_id (min (1/4) remaining) s1))"
  by pat_completeness auto

termination
  by (relation "measure (\<lambda>(env, job_id, deadline, s). nat \<lceil>4 * (deadline - v_now s)\<rceil>)")
    (simp, simp only: in_measure prod.case, rule nap_v1_progress [where c = None], auto)

declare controlled_loop.simps [simp del]

definition controlled_sleep :: "'d v1_env \<Rightarrow> int \<Rightarrow> seconds \<Rightarrow> 'd v1_state \<Rightarrow> control option \<times> 'd v1_state" where
  "controlled_sleep env job_id seconds s =
     (let secs = max 0 seconds in
      if secs \<le> 0 then control_state env s
      else if \<not> v_real s then control_state env (nap_v1 env job_id secs s)
      else controlled_loop env job_id (v_now s + secs) s)"

definition vsleep :: "'d v1_env \<Rightarrow> int \<Rightarrow> ('d v1_state \<Rightarrow> seconds) \<Rightarrow> (control option, 'd) vm" where
  "vsleep env job_id secs s = (case controlled_sleep env job_id (secs s) s of (c, s') \<Rightarrow> (Inr c, s'))"

definition wait_scheduler :: "'d v1_env \<Rightarrow> int \<Rightarrow> (control option, 'd) vm" where
  "wait_scheduler env job_id = vsleep env job_id (\<lambda>s. remaining_delay_v1 (v_sched s))"

definition handle_control_v1 :: "'d v1_env \<Rightarrow> int \<Rightarrow> int \<Rightarrow> control option \<Rightarrow> (bool, 'd) vm" where
  "handle_control_v1 env job_id account_id c =
     (case c of
        Some C_stop \<Rightarrow>
          vbind (flush_results env job_id True) (\<lambda>_.
          vbind (set_job_state_v1 env job_id JS_CANCELLED None None True) (\<lambda>_.
          vbind (job_event_v1 env job_id ''INFO'' ''MIGRATION_CANCELLED'' None None) (\<lambda>_.
          vbind (set_account_state_v1 env job_id account_id AS_READY None) (\<lambda>_. vreturn True))))
      | Some C_pause \<Rightarrow>
          vbind (flush_results env job_id True) (\<lambda>_.
          vbind (set_job_state_v1 env job_id JS_PAUSED None None False) (\<lambda>_.
          vbind (job_event_v1 env job_id ''INFO'' ''MIGRATION_PAUSED_BY_USER'' None None) (\<lambda>_.
          vbind (\<lambda>s. set_account_state_v1 env job_id account_id
                   (if server_wait_remaining_v1 (v_sched s) > 0 then AS_WAITING_SERVER else AS_READY) None s) (\<lambda>_.
          vreturn True))))
      | None \<Rightarrow> vreturn False)"

section \<open>One candidate\<close>

definition rpc_error_v1 :: "'d v1_env \<Rightarrow> nat \<Rightarrow> domain_error option" where
  "rpc_error_v1 env n = map_option err_map_v1 (snd (e_rpc env n))"

text \<open>The call; its latency and the time of the preparation are observed when there are metrics.\<close>

definition rpc_v1 :: "'d v1_env \<Rightarrow> int \<Rightarrow> member \<Rightarrow> (domain_error option, 'd) vm" where
  "rpc_v1 env job_id m s =
     (let started = v_monotonic env s;
          s1 = s\<lparr>v_trace := v_trace s @ [V_rpc (mb_telegram_user_id m) (v_now s)]\<rparr>;
          s2 = run_due_v1 env job_id (v_elapse (fst (e_rpc env (v_rpcs s))) (s1\<lparr>v_rpcs := v_rpcs s1 + 1\<rparr>));
          s3 = (if e_metrics env
                then s2\<lparr>v_metrics := v_metrics s2 @ [(''rpc_latency_ms'', (v_monotonic env s2 - started) * 1000), (''local_prepare_ms'', 0)]\<rparr>
                else s2)
      in (Inr (rpc_error_v1 env (v_rpcs s)), s3))"

definition mark_retry_v1 ::
  "'d v1_env \<Rightarrow> int \<Rightarrow> candidate \<Rightarrow> int \<Rightarrow> domain_error \<Rightarrow> iso_text option \<Rightarrow> (unit, 'd) vm" where
  "mark_retry_v1 env job_id cand attempts error next_retry_at =
     await_write_v1 env job_id (js_submit_mark_retry env job_id (cd_ordinal cand) attempts
       (Some (code_str (de_code error))) (Some (de_text error)) next_retry_at)"

text \<open>A telegram user id of zero is not logged.\<close>

definition logged_member :: "candidate \<Rightarrow> int option" where
  "logged_member cand =
     (case mb_telegram_user_id (cd_member cand) of Some uid \<Rightarrow> if uid = 0 then None else Some uid | None \<Rightarrow> None)"

definition pause_current_candidate ::
  "'d v1_env \<Rightarrow> int \<Rightarrow> int \<Rightarrow> candidate \<Rightarrow> int \<Rightarrow> domain_error \<Rightarrow> (unit, 'd) vm" where
  "pause_current_candidate env job_id account_id cand attempts error =
     vbind (flush_results env job_id True) (\<lambda>_.
     vbind (mark_retry_v1 env job_id cand attempts error None) (\<lambda>_.
     vbind (job_event_v1 env job_id ''WARN'' ''MIGRATION_PAUSED'' (Some (de_text error)) (logged_member cand)) (\<lambda>_.
     vbind (set_account_state_v1 env job_id account_id
              (if de_code error = AUTH then AS_AUTH_REQUIRED else AS_ERROR) (Some (de_text error))) (\<lambda>_.
     set_job_state_v1 env job_id JS_PAUSED None (before_checkpoint cand) False))))"

definition rate_limit_v1 ::
  "'d v1_env \<Rightarrow> int \<Rightarrow> int \<Rightarrow> candidate \<Rightarrow> int \<Rightarrow> nat \<Rightarrow> domain_error \<Rightarrow> (attempt_next, 'd) vm" where
  "rate_limit_v1 env job_id account_id cand attempts transient error =
     (let wait = max 0 (case cr_wait_seconds (classify_v1 (Some error)) of None \<Rightarrow> 0 | Some w \<Rightarrow> w) in
      vbind (vmodify (\<lambda>s. s\<lparr>v_sched := apply_server_wait_v1 (of_int wait) (v_sched s)\<rparr>)) (\<lambda>_.
      vbind (\<lambda>s. vlog (V_gate (v_now s + of_int wait)) s) (\<lambda>_.
      vbind (\<lambda>s. vreturn (utc_wait_until_v1 env wait s) s) (\<lambda>wait_until.
      vbind (flush_results env job_id True) (\<lambda>_.
      vbind (mark_retry_v1 env job_id cand attempts error (Some wait_until)) (\<lambda>_.
      vbind (set_account_state_v1 env job_id account_id AS_WAITING_SERVER (Some (de_text error))) (\<lambda>_.
      vbind (set_job_state_v1 env job_id JS_WAITING_SERVER (Some wait_until) (before_checkpoint cand) False) (\<lambda>_.
      vbind (job_event_v1 env job_id ''WARN'' ''RATE_LIMIT_WAIT''
               (Some (''Waiting '' @ int_str wait @ '' seconds before retrying the same candidate''))
               (mb_telegram_user_id (cd_member cand))) (\<lambda>_.
      vbind (wait_scheduler env job_id) (\<lambda>c.
      vbind (handle_control_v1 env job_id account_id c) (\<lambda>stopped.
      if stopped then vreturn (Done None True)
      else
        vbind (set_account_state_v1 env job_id account_id AS_BUSY None) (\<lambda>_.
        vbind (set_job_state_v1 env job_id JS_RUNNING None None True) (\<lambda>_.
        vreturn (Again attempts transient))))))))))))))"

definition transient_v1 ::
  "'d v1_env \<Rightarrow> int \<Rightarrow> int \<Rightarrow> candidate \<Rightarrow> int \<Rightarrow> nat \<Rightarrow> domain_error \<Rightarrow> (attempt_next, 'd) vm" where
  "transient_v1 env job_id account_id cand attempts transient error =
     (let failures = transient + 1 in
      if failures < 3 then
        vbind (vsleep env job_id (\<lambda>_. k_TRANSIENT_RETRY_DELAYS env ! (failures - 1))) (\<lambda>c.
        vbind (handle_control_v1 env job_id account_id c) (\<lambda>stopped.
        if stopped then vreturn (Done None True) else vreturn (Again attempts failures)))
      else
        vbind (vsleep env job_id (\<lambda>_. k_TRANSIENT_RETRY_DELAYS env ! 2)) (\<lambda>c.
        vbind (handle_control_v1 env job_id account_id c) (\<lambda>stopped.
        if stopped then vreturn (Done None True)
        else vreturn (Done (Some (result_of cand IS_FAILED attempts (Some error))) False))))"

definition reply_v1 ::
  "'d v1_env \<Rightarrow> int \<Rightarrow> int \<Rightarrow> candidate \<Rightarrow> int \<Rightarrow> nat \<Rightarrow> domain_error option \<Rightarrow> (attempt_next, 'd) vm" where
  "reply_v1 env job_id account_id cand attempts transient reply =
     (let classified = classify_v1 reply in
      case reply of
        None \<Rightarrow> vreturn (Done (Some (result_of cand IS_SUCCESS attempts None)) False)
      | Some error \<Rightarrow>
          if de_code error = RATE_LIMIT then rate_limit_v1 env job_id account_id cand attempts transient error
          else if cr_pause_job classified
          then vbind (pause_current_candidate env job_id account_id cand attempts error) (\<lambda>_. vreturn (Done None True))
          else if cr_retry classified \<and> de_code error \<in> {NETWORK_TRANSIENT, SERVER_TRANSIENT}
          then transient_v1 env job_id account_id cand attempts transient error
          else vreturn (Done (Some (result_of cand (cr_state classified) attempts (Some error))) False))"

definition attempt_step_v1 :: "'d v1_env \<Rightarrow> int \<Rightarrow> int \<Rightarrow> candidate \<Rightarrow> int \<Rightarrow> nat \<Rightarrow> (attempt_next, 'd) vm" where
  "attempt_step_v1 env job_id account_id cand attempts transient =
     vbind (wait_scheduler env job_id) (\<lambda>c.
     vbind (handle_control_v1 env job_id account_id c) (\<lambda>stopped.
     if stopped then vreturn (Done None True)
     else
       vbind (vmodify (\<lambda>s. s\<lparr>v_sched := mark_attempt_v1 (v_sched s)\<rparr>)) (\<lambda>_.
       vbind (rpc_v1 env job_id (cd_member cand)) (\<lambda>reply.
       reply_v1 env job_id account_id cand (attempts + 1) transient reply))))"

text \<open>
  The loop of \<open>_attempt_candidate\<close>, cut off after \<open>fuel\<close> rounds: \<open>None\<close> says that it has not returned
  yet, and the state is the one it has reached.
\<close>

fun attempt_loop_v1 ::
  "nat \<Rightarrow> 'd v1_env \<Rightarrow> int \<Rightarrow> int \<Rightarrow> candidate \<Rightarrow> int \<Rightarrow> nat \<Rightarrow> 'd v1_state \<Rightarrow>
     (exn + item_update option \<times> bool) option \<times> 'd v1_state" where
  "attempt_loop_v1 0 env job_id account_id cand attempts transient s = (None, s)"
| "attempt_loop_v1 (Suc fuel) env job_id account_id cand attempts transient s =
     (case attempt_step_v1 env job_id account_id cand attempts transient s of
        (Inl e, s') \<Rightarrow> (Some (Inl e), s')
      | (Inr (Done u stop), s') \<Rightarrow> (Some (Inr (u, stop)), s')
      | (Inr (Again attempts' transient'), s') \<Rightarrow>
          attempt_loop_v1 fuel env job_id account_id cand attempts' transient' s')"

definition attempt_candidate ::
  "nat \<Rightarrow> 'd v1_env \<Rightarrow> int \<Rightarrow> int \<Rightarrow> candidate \<Rightarrow> 'd v1_state \<Rightarrow>
     (exn + item_update option \<times> bool) option \<times> 'd v1_state" where
  "attempt_candidate fuel env job_id account_id cand s =
     (if mb_telegram_user_id (cd_member cand) = None \<or> mb_access_hash (cd_member cand) = None
      then (Some (Inr (Some \<lparr>iu_ordinal = cd_ordinal cand, iu_state = IS_FAILED,
             iu_attempts = cd_persisted_attempts cand, iu_error_code = Some (code_str INVALID_USER),
             iu_error_text = Some ''Candidate lacks Telegram user id or account-scoped access hash''\<rparr>, False)), s)
      else attempt_loop_v1 fuel env job_id account_id cand (cd_persisted_attempts cand) 0 s)"

section \<open>A run\<close>

definition record_result_v1 :: "'d v1_env \<Rightarrow> int \<Rightarrow> item_update \<Rightarrow> cand_buffer \<Rightarrow> (unit, 'd) vm" where
  "record_result_v1 env job_id u b =
     vbind (vmodify (\<lambda>s. s\<lparr>v_buf := v_buf s @ [u]\<rparr>)) (\<lambda>_.
     vbind (flush_results env job_id False) (\<lambda>_.
     vbind (vmodify (\<lambda>s. if v_buf s \<noteq> [] then schedule_result_flush env s else s)) (\<lambda>_.
     vlog (V_item job_id (iu_ordinal u) (iu_state u) (depth b)))))"

text \<open>The loop of \<open>run\<close>, cut off after \<open>n\<close> candidates in the same way; \<open>True\<close> says it was interrupted.\<close>

fun run_loop_v1 ::
  "nat \<Rightarrow> nat \<Rightarrow> 'd v1_env \<Rightarrow> int \<Rightarrow> int \<Rightarrow> cand_buffer \<Rightarrow> 'd v1_state \<Rightarrow> (exn + bool) option \<times> 'd v1_state" where
  "run_loop_v1 0 fuel env job_id account_id b s = (None, s)"
| "run_loop_v1 (Suc n) fuel env job_id account_id b s =
     (case (case control_state env s of (c, s0) \<Rightarrow> handle_control_v1 env job_id account_id c s0) of
        (Inl e, s1) \<Rightarrow> (Some (Inl e), s1)
      | (Inr True, s1) \<Rightarrow> (Some (Inr True), s1)
      | (Inr False, s1) \<Rightarrow>
          (case pop_v1 env (v_db s1) b of
             (None, b1) \<Rightarrow> (Some (Inr False), s1)
           | (Some cand, b1) \<Rightarrow>
               (case attempt_candidate fuel env job_id account_id cand s1 of
                  (None, s2) \<Rightarrow> (None, s2)
                | (Some (Inl e), s2) \<Rightarrow> (Some (Inl e), s2)
                | (Some (Inr (u, stop)), s2) \<Rightarrow>
                    if stop then (Some (Inr True), s2)
                    else (case u of
                            None \<Rightarrow> run_loop_v1 n fuel env job_id account_id b1 s2
                          | Some upd \<Rightarrow>
                              (case record_result_v1 env job_id upd b1 s2 of
                                 (Inl e, s3) \<Rightarrow> (Some (Inl e), s3)
                               | (Inr _, s3) \<Rightarrow> run_loop_v1 n fuel env job_id account_id b1 s3)))))"

definition complete_run_v1 :: "'d v1_env \<Rightarrow> int \<Rightarrow> int \<Rightarrow> (unit, 'd) vm" where
  "complete_run_v1 env job_id account_id =
     vbind (flush_results env job_id True) (\<lambda>_.
     vbind (\<lambda>s. vreturn (js_summary env job_id (v_db s)) s) (\<lambda>summ.
     let final_state = (if sm_failed summ > 0 then JS_COMPLETED_WITH_ERRORS else JS_COMPLETED) in
     vbind (set_job_state_v1 env job_id final_state None None True) (\<lambda>_.
     vbind (set_account_state_v1 env job_id account_id AS_READY None) (\<lambda>_.
     vbind (job_event_v1 env job_id ''INFO'' ''MIGRATION_COMPLETED''
              (Some (''success='' @ int_str (sm_success summ) @ '' skipped='' @ int_str (sm_skipped summ) @
                     '' failed='' @ int_str (sm_failed summ))) None) (\<lambda>_.
     vlog (V_completed job_id summ final_state))))))"

definition fail_run_v1 :: "'d v1_env \<Rightarrow> int \<Rightarrow> int \<Rightarrow> exn \<Rightarrow> (unit, 'd) vm" where
  "fail_run_v1 env job_id account_id e =
     vbind (flush_results env job_id True) (\<lambda>_.
     vbind (set_job_state_v1 env job_id JS_FAILED None None True) (\<lambda>_.
     vbind (set_account_state_v1 env job_id account_id AS_ERROR (Some (exn_text e))) (\<lambda>_.
     vbind (job_event_v1 env job_id ''ERROR'' ''MIGRATION_FAILED'' (Some (exn_text e)) None) (\<lambda>_.
     vbind (vlog (V_failed job_id (exn_text e))) (\<lambda>_.
     (\<lambda>s. (Inl e, s)))))))"

definition finish_run_v1 :: "'d v1_state \<Rightarrow> 'd v1_state" where
  "finish_run_v1 s =
     s\<lparr>v_flush_due := None, v_perf := v_perf s - 1, v_running := None, v_stop := False, v_pause := False\<rparr>"

definition start_run_v1 :: "'d v1_env \<Rightarrow> int \<Rightarrow> 'd v1_state \<Rightarrow> 'd v1_state" where
  "start_run_v1 env job_id s =
     s\<lparr>v_running := Some job_id, v_stop := False, v_pause := False, v_buf := [],
       v_last_flush := v_monotonic env s, v_perf := v_perf s + 1\<rparr>"

text \<open>
  \<open>format(interval, 'g')\<close> for the intervals a scheduler accepts: six significant digits without
  trailing zeros.
\<close>

definition round_half_even :: "rat \<Rightarrow> int" where
  "round_half_even x =
     (let f = \<lfloor>x\<rfloor>; r = x - of_int f in
      if r < 1/2 then f else if r > 1/2 then f + 1 else if even f then f else f + 1)"

fun last_digits :: "nat \<Rightarrow> int \<Rightarrow> string" where
  "last_digits 0 n = []"
| "last_digits (Suc k) n = last_digits k (n div 10) @ [''0123456789'' ! nat (n mod 10)]"

definition format_g :: "rat \<Rightarrow> string" where
  "format_g x =
     (let k = (if x < 10 then 5 else 4);
          n = round_half_even (x * 10 ^ k);
          frac = rev (dropWhile (\<lambda>c. c = CHR ''0'') (rev (last_digits k n)))
      in int_str (n div 10 ^ k) @ (if frac = [] then [] else CHR ''.'' # frac))"

text \<open>Evaluation unfolds the formatting only once the number is known.\<close>

lemma format_g_code [code]: "format_g x = (case quotient_of x of (p, q) \<Rightarrow>
     (let k = (if x < 10 then 5 else 4);
          n = round_half_even (x * 10 ^ k);
          frac = rev (dropWhile (\<lambda>c. c = CHR ''0'') (rev (last_digits k n)))
      in int_str (n div 10 ^ k) @ (if frac = [] then [] else CHR ''.'' # frac)))"
  by (simp add: format_g_def split: prod.split)

definition begin_run_v1 :: "'d v1_env \<Rightarrow> int \<Rightarrow> int \<Rightarrow> (unit, 'd) vm" where
  "begin_run_v1 env job_id account_id =
     vbind (set_job_state_v1 env job_id JS_RUNNING None None False) (\<lambda>_.
     vbind (set_account_state_v1 env job_id account_id AS_BUSY None) (\<lambda>_.
     vbind (\<lambda>s. job_event_v1 env job_id ''INFO'' ''MIGRATION_STARTED''
              (Some (''Invite interval: '' @ format_g (s1_interval (v_sched s)) @ ''s'')) None s) (\<lambda>_.
     vlog (V_started job_id account_id))))"

definition end_run_v1 :: "'d v1_env \<Rightarrow> int \<Rightarrow> int \<Rightarrow> exn + bool \<Rightarrow> 'd v1_state \<Rightarrow> (exn + unit) \<times> 'd v1_state" where
  "end_run_v1 env job_id account_id r s =
     (let body = (case r of
             Inl e \<Rightarrow> (Inl e, s)
           | Inr interrupted \<Rightarrow> if interrupted then (Inr (), s) else complete_run_v1 env job_id account_id s)
      in case (case body of (Inl e, s1) \<Rightarrow> fail_run_v1 env job_id account_id e s1 | (Inr x, s1) \<Rightarrow> (Inr x, s1)) of
           (r2, s2) \<Rightarrow> (r2, finish_run_v1 s2))"

definition run_v1 ::
  "nat \<Rightarrow> nat \<Rightarrow> 'd v1_env \<Rightarrow> int \<Rightarrow> int \<Rightarrow> 'd v1_state \<Rightarrow> (exn + unit) option \<times> 'd v1_state" where
  "run_v1 n fuel env job_id account_id s =
     (if v_running s \<noteq> None
      then (Some (Inl (RuntimeError ''This executor already has a running migration job'')), s)
      else
        (case begin_run_v1 env job_id account_id (start_run_v1 env job_id s) of
           (Inl e, s1) \<Rightarrow> (Some (Inl e), s1)
         | (Inr _, s1) \<Rightarrow>
             let b = prime_v1 env (v_db s1) (CandidateBuffer_v1 env job_id account_id) in
             (case run_loop_v1 n fuel env job_id account_id b (run_due_v1 env job_id (v_elapse (e_lock env) s1)) of
                (None, s2) \<Rightarrow> (None, s2)
              | (Some r, s2) \<Rightarrow> (case end_run_v1 env job_id account_id r s2 of (r', s3) \<Rightarrow> (Some r', s3)))))"

end
