(* ===== verification/Executor_V1_Pacing.thy ===== *)
theory Executor_V1_Pacing
  imports Executor_V1
begin

text \<open>
  What a run of the V1 executor keeps, over any stores and with any constants: the distance between
  its calls and the deadlines of the server.  One relation covers all bookkeeping operations: it
  leaves the calls and the scheduler's memory alone and lets time pass.
\<close>

named_theorems v1_intros \<open>operations that are bookkeeping\<close>

section \<open>Paced traces\<close>

text \<open>Every call is an interval after the previous one and not before the latest deadline.\<close>

fun paced_v1 :: "seconds \<Rightarrow> seconds option \<Rightarrow> seconds \<Rightarrow> trace_v1 list \<Rightarrow> bool" where
  "paced_v1 i prev gate [] = True"
| "paced_v1 i prev gate (V_rpc u t # es) =
     ((case prev of None \<Rightarrow> True | Some p \<Rightarrow> p + i \<le> t) \<and> gate \<le> t \<and> paced_v1 i (Some t) gate es)"
| "paced_v1 i prev gate (V_gate w # es) = paced_v1 i prev (max gate w) es"
| "paced_v1 i prev gate (_ # es) = paced_v1 i prev gate es"

fun memory_v1 :: "seconds option \<times> seconds \<Rightarrow> trace_v1 list \<Rightarrow> seconds option \<times> seconds" where
  "memory_v1 m [] = m"
| "memory_v1 m (V_rpc u t # es) = memory_v1 (Some t, snd m) es"
| "memory_v1 m (V_gate w # es) = memory_v1 (fst m, max (snd m) w) es"
| "memory_v1 m (_ # es) = memory_v1 m es"

fun call_event :: "trace_v1 \<Rightarrow> bool" where
  "call_event (V_rpc _ _) = True"
| "call_event (V_gate _) = True"
| "call_event _ = False"

lemma memory_append: "memory_v1 m (es @ es') = memory_v1 (memory_v1 m es) es'"
  by (induction m es rule: memory_v1.induct) auto

lemma paced_append:
  "paced_v1 i prev gate (es @ es') =
     (paced_v1 i prev gate es \<and> paced_v1 i (fst (memory_v1 (prev, gate) es)) (snd (memory_v1 (prev, gate) es)) es')"
  by (induction i prev gate es rule: paced_v1.induct) auto

lemma paced_calls: "paced_v1 i prev gate (filter call_event es) = paced_v1 i prev gate es"
  by (induction i prev gate es rule: paced_v1.induct) auto

lemma memory_calls: "memory_v1 m (filter call_event es) = memory_v1 m es"
  by (induction m es rule: memory_v1.induct) auto

section \<open>Bookkeeping\<close>

definition v1_rel :: "'d v1_state \<Rightarrow> 'd v1_state \<Rightarrow> bool" where
  "v1_rel s s' \<longleftrightarrow>
     filter call_event (v_trace s') = filter call_event (v_trace s) \<and>
     s1_last_attempt (v_sched s') = s1_last_attempt (v_sched s) \<and>
     s1_server_wait_until (v_sched s') = s1_server_wait_until (v_sched s) \<and>
     s1_interval (v_sched s') = s1_interval (v_sched s) \<and> v_now s \<le> v_now s'"

lemma v1_rel_refl: "v1_rel s s"
  by (simp add: v1_rel_def)

lemma v1_rel_trans: "v1_rel s t \<Longrightarrow> v1_rel t u \<Longrightarrow> v1_rel s u"
  by (auto simp: v1_rel_def)

lemma v1_rel_frame:
  "v1_rel s (s\<lparr>v_stop := b\<rparr>)" "v1_rel s (s\<lparr>v_pause := b\<rparr>)" "v1_rel s (s\<lparr>v_running := r\<rparr>)" "v1_rel s (s\<lparr>v_buf := us\<rparr>)"
  "v1_rel s (s\<lparr>v_last_flush := l\<rparr>)" "v1_rel s (s\<lparr>v_flush_due := due\<rparr>)" "v1_rel s (s\<lparr>v_perf := p\<rparr>)"
  "v1_rel s (s\<lparr>v_polls := n\<rparr>)" "v1_rel s (s\<lparr>v_sleeps := n\<rparr>)" "v1_rel s (s\<lparr>v_rpcs := n\<rparr>)" "v1_rel s (s\<lparr>v_writes := n\<rparr>)"
  "v1_rel s (s\<lparr>v_metrics := ms\<rparr>)" "v1_rel s (v_clock_sleep late secs s)"
  using v_clock_sleep_now(1) [of s late secs] by (simp_all add: v1_rel_def v_now_def v_clock_sleep_def)

definition vrel :: "('a, 'd) vm \<Rightarrow> bool" where
  "vrel m = (\<forall>s. v1_rel s (snd (m s)))"

lemma vrelI: "(\<And>s. v1_rel s (snd (m s))) \<Longrightarrow> vrel m"
  by (simp add: vrel_def)

lemma vrelS: "vrel m \<Longrightarrow> v1_rel s (snd (m s))"
  by (simp add: vrel_def)

lemma vrelD: "vrel m \<Longrightarrow> m s = (r, s') \<Longrightarrow> v1_rel s s'"
  by (metis snd_conv vrel_def)

lemma vrel_basic [v1_intros]:
  "vrel (vreturn x)" "vrel (\<lambda>s. vreturn (f s) s)" "vrel (\<lambda>s. (Inl e, s))" "\<not> call_event ev \<Longrightarrow> vrel (vlog ev)"
  by (simp_all add: vrel_def vreturn_def vlog_def vmodify_def v1_rel_refl) (simp add: v1_rel_def)

lemma vrel_modify [v1_intros]: "(\<And>s. v1_rel s (f s)) \<Longrightarrow> vrel (vmodify f)"
  by (simp add: vrel_def vmodify_def)

lemma vrel_bind [v1_intros]: "vrel m \<Longrightarrow> (\<And>x. vrel (f x)) \<Longrightarrow> vrel (vbind m f)"
  by (auto simp: vrel_def vbind_def split: prod.splits sum.splits) (metis snd_conv v1_rel_trans)+

lemma vrel_if [v1_intros]: "vrel m \<Longrightarrow> vrel m' \<Longrightarrow> vrel (if b then m else m')"
  by simp

lemma v1_rel_db: "v1_rel s (s\<lparr>v_db := d\<rparr>)"
  by (simp add: v1_rel_def)

lemma write_op_v1_rel:
  fixes op :: "('a, 'd) store_op"
  shows "vrel (write_op_v1 env op)"
proof (rule vrelI)
  fix s :: "'d v1_state"
  let ?s1 = "v_elapse (fst (e_write env (v_writes s))) (s\<lparr>v_writes := v_writes s + 1\<rparr>)"
  have 1: "v1_rel s ?s1" unfolding v_elapse_def by (rule v1_rel_trans [OF v1_rel_frame(11) v1_rel_frame(13)])
  then show "v1_rel s (snd (write_op_v1 env op s))"
    using v1_rel_trans [OF 1 v1_rel_db] by (auto simp: write_op_v1_def Let_def split: prod.split option.split sum.split)
qed

lemma flush_raw_v1_rel: "vrel (flush_raw_v1 env j f)"
proof (rule vrelI)
  fix s
  have "vrel (vbind (write_op_v1 env (js_submit_update_items_batch env j us c)) (\<lambda>_. vmodify (\<lambda>s'. s'\<lparr>v_last_flush := v_monotonic env s'\<rparr>)))"
    for us c by (intro v1_intros write_op_v1_rel v1_rel_frame)
  then have "v1_rel s (snd (flush_now_v1 env j s))"
    unfolding flush_now_v1_def Let_def vrel_def by (blast intro: v1_rel_trans [OF v1_rel_frame(4) [of s "[]"]])
  then show "v1_rel s (snd (flush_raw_v1 env j f s))" by (simp add: flush_raw_v1_def v1_rel_refl)
qed

lemma run_due_v1_rel: "v1_rel s (run_due_v1 env j s)"
proof -
  have "v1_rel s (snd (flush_raw_v1 env j True s))" by (rule vrelS [OF flush_raw_v1_rel])
  from v1_rel_trans [OF this v1_rel_frame(6)] show ?thesis by (simp add: run_due_v1_def v1_rel_refl split: option.split)
qed

lemma then_due_v1_rel: "vrel m \<Longrightarrow> vrel (\<lambda>s. case m s of (r, s') \<Rightarrow> (r, run_due_v1 env j s'))"
  by (rule vrelI) (simp add: vrel_def split_beta v1_rel_trans [OF _ run_due_v1_rel])

lemma await_write_v1_rel: "vrel (await_write_v1 env j op)"
  using then_due_v1_rel [OF write_op_v1_rel] by (simp add: vrel_def await_write_v1_def)

lemma writes_v1_rel [v1_intros]:
  "vrel (flush_results env j f)" "vrel (set_account_state_v1 env j a st e)" "vrel (set_job_state_v1 env j st' w c cl)"
  "vrel (job_event_v1 env j l k m i)" "vrel (mark_retry_v1 env j cand n err r)"
proof -
  show "vrel (flush_results env j f)" using then_due_v1_rel [OF flush_raw_v1_rel] by (simp add: vrel_def flush_results_def)
  show "vrel (set_account_state_v1 env j a st e)" "vrel (set_job_state_v1 env j st' w c cl)"
    "vrel (job_event_v1 env j l k m i)" "vrel (mark_retry_v1 env j cand n err r)"
    unfolding set_account_state_v1_def set_job_state_v1_def job_event_v1_def mark_retry_v1_def
    by (intro v1_intros await_write_v1_rel; simp)+
qed

section \<open>Waiting\<close>

lemma control_state_rel:
  fixes s :: "'d v1_state"
  shows "v1_rel s (snd (control_state env s))"
proof -
  have "v1_rel t (fold apply_request_v1 rs t)" for rs and t :: "'d v1_state"
  proof (induction rs arbitrary: t)
    case (Cons r rs)
    have "v1_rel t (apply_request_v1 r t)" by (cases r) (simp_all add: apply_request_v1_def v1_rel_frame)
    then have "v1_rel t (fold apply_request_v1 rs (apply_request_v1 r t))" by (rule v1_rel_trans) (rule Cons.IH)
    then show ?case by simp
  qed (simp add: v1_rel_refl)
  from v1_rel_trans [OF v1_rel_frame(8) this] show ?thesis by (simp add: control_state_def Let_def)
qed

lemma nap_v1_rel: "v1_rel s (nap_v1 env j secs s)"
  unfolding nap_v1_def by (rule v1_rel_trans [OF v1_rel_trans [OF v1_rel_frame(13) v1_rel_frame(9)] run_due_v1_rel])

lemma controlled_loop_rel:
  "v1_rel s (snd (controlled_loop env j deadline s)) \<and>
   (fst (controlled_loop env j deadline s) = None \<longrightarrow> deadline \<le> v_now (snd (controlled_loop env j deadline s)))"
proof (induction env j deadline s rule: controlled_loop.induct)
  case (1 env j deadline s)
  obtain c s1 where p: "control_state env s = (c, s1)" by fastforce
  have s1: "v1_rel s s1" using control_state_rel [of s env] p by simp
  let ?s2 = "nap_v1 env j (min (1/4) (deadline - v_now s1)) s1"
  show ?case
  proof (cases "c = None \<and> \<not> deadline - v_now s1 \<le> 0")
    case True
    then have "v1_rel ?s2 (snd (controlled_loop env j deadline ?s2)) \<and>
        (fst (controlled_loop env j deadline ?s2) = None \<longrightarrow> deadline \<le> v_now (snd (controlled_loop env j deadline ?s2)))"
      using 1 p by simp
    moreover have "controlled_loop env j deadline s = controlled_loop env j deadline ?s2"
      using p True by (subst controlled_loop.simps) (simp add: Let_def)
    moreover have "v1_rel s ?s2" by (rule v1_rel_trans [OF s1 nap_v1_rel])
    ultimately show ?thesis using v1_rel_trans by metis
  next
    case False
    then show ?thesis using p s1 by (subst (1 2 3) controlled_loop.simps) (auto simp: Let_def split: option.split)
  qed
qed

lemma controlled_sleep_rel:
  assumes "controlled_sleep env j secs s = (c, s')"
  shows "v1_rel s s'" and "c = None \<Longrightarrow> v_now s + max 0 secs \<le> v_now s'"
proof -
  have poll: "v1_rel t s'" "v_now s' = v_now t" if "control_state env t = (c, s')" for t
    using control_state_rel [of t env] control_state_now [OF that] that by simp_all
  have nap: "v1_rel s (nap_v1 env j (max 0 secs) s)" "v_now s + max 0 secs \<le> v_now (nap_v1 env j (max 0 secs) s)"
    by (rule nap_v1_rel nap_v1_now)+
  have loop: "v1_rel s s'" "c = None \<Longrightarrow> t \<le> v_now s'" if "controlled_loop env j t s = (c, s')" for t
    using controlled_loop_rel [of s env j t] that by simp_all
  show "v1_rel s s'"
    using assms poll(1) v1_rel_trans [OF nap(1) poll(1)] loop(1) by (auto simp: controlled_sleep_def Let_def split: if_splits)
  show "v_now s + max 0 secs \<le> v_now s'" if "c = None"
    using assms poll(2) nap(2) loop(2) [OF _ that] by (fastforce simp: controlled_sleep_def Let_def split: if_splits)
qed

lemma vsleep_rel [v1_intros]: "vrel (vsleep env j f)" "vrel (wait_scheduler env j)"
proof -
  show 1: "vrel (vsleep env j f)" for f
    by (rule vrelI) (auto simp: vsleep_def split: prod.split dest: controlled_sleep_rel(1))
  show "vrel (wait_scheduler env j)" unfolding wait_scheduler_def by (rule 1)
qed

lemma wait_scheduler_due:
  assumes "wait_scheduler env j s = (Inr None, s')"
  shows "(case s1_last_attempt (v_sched s') of None \<Rightarrow> True | Some t \<Rightarrow> t + s1_interval (v_sched s') \<le> v_now s') \<and>
    s1_server_wait_until (v_sched s') \<le> v_now s'"
proof -
  obtain c where sl: "controlled_sleep env j (remaining_delay_v1 (v_sched s)) s = (c, s')" and c: "c = None"
    using assms by (auto simp: wait_scheduler_def vsleep_def split: prod.splits)
  have rel: "v1_rel s s'" by (rule controlled_sleep_rel(1) [OF sl])
  have "v_now s + remaining_delay_v1 (v_sched s) \<le> v_now s'"
    using controlled_sleep_rel(2) [OF sl c] by simp
  then show ?thesis
    using rel remaining_delay_v1_bounds [of "v_sched s"] by (fastforce simp: v1_rel_def v_now_def split: option.split)
qed

lemma handle_control_rel [v1_intros]: "vrel (handle_control_v1 env j a c)"
proof -
  have "vrel (\<lambda>s. set_account_state_v1 env j a (f s) e s)" for f e by (rule vrelI) (rule vrelS [OF writes_v1_rel(2)])
  then show ?thesis
    unfolding handle_control_v1_def by (auto split: option.split control.split intro!: v1_intros)
qed

lemma handle_control_goes: "handle_control_v1 env j a c s = (Inr False, s') \<Longrightarrow> c = None \<and> s' = s"
proof -
  have "handle_control_v1 env j a (Some c') s \<noteq> (Inr False, s')" for c'
    by (cases c') (auto simp: handle_control_v1_def vbind_def vreturn_def split: prod.splits sum.splits)
  then show "handle_control_v1 env j a c s = (Inr False, s') \<Longrightarrow> c = None \<and> s' = s"
    by (cases c) (auto simp: handle_control_v1_def vreturn_def)
qed

section \<open>The invariant\<close>

definition v1_inv :: "seconds \<Rightarrow> 'd v1_state \<Rightarrow> bool" where
  "v1_inv i s \<longleftrightarrow>
     paced_v1 i None 0 (v_trace s) \<and> s1_interval (v_sched s) = i \<and>
     fst (memory_v1 (None, 0) (v_trace s)) = s1_last_attempt (v_sched s) \<and>
     snd (memory_v1 (None, 0) (v_trace s)) \<le> s1_server_wait_until (v_sched s)"

lemma v1_inv_rel: "v1_rel s s' \<Longrightarrow> v1_inv i s \<Longrightarrow> v1_inv i s'"
  using paced_calls [of i None 0 "v_trace s"] paced_calls [of i None 0 "v_trace s'"]
    memory_calls [of "(None, 0)" "v_trace s"] memory_calls [of "(None, 0)" "v_trace s'"]
  by (auto simp: v1_inv_def v1_rel_def)

definition vkeeps :: "('a, 'd) vm \<Rightarrow> bool" where
  "vkeeps m = (\<forall>i s. v1_inv i s \<longrightarrow> v1_inv i (snd (m s)))"

lemma vkeeps_rel: "vrel m \<Longrightarrow> vkeeps m"
  unfolding vkeeps_def vrel_def using v1_inv_rel by blast

lemma vkeepsD: "vkeeps m \<Longrightarrow> m s = (r, s') \<Longrightarrow> v1_inv i s \<Longrightarrow> v1_inv i s'"
  by (metis snd_conv vkeeps_def)

text \<open>A server wait is remembered by the scheduler before it shows in the trace.\<close>

lemma rate_limit_keeps:
  fixes env :: "'d v1_env"
  shows "vkeeps (rate_limit_v1 env j a cand n t e)"
proof -
  define wait where "wait = max 0 (case cr_wait_seconds (classify_v1 (Some e)) of None \<Rightarrow> 0 | Some w \<Rightarrow> w)"
  have gate: "vkeeps (vbind (vmodify (\<lambda>s. s\<lparr>v_sched := apply_server_wait_v1 (of_int wait) (v_sched s)\<rparr>)) (\<lambda>_.
      vbind (\<lambda>s. vlog (V_gate (v_now s + of_int wait)) s) rest))" if "vrel (rest ())" for rest :: "unit \<Rightarrow> (attempt_next, 'd) vm"
  proof (unfold vkeeps_def, intro allI impI)
    fix i and s :: "'d v1_state" assume inv: "v1_inv i s"
    let ?s1 = "s\<lparr>v_sched := apply_server_wait_v1 (of_int wait) (v_sched s),
        v_trace := v_trace s @ [V_gate (v_now s + of_int wait)]\<rparr>"
    have "0 \<le> wait" by (simp add: wait_def)
    then have "v1_inv i ?s1"
      using inv by (auto simp: v1_inv_def paced_append memory_append apply_server_wait_v1_def v_now_def)
    moreover have "vbind (vmodify (\<lambda>s. s\<lparr>v_sched := apply_server_wait_v1 (of_int wait) (v_sched s)\<rparr>)) (\<lambda>_.
      vbind (\<lambda>s. vlog (V_gate (v_now s + of_int wait)) s) rest) s = rest () ?s1"
      by (simp add: vbind_def vmodify_def vlog_def v_now_def apply_server_wait_v1_def)
    ultimately show "v1_inv i (snd (vbind (vmodify (\<lambda>s. s\<lparr>v_sched := apply_server_wait_v1 (of_int wait) (v_sched s)\<rparr>)) (\<lambda>_.
      vbind (\<lambda>s. vlog (V_gate (v_now s + of_int wait)) s) rest) s))"
      using vkeeps_rel [OF that] by (simp add: vkeeps_def)
  qed
  show ?thesis
    unfolding rate_limit_v1_def Let_def wait_def [symmetric] by (rule gate) (intro v1_intros; simp)
qed

lemma reply_keeps: "vkeeps (reply_v1 env j a cand n t r)"
proof -
  have "vrel (pause_current_candidate env j a cand n e)" "vrel (transient_v1 env j a cand n t e)" for e
    unfolding pause_current_candidate_def transient_v1_def Let_def by (intro v1_intros; simp)+
  then show ?thesis
    unfolding reply_v1_def Let_def
    by (auto split: option.split intro!: rate_limit_keeps vkeeps_rel v1_intros)
qed

text \<open>The call itself, made when it is due.\<close>

lemma call_keeps_v1:
  assumes "v1_inv i s" "(case s1_last_attempt (v_sched s) of None \<Rightarrow> True | Some t \<Rightarrow> t + i \<le> v_now s)"
    and "s1_server_wait_until (v_sched s) \<le> v_now s"
  shows "v1_inv i (snd (rpc_v1 env j m (s\<lparr>v_sched := mark_attempt_v1 (v_sched s)\<rparr>)))"
proof -
  let ?s0 = "s\<lparr>v_sched := mark_attempt_v1 (v_sched s)\<rparr>"
  let ?s1 = "?s0\<lparr>v_trace := v_trace s @ [V_rpc (mb_telegram_user_id m) (v_now s)]\<rparr>"
  have now: "v_now ?s0 = v_now s" by (simp add: v_now_def mark_attempt_v1_def)
  have "v1_inv i ?s1"
    using assms by (auto simp: v1_inv_def paced_append memory_append mark_attempt_v1_def v_now_def split: option.splits)
  moreover have "v1_rel ?s1 (snd (rpc_v1 env j m ?s0))"
  proof -
    have 1: "v1_rel ?s1 (run_due_v1 env j (v_elapse d (?s1\<lparr>v_rpcs := k\<rparr>)))" for d k
      unfolding v_elapse_def by (rule v1_rel_trans [OF v1_rel_trans [OF v1_rel_frame(10) v1_rel_frame(13)] run_due_v1_rel])
    show ?thesis using 1 v1_rel_trans [OF 1 v1_rel_frame(12)] by (simp add: rpc_v1_def Let_def now)
  qed
  ultimately show ?thesis by (rule v1_inv_rel [rotated])
qed

lemma attempt_step_v1_keeps:
  fixes env :: "'d v1_env"
  shows "vkeeps (attempt_step_v1 env j a cand n t)"
proof (unfold vkeeps_def, intro allI impI)
  fix i and s :: "'d v1_state" assume inv: "v1_inv i s"
  obtain r1 s1 where w: "wait_scheduler env j s = (r1, s1)" by fastforce
  have s1: "v1_inv i s1" using vkeepsD [OF vkeeps_rel [OF vsleep_rel(2)] w inv] .
  obtain c where r1: "r1 = Inr c" using w by (auto simp: wait_scheduler_def vsleep_def split: prod.splits)
  obtain r2 s2 where h: "handle_control_v1 env j a c s1 = (r2, s2)" by fastforce
  have s2: "v1_inv i s2" using vkeepsD [OF vkeeps_rel [OF handle_control_rel] h s1] .
  show "v1_inv i (snd (attempt_step_v1 env j a cand n t s))"
  proof (cases "r2 = Inr False")
    case False
    then show ?thesis using w r1 h s2
      by (cases r2) (auto simp: attempt_step_v1_def vbind_def vreturn_def)
  next
    case True
    then have c: "c = None" "s2 = s1" using handle_control_goes h by blast+
    obtain r3 s3 where rp: "rpc_v1 env j (cd_member cand) (s1\<lparr>v_sched := mark_attempt_v1 (v_sched s1)\<rparr>) = (r3, s3)" by fastforce
    have iv: "s1_interval (v_sched s1) = i" using s1 by (simp add: v1_inv_def)
    have "wait_scheduler env j s = (Inr None, s1)" using w r1 c by simp
    note due = wait_scheduler_due [OF this, unfolded iv]
    have "v1_inv i s3" using call_keeps_v1 [OF s1 conjunct1 [OF due] conjunct2 [OF due], of env j "cd_member cand"] rp by simp
    moreover have "attempt_step_v1 env j a cand n t s =
        vbind (rpc_v1 env j (cd_member cand)) (reply_v1 env j a cand (n + 1) t) (s1\<lparr>v_sched := mark_attempt_v1 (v_sched s1)\<rparr>)"
      using w r1 h True c by (simp add: attempt_step_v1_def vbind_def vmodify_def)
    moreover have "v1_inv i (snd (reply_v1 env j a cand (n + 1) t x u))" if "v1_inv i u" for x u
      using reply_keeps [of env j a cand "n + 1" t x] that by (simp add: vkeeps_def)
    ultimately show ?thesis using rp by (auto simp: vbind_def split: sum.split)
  qed
qed

section \<open>Runs\<close>

lemma attempt_loop_v1_keeps: "v1_inv i s \<Longrightarrow> v1_inv i (snd (attempt_loop_v1 fuel env j a cand n t s))"
proof (induction fuel arbitrary: n t s)
  case (Suc fuel)
  obtain x s1 where step: "attempt_step_v1 env j a cand n t s = (x, s1)" by fastforce
  have "v1_inv i s1" using vkeepsD [OF attempt_step_v1_keeps step Suc.prems] .
  then show ?case using Suc.IH step by (auto split: sum.split attempt_next.split)
qed simp

lemma attempt_candidate_keeps: "v1_inv i s \<Longrightarrow> v1_inv i (snd (attempt_candidate fuel env j a cand s))"
  by (simp add: attempt_candidate_def attempt_loop_v1_keeps)

lemma record_result_v1_rel: "vrel (record_result_v1 env j u b)"
  unfolding record_result_v1_def
  by (intro v1_intros; (simp add: schedule_result_flush_def v1_rel_frame v1_rel_refl)?)

lemma run_loop_v1_keeps: "v1_inv i s \<Longrightarrow> v1_inv i (snd (run_loop_v1 n fuel env j a b s))"
proof (induction n arbitrary: b s)
  case (Suc n)
  obtain c s0 where p: "control_state env s = (c, s0)" by fastforce
  obtain h s1 where h: "handle_control_v1 env j a c s0 = (h, s1)" by fastforce
  have "v1_inv i s0" using v1_inv_rel [OF control_state_rel Suc.prems, of env] p by simp
  then have s1: "v1_inv i s1" using vkeepsD [OF vkeeps_rel [OF handle_control_rel] h] by blast
  obtain x b1 where pop: "pop_v1 env (v_db s1) b = (x, b1)" by fastforce
  have at: "v1_inv i s2" if "attempt_candidate fuel env j a cand s1 = (y, s2)" for cand y s2
    using attempt_candidate_keeps [OF s1, of fuel env j a cand] that by simp
  have rest: "v1_inv i s3" if "record_result_v1 env j u b1 s2 = (z, s3)" "attempt_candidate fuel env j a cand s1 = (y, s2)" for u z s3 cand y s2
    using v1_inv_rel [OF vrelD [OF record_result_v1_rel that(1)] at [OF that(2)]] .
  show ?case using p h pop s1 at rest Suc.IH
    by (auto split: sum.split bool.split option.split prod.split)
qed simp

lemma ends_rel: "vrel (complete_run_v1 env j a)" "vrel (fail_run_v1 env j a e)" "vrel (begin_run_v1 env j a)"
proof -
  have "vrel (\<lambda>s. job_event_v1 env j l k (f s) i s)" for l k f i by (rule vrelI) (rule vrelS [OF writes_v1_rel(4)])
  then show "vrel (complete_run_v1 env j a)" "vrel (fail_run_v1 env j a e)" "vrel (begin_run_v1 env j a)"
    unfolding complete_run_v1_def fail_run_v1_def begin_run_v1_def Let_def by (intro v1_intros; simp)+
qed

lemma end_run_v1_keeps:
  fixes s :: "'d v1_state"
  assumes "v1_inv i s"
  shows "v1_inv i (snd (end_run_v1 env j a r s))"
proof -
  have fin: "v1_inv i (finish_run_v1 t)" if "v1_inv i t" for t :: "'d v1_state"
    using that by (simp add: v1_inv_def finish_run_v1_def)
  have complete: "v1_inv i t" if "complete_run_v1 env j a s = (x, t)" for x t
    by (rule vkeepsD [OF vkeeps_rel [OF ends_rel(1)] that assms])
  have fail: "v1_inv i u" if "fail_run_v1 env j a e t = (x, u)" "v1_inv i t" for e x t u
    by (rule vkeepsD [OF vkeeps_rel [OF ends_rel(2)] that])
  show ?thesis using assms fin complete fail
    by (auto simp: end_run_v1_def Let_def split: sum.splits prod.splits)
qed

text \<open>
  C15. The V1 executor is paced as well.  Whatever Telegram, the user and the stores do, and wherever a
  run of a new executor is cut off or ends, it has called Telegram only an interval after its
  previous call and never before a deadline the server had set, the interval being one its scheduler
  accepts.
\<close>

theorem run_v1_paced:
  assumes "InviteScheduler_v1 lo hi i clk = Inr (v_sched s)" "v_trace s = []"
  shows "lo \<le> i \<and> i \<le> hi \<and> paced_v1 i None 0 (v_trace (snd (run_v1 n fuel env j a s)))"
proof -
  have i: "lo \<le> i" "i \<le> hi"
    and sched: "v_sched s = \<lparr>s1_interval = i, s1_clock = clk, s1_last_attempt = None, s1_server_wait_until = 0\<rparr>"
    using assms(1) by (auto simp: InviteScheduler_v1_def split: if_splits)
  have inv: "v1_inv i s" using assms(2) by (simp add: v1_inv_def sched)
  obtain x s1 where b: "begin_run_v1 env j a (start_run_v1 env j s) = (x, s1)" by fastforce
  have "v1_inv i (start_run_v1 env j s)" using inv by (simp add: v1_inv_def start_run_v1_def)
  then have s1: "v1_inv i s1" using vkeepsD [OF vkeeps_rel [OF ends_rel(3)] b] by blast
  let ?s1 = "run_due_v1 env j (v_elapse (e_lock env) s1)"
  have "v1_rel s1 ?s1"
    unfolding v_elapse_def by (rule v1_rel_trans [OF v1_rel_frame(13) run_due_v1_rel])
  note loop = run_loop_v1_keeps [OF v1_inv_rel [OF this s1], of n fuel env j a]
  have "v1_inv i (snd (end_run_v1 env j a r t))" if "v1_inv i t" for r t by (rule end_run_v1_keeps [OF that])
  then have "v1_inv i (snd (run_v1 n fuel env j a s))"
    using inv b s1 loop
    by (auto simp: run_v1_def Let_def split: sum.split option.split prod.split) (metis snd_conv)+
  with i show ?thesis by (simp add: v1_inv_def)
qed

section \<open>A run that is told to wait\<close>

text \<open>
  A store that holds two candidates and takes every write, constants for it, and a Telegram that
  answers the second call with a wait of half a minute.
\<close>

definition two_rows :: "pending_row list" where
  "two_rows = map (\<lambda>k. \<lparr>pr_ordinal = k, pr_member_id = k, pr_attempt_count = 0, pr_telegram_user_id = Some (100 + k), pr_username = None,
     pr_first_name = None, pr_last_name = None, pr_phone = None, pr_bot = False, pr_deleted = False, pr_activity_status = None,
     pr_last_seen = None, pr_account_access_hash = Some (k + 1)\<rparr>) [0, 1]"

definition flood_env :: "unit v1_env" where
  "flood_env =
     \<lparr>e_rpc = (\<lambda>n. (0, if n = 1 then Some \<lparr>ex_type = ''FloodWaitError'', ex_text = ''wait'', ex_seconds = Some 30, ex_value = None,
        ex_oserror = False\<rparr> else None)),
      e_req = (\<lambda>_. []), e_late = (\<lambda>_. 0), e_utc = (\<lambda>_. 0), e_write = (\<lambda>_. (0, None)), e_mono = (\<lambda>_. 0),
      e_lock = 0, e_metrics = False,
      js_submit_set_state = (\<lambda>_ _ _ _ _ d. Inr ((), d)), js_submit_update_items_batch = (\<lambda>_ _ _ d. Inr ((), d)),
      js_submit_mark_retry = (\<lambda>_ _ _ _ _ _ d. Inr ((), d)), js_submit_event = (\<lambda>_ _ _ _ _ d. Inr ((), d)),
      js_summary = (\<lambda>_ _. \<lparr>sm_total = 2, sm_processed = 2, sm_success = 2, sm_skipped = 0, sm_failed = 0\<rparr>),
      js_pending_chunk = (\<lambda>_ _ lo _ _. filter (\<lambda>r. lo < pr_ordinal r) two_rows),
      as_set_state = (\<lambda>_ _ _ d. Inr ((), d)),
      k_DB_BATCH_SIZE = 25, k_DB_MAX_FLUSH_SECONDS = 1, k_TRANSIENT_RETRY_DELAYS = [1, 2, 4], k_PREFETCH_MIN = 200,
      k_PREFETCH_MAX = 500\<rparr>"

definition sample_v1_state :: "unit v1_state" where
  "sample_v1_state =
     \<lparr>v_db = (),
      v_sched = \<lparr>s1_interval = 5, s1_clock = \<lparr>clk_kind = FakeClock, clk_now = 0\<rparr>, s1_last_attempt = None,
                 s1_server_wait_until = 0\<rparr>,
      v_stop = False, v_pause = False, v_running = None, v_buf = [], v_last_flush = 0, v_flush_due = None,
      v_perf = 0, v_polls = 0, v_sleeps = 0, v_rpcs = 0, v_writes = 0, v_metrics = [], v_trace = []\<rparr>"

text \<open>The states of this run: the counters, the time, the memory of the scheduler, the results and the trace.\<close>

definition flood_state ::
  "nat \<Rightarrow> nat \<Rightarrow> nat \<Rightarrow> nat \<Rightarrow> seconds \<Rightarrow> seconds option \<Rightarrow> seconds \<Rightarrow> item_update list \<Rightarrow> trace_v1 list \<Rightarrow> unit v1_state" where
  "flood_state w p sl r t la su buf tr =
     \<lparr>v_db = (), v_sched = \<lparr>s1_interval = 5, s1_clock = \<lparr>clk_kind = FakeClock, clk_now = t\<rparr>, s1_last_attempt = la,
        s1_server_wait_until = su\<rparr>,
      v_stop = False, v_pause = False, v_running = Some 1, v_buf = buf, v_last_flush = 0, v_flush_due = None,
      v_perf = 1, v_polls = p, v_sleeps = sl, v_rpcs = r, v_writes = w, v_metrics = [], v_trace = tr\<rparr>"

lemma flood_fields:
  "e_rpc flood_env n = (0, if n = 1 then Some \<lparr>ex_type = ''FloodWaitError'', ex_text = ''wait'', ex_seconds = Some 30, ex_value = None,
     ex_oserror = False\<rparr> else None)"
  "e_req flood_env n = []" "e_late flood_env n = 0" "e_utc flood_env t = 0" "e_write flood_env n = (0, None)" "e_mono flood_env n = 0"
  "e_lock flood_env = 0" "\<not> e_metrics flood_env" "js_submit_set_state flood_env j st wu c cl () = Inr ((), ())"
  "js_submit_update_items_batch flood_env j us c () = Inr ((), ())" "js_submit_mark_retry flood_env j o1 n1 ec et nx () = Inr ((), ())"
  "js_submit_event flood_env j l k m i () = Inr ((), ())" "as_set_state flood_env a ast e () = Inr ((), ())"
  "k_DB_BATCH_SIZE flood_env = 25" "k_DB_MAX_FLUSH_SECONDS flood_env = 1"
  by (simp_all add: flood_env_def)

lemma flood_write:
  assumes "op () = Inr ((), ())"
  shows "await_write_v1 flood_env j op (flood_state w p sl r t la su buf tr) = (Inr (), flood_state (Suc w) p sl r t la su buf tr)"
  using assms
  by (simp add: await_write_v1_def write_op_v1_def flood_fields flood_state_def v_elapse_def v_clock_sleep_def clock_sleep_def
      run_due_v1_def Let_def)

lemma flood_trace:
  "v_trace (flood_state w p sl r t la su buf tr) = tr"
  "(flood_state w p sl r t la su buf tr)\<lparr>v_trace := tr'\<rparr> = flood_state w p sl r t la su buf tr'"
  by (simp_all add: flood_state_def)

lemma flood_writes:
  "set_account_state_v1 flood_env j a ast e (flood_state w p sl r t la su buf tr) =
     (Inr (), flood_state (Suc w) p sl r t la su buf (tr @ [V_account a ast e]))"
  "set_job_state_v1 flood_env j st wu c cl (flood_state w p sl r t la su buf tr) =
     (Inr (), flood_state (Suc w) p sl r t la su buf (tr @ [V_job j st wu]))"
  "job_event_v1 flood_env j l k m i (flood_state w p sl r t la su buf tr) = (Inr (), flood_state (Suc w) p sl r t la su buf tr)"
  "mark_retry_v1 flood_env j cand n err nx (flood_state w p sl r t la su buf tr) = (Inr (), flood_state (Suc w) p sl r t la su buf tr)"
  by (simp_all add: set_account_state_v1_def set_job_state_v1_def job_event_v1_def mark_retry_v1_def flood_fields flood_write
      vbind_def vlog_def vmodify_def flood_trace)

lemma flood_flush:
  "flush_results flood_env j True (flood_state w p sl r t la su buf tr) =
     (Inr (), flood_state (if buf = [] then w else Suc w) p sl r t la su [] tr)"
  "length buf < 25 \<Longrightarrow> flush_results flood_env j False (flood_state w p sl r t la su buf tr) = (Inr (), flood_state w p sl r t la su buf tr)"
  by (simp_all add: flush_results_def flush_raw_v1_def flush_now_v1_def write_op_v1_def flood_fields flood_state_def vbind_def
      vmodify_def v_monotonic_def v_real_def v_elapse_def v_clock_sleep_def clock_sleep_def run_due_v1_def Let_def)

lemma flood_wait:
  "control_state flood_env (flood_state w p sl r t la su buf tr) = (None, flood_state w (Suc p) sl r t la su buf tr)"
  "wait_scheduler flood_env j (flood_state w p sl r t la su buf tr) =
     (let delay = max 0 (max (case la of None \<Rightarrow> t | Some x \<Rightarrow> x + 5) su - t) in
      (Inr None, if delay \<le> 0 then flood_state w (Suc p) sl r t la su buf tr
                 else flood_state w (Suc p) (Suc sl) r (t + delay) la su buf tr))"
  by (cases la, simp_all add: control_state_def wait_scheduler_def vsleep_def controlled_sleep_def remaining_delay_v1_def nap_v1_def
      v_clock_sleep_def clock_sleep_def run_due_v1_def v_real_def flood_fields flood_state_def clock_monotonic_def Let_def)+

definition flood_error :: domain_error where
  "flood_error = err_map_v1 \<lparr>ex_type = ''FloodWaitError'', ex_text = ''wait'', ex_seconds = Some 30, ex_value = None, ex_oserror = False\<rparr>"

lemma flood_error_class: "de_code flood_error = RATE_LIMIT" "cr_wait_seconds (classify_v1 (Some flood_error)) = Some 30"
  by code_simp+

lemma flood_rpc:
  "rpc_v1 flood_env j m (flood_state w p sl r t la su buf tr) =
     (Inr (if r = 1 then Some flood_error else None),
      flood_state w p sl (Suc r) t la su buf (tr @ [V_rpc (mb_telegram_user_id m) t]))"
  by (simp add: rpc_v1_def rpc_error_v1_def flood_fields flood_state_def flood_error_def v_elapse_def v_clock_sleep_def clock_sleep_def
      run_due_v1_def v_now_def clock_monotonic_def Let_def)

lemma flood_marks:
  "(flood_state w p sl r t la su buf tr)\<lparr>v_sched := mark_attempt_v1 (v_sched (flood_state w p sl r t la su buf tr))\<rparr> =
     flood_state w p sl r t (Some t) su buf tr"
  "(flood_state w p sl r t la su buf tr)\<lparr>v_sched := apply_server_wait_v1 secs (v_sched (flood_state w p sl r t la su buf tr))\<rparr> =
     flood_state w p sl r t la (max su (t + max 0 secs)) buf tr"
  "v_now (flood_state w p sl r t la su buf tr) = t"
  "(flood_state w p sl r t la su buf tr)\<lparr>v_buf := buf'\<rparr> = flood_state w p sl r t la su buf' tr"
  "v_buf (flood_state w p sl r t la su buf tr) = buf" "v_db (flood_state w p sl r t la su buf tr) = ()"
  "schedule_result_flush flood_env (flood_state w p sl r t la su buf tr) = flood_state w p sl r t la su buf tr"
  "run_due_v1 flood_env j (v_elapse 0 (flood_state w p sl r t la su buf tr)) = flood_state w p sl r t la su buf tr"
  by (simp_all add: flood_state_def mark_attempt_v1_def apply_server_wait_v1_def v_now_def clock_monotonic_def
      schedule_result_flush_def v_real_def run_due_v1_def v_elapse_def v_clock_sleep_def clock_sleep_def)

lemma vbind_weak: "m = m' \<Longrightarrow> s = s' \<Longrightarrow> vbind m f s = vbind m' f s'"
  by simp

lemmas flood_eval = vbind_def vreturn_def vmodify_def vlog_def flood_trace flood_writes flood_flush flood_wait flood_rpc flood_marks flood_error_class

lemma sample_flood_begins:
  "begin_run_v1 flood_env 1 1 (start_run_v1 flood_env 1 sample_v1_state) =
     (Inr (), flood_state 3 0 0 0 0 None 0 [] [V_job 1 JS_RUNNING None, V_account 1 AS_BUSY None, V_started 1 1])"
proof -
  have "start_run_v1 flood_env 1 sample_v1_state = flood_state 0 0 0 0 0 None 0 [] []"
    by (simp add: start_run_v1_def sample_v1_state_def flood_state_def flood_fields v_monotonic_def v_real_def)
  then show ?thesis by (simp add: begin_run_v1_def flood_eval eval_nat_numeral cong: vbind_weak)
qed

definition flood_buffer :: "int list \<Rightarrow> cand_buffer" where
  "flood_buffer ks =
     \<lparr>cb_job_id = 1, cb_account_id = 1, cb_chunk_size = 200, cb_low_watermark = 50,
      cb_queue = map (\<lambda>k. row_candidate (two_rows ! nat k)) ks, cb_last_loaded = 1,
      cb_loading = (if length ks < 2 then Some (1, 200) else None), cb_exhausted = False\<rparr>"

lemma flood_pops:
  "prime_v1 flood_env () (CandidateBuffer_v1 flood_env 1 1) = flood_buffer [0, 1]"
  "pop_v1 flood_env () (flood_buffer [0, 1]) = (Some (row_candidate (two_rows ! 0)), flood_buffer [1])"
  "pop_v1 flood_env () (flood_buffer [1]) = (Some (row_candidate (two_rows ! Suc 0)), flood_buffer [])"
  "fst (pop_v1 flood_env () (flood_buffer [])) = None"
  by code_simp+

lemma flood_ids:
  "mb_telegram_user_id (cd_member (row_candidate (two_rows ! 0))) = Some 100" "mb_access_hash (cd_member (row_candidate (two_rows ! 0))) = Some 1"
  "mb_telegram_user_id (cd_member (row_candidate (two_rows ! Suc 0))) = Some 101" "mb_access_hash (cd_member (row_candidate (two_rows ! Suc 0))) = Some 2"
  by (simp_all add: two_rows_def row_candidate_def)

lemma sample_flood_calls:
  "fst (run_v1 3 3 flood_env 1 1 sample_v1_state) = Some (Inr ()) \<and>
   filter call_event (v_trace (snd (run_v1 3 3 flood_env 1 1 sample_v1_state))) =
     [V_rpc (Some 100) 0, V_rpc (Some 101) 5, V_gate 35, V_rpc (Some 101) 35]"
proof -
  have "v_running sample_v1_state = None" by (simp add: sample_v1_state_def)
  moreover have "v_trace (finish_run_v1 s) = v_trace s" for s :: "unit v1_state" by (simp add: finish_run_v1_def)
  moreover obtain b where "pop_v1 flood_env () (flood_buffer []) = (None, b)"
    using flood_pops(4) by (cases "pop_v1 flood_env () (flood_buffer [])") simp
  ultimately show ?thesis
    by (simp add: run_v1_def sample_flood_begins flood_eval flood_pops flood_ids flood_fields numeral_3_eq_3 attempt_candidate_def
        attempt_step_v1_def handle_control_v1_def reply_v1_def rate_limit_v1_def record_result_v1_def end_run_v1_def
        complete_run_v1_def Let_def cong: vbind_weak)
qed

theorem run_v1_paced_witness:
  "fst (run_v1 3 3 flood_env 1 1 sample_v1_state) = Some (Inr ()) \<and>
   filter call_event (v_trace (snd (run_v1 3 3 flood_env 1 1 sample_v1_state))) =
     [V_rpc (Some 100) 0, V_rpc (Some 101) 5, V_gate 35, V_rpc (Some 101) 35] \<and>
   paced_v1 5 None 0 (v_trace (snd (run_v1 3 3 flood_env 1 1 sample_v1_state)))"
proof -
  have "InviteScheduler_v1 3 8 5 \<lparr>clk_kind = FakeClock, clk_now = 0\<rparr> = Inr (v_sched sample_v1_state)"
    by (simp add: InviteScheduler_v1_def sample_v1_state_def)
  moreover have "v_trace sample_v1_state = []" by (simp add: sample_v1_state_def)
  ultimately show ?thesis using run_v1_paced sample_flood_calls by blast
qed

end
