(* ===== verification/Spec2Isabelle.thy ===== *)
theory Spec2Isabelle
  imports Executor_Pacing Recovery App_Invariant Scanner Import_Export State_Store Db_Writer Startup
    Pages Executor_V1_Pacing
begin

text \<open>
  \<^bold>\<open>Telegram Migration Studio\<close>: a desktop program that collects the members of Telegram groups into
  local datasets and invites them, or removes them, group by group, at a pace Telegram tolerates.  This
  development models the program of \<open>src/src/tms\<close> (version 1.2), and of the older tree directly under
  \<open>src/\<close> (version 1) the parts that differ and matter: the executor, the planner, the scheduler, the error
  policy, the client manager and the database migrations.

  \<^bold>\<open>The parts and how they interact.\<close>  The user interface sends commands over a bus to
  \<open>runtime/command_handlers.py\<close>.  A handler checks its guards against the shared snapshot
  (\<open>runtime/state_store.py\<close>) and the database, and submits work either to a pool of worker threads or to
  the one network loop; callbacks publish events and update the snapshot.  All writes go through one writer
  thread (\<open>runtime/db_writer.py\<close>), which batches them into transactions on a SQLite database
  (\<open>storage/\<close>, and the repositories of \<open>accounts/ groups/ members/ datasets/ jobs/\<close>).  On the network
  loop, the gateway (\<open>telegram/\<close>) talks to Telegram through one client per account; the scanner feeds
  participant pages through a bounded queue into a dataset; the planner turns a dataset into a job with
  ordered items; the executor (\<open>migration/executor.py\<close>) works through the items, one request at a time,
  paced by the scheduler, and records results in batches.  A start (\<open>bootstrap.py\<close>, \<open>main.py\<close>) opens
  settings and database, builds the services and pauses the jobs the last session left running.

  \<^bold>\<open>Conventions.\<close>  A Python \<open>int\<close> is \<^typ>\<open>int\<close>, a float that is a time or an interval is a rational, a text is a
  \<^typ>\<open>string\<close>, a dictionary an association list in insertion order.  Exceptions are the left side of a
  sum.  A transaction is a function from a database to an error or a result with a new database, so that a
  failed one has no effect; a service that commits several is a \<open>dbprog\<close>, whose effect survives a later
  error.  Coroutines pass an explicit state.  The repositories and constants that the version 1 tree imports
  but does not contain are arguments of its definitions.  Everything the program does not decide is an argument: the
  answers of Telegram, the latencies, the failures of writes, the requests of the user and the contents of
  files; the theorems hold for all of them unless they say otherwise.

  \<^bold>\<open>Foundations.\<close>
  \<^item> \<open>Prelude\<close>: errors and results, Python's string methods, dictionaries, list lemmas.
  \<^item> \<open>Core_Types\<close>: \<open>core/\<close> (enumerations, constants, clock) and \<open>jobs/state_machine.py\<close>.
  \<^item> \<open>Storage\<close>, \<open>Statements\<close>, \<open>Programs\<close>: the tables, keys and references of \<open>storage/schema.sql\<close>, the
    invariant \<open>db_wf\<close> that all of them hold, the SQL statements with their constraint errors and cascades,
    and programs of several transactions.  Every statement keeps \<open>db_wf\<close>.
  \<^item> \<open>Database_Init\<close>: \<open>storage/database.py\<close> of both versions; files of earlier versions are upgraded
    to a well-formed database and opening twice is opening once.
  \<^item> \<open>Keyed_Store\<close>: the locale of a store in which a read returns the last write of its key, interpreted on
    dictionaries, the peer cache and the command bus.

  \<^bold>\<open>Policy and pacing.\<close>
  \<^item> \<open>Error_Policy\<close>: \<open>telegram/error_mapper.py\<close> and \<open>migration/result_classifier.py\<close> of both versions:
    a known wait is obeyed exactly, an unknown one pauses; where the versions agree.
  \<^item> \<open>Scheduler\<close>: \<open>migration/scheduler.py\<close> of both versions over one locale \<open>pacer\<close>: the interval stays
    in bounds and no attempt is early; version 1.2 does what version 1 does, over the same bounds.

  \<^bold>\<open>Repositories.\<close>
  \<^item> \<open>Job_Store\<close>, \<open>Account_Store\<close>, \<open>Members\<close>, \<open>Member_Store\<close>, \<open>Dataset_Store\<close>, \<open>Group_Store\<close>,
    \<open>Peer_Cache\<close>: one theory per package; every operation with its success and error branches, that it
    keeps the schema, and its contract (counters equal counts, one row per identity, the SQL of a dataset
    operation is the set operation, what was saved is what is loaded).
  \<^item> \<open>Import_Export\<close>: \<open>import_export/service.py\<close> on parsed cells.
  \<^item> \<open>Db_Writer\<close>: the writer thread as an inductive step relation; tasks are served in order, transactions
    are atomic, a critical write is on its own and durable.

  \<^bold>\<open>Migration.\<close>
  \<^item> \<open>Candidate_Buffer\<close>: the prefetch window over a paged read (locale \<open>chunk_source\<close>); it hands out the
    pending items in order, each once.
  \<^item> \<open>Planner\<close>: precheck and planners of both versions (locale \<open>plan_classifier\<close>): a plan is exactly the
    eligible members, and nobody who is already in the target, was already processed or has no access hash;
    over one job repository and on ASCII labels the two versions plan the same.
  \<^item> \<open>Executor\<close>, \<open>Executor_Frame\<close>, \<open>Executor_Wf\<close>, \<open>Executor_Completion\<close>, \<open>Executor_Pacing\<close>: the executor
    of version 1.2 with its delayed flush, controls and error replies.  The locale \<open>exec_frame\<close> carries a
    preorder on states through all its operations; its instances give pacing and call counting.  A run keeps
    the schema, never calls early, and an undisturbed run ends with a result for every item.
  \<^item> \<open>Executor_V1\<close>, \<open>Executor_V1_Pacing\<close>: the executor and the buffer of version 1 over stores of any kind, and
    that it never calls early, wherever a run is cut off.
  \<^item> \<open>Recovery\<close>: \<open>migration/recovery.py\<close>.

  \<^bold>\<open>Telegram.\<close>
  \<^item> \<open>Telegram_Client\<close>, \<open>Gateway\<close>, \<open>Auth\<close>: clients, gateway operations as the requests they send, sign-in
    with the account row that each outcome leaves.
  \<^item> \<open>Scanner\<close>: producer, consumer and bounded queue as interleaved steps; a scan always ends with its job
    in a final state, and at every moment the checkpoint in the row of the job covers only stored pages.

  \<^bold>\<open>Application.\<close>
  \<^item> \<open>Runtime_Services\<close>, \<open>State_Store\<close>: buses, aggregator, monitor, governor, pools, life cycle; snapshot.
  \<^item> \<open>Handlers\<close>, \<open>Handler_Safety\<close>, \<open>App_Invariant\<close>: every command with its guards, work and callbacks; a
    command submits only work its guards allow, a job never runs twice at a time, a run follows its plan,
    a pause forgets a server wait (a defect), and every piece of work keeps the schema.
  \<^item> \<open>Config\<close>, \<open>Startup\<close>: settings and directories; a start from any state the last session left is safe or
    stops with the error of the part that failed, which composes the upgrade of the database, the recovery
    and the registry of runs.
  \<^item> \<open>Ui_Models\<close>, \<open>Migration_Page\<close>, \<open>Pages\<close>: controllers, table models and filter panel; the page that plans and
    drives a migration, which only sends commands that fit what it checked and what events announced; the
    other pages, which never use a group under an account it was not listed for.

  \<^bold>\<open>Approximations.\<close>  Letter case is ASCII case (\<open>py_lower\<close>); ids and counters are unbounded, so SQLite's 64-bit
  overflow does not occur; \<open>waiting_until\<close> texts that are no dates are one value; the delayed flush of an
  executor is done at the end of the \<open>await\<close> in which it falls due; a failed transaction is rolled back by
  the type of the operations; the handlers take the last database of a scan or run from their environment;
  threads that wait for a lock or an answer do so for ever unless a timeout is modelled.

  \<^bold>\<open>Bounds and fuel.\<close>  Three loops depend on what the server answers and have fuel: the retry loop of a
  candidate (\<open>attempt_loop\<close>), the loop of a run (\<open>run_loop\<close>) and the paging of participants
  (\<open>iter_participant_pages\<close>); \<^const>\<open>None\<close> is "not finished yet".  It is proved that the number of
  server waits plus three is enough for the first, the number of pending items plus one for the second, and
  the size of the group plus one for the third.  The loops of the version 1 executor are cut off after a number
  of rounds and return the state so far, and what is shown of them holds at every cut.  The sleeping loops end by a measure, because a nap advances
  the clock; all other recursion is structural.

  \<^bold>\<open>Not modelled.\<close>  The layout, the label texts and the signals of Qt widgets, the dashboard and the main window (what
  they do to the application goes through the modelled pages and controllers); SQLite, Telethon, \<open>csv\<close> and \<open>openpyxl\<close> themselves (their documented
  behaviour is in the statements or a parameter); the bytes of files; log formatting and timestamps of rows;
  thin forwarding services no code constructs; the fake gateway of the tests, the tests and the build
  scripts; and those files of the version 1 tree that are copies of modelled ones.
\<close>

end
